(* ===== verification/Base.thy ===== *)
theory Base
  imports Main "HOL-Library.Word" "HOL-Library.Multiset"
begin

text \<open>
  Prelude of the development: the names of the C integer types, the result
  type of fallible functions, the collections of simplification rules that the
  component theories extend, and the generic facts on lists and words that
  several components share.
\<close>

unbundle bit_operations_syntax

type_synonym u8 = "8 word"
type_synonym u16 = "16 word"
type_synonym u32 = "32 word"
type_synonym u64 = "64 word"

text \<open>A call that fills \<open>char **error\<close> and returns a negative code is an
  \<open>Inl\<close>, a call that returns 0 is an \<open>Inr\<close>.\<close>

type_synonym ('e, 'a) res = "'e + 'a"

text \<open>\<open>tx_simps\<close>, \<open>sb_simps\<close>, \<open>bpf_simps\<close> and \<open>dmn_simps\<close> hold the
  unfolding equations that the proofs of the respective component use.\<close>

named_theorems tx_simps
named_theorems sb_simps
named_theorems bpf_simps
named_theorems dmn_simps

subsection \<open>Tables\<close>

text \<open>A uthash table is the list of its entries in insertion order, the order in
  which \<open>HASH_ITER\<close> visits them; \<open>key\<close> is the field the table is keyed by.
  \<open>kset\<close> is a write through a pointer to an entry.\<close>

definition kget :: "('v \<Rightarrow> u32) \<Rightarrow> 'v list \<Rightarrow> u32 \<Rightarrow> 'v option" where
  "kget key xs d = find (\<lambda>v. key v = d) xs"

definition kadd :: "'v \<Rightarrow> 'v list \<Rightarrow> 'v list" where
  "kadd v xs = xs @ [v]"

definition kdel :: "('v \<Rightarrow> u32) \<Rightarrow> u32 \<Rightarrow> 'v list \<Rightarrow> 'v list" where
  "kdel key d xs = filter (\<lambda>v. key v \<noteq> d) xs"

definition kset :: "('v \<Rightarrow> u32) \<Rightarrow> 'v \<Rightarrow> 'v list \<Rightarrow> 'v list" where
  "kset key v xs = map (\<lambda>x. if key x = key v then v else x) xs"

definition kwf :: "('v \<Rightarrow> u32) \<Rightarrow> 'v list \<Rightarrow> bool" where
  "kwf key xs \<longleftrightarrow> distinct (map key xs)"

lemma kget_key: "kget key xs d = Some v \<Longrightarrow> key v = d \<and> v \<in> set xs"
  by (auto simp: kget_def find_Some_iff)

lemma kget_None: "kget key xs d = None \<longleftrightarrow> d \<notin> key ` set xs"
  by (auto simp: kget_def find_None_iff)

lemma kget_add:
  "kget key (kadd v xs) d = (case kget key xs d of Some w \<Rightarrow> Some w
     | None \<Rightarrow> if key v = d then Some v else None)"
  by (induction xs) (auto simp: kget_def kadd_def)

lemma kget_del: "kget key (kdel key d xs) d' = (if d' = d then None else kget key xs d')"
  by (induction xs) (auto simp: kget_def kdel_def)

lemma kget_set:
  "kget key (kset key v xs) d = (if d = key v \<and> kget key xs d \<noteq> None then Some v else kget key xs d)"
  by (induction xs) (auto simp: kget_def kset_def)

lemma kwf_add: "kwf key xs \<Longrightarrow> kget key xs (key v) = None \<Longrightarrow> kwf key (kadd v xs)"
  by (auto simp: kwf_def kadd_def kget_None)

lemma kwf_del: "kwf key xs \<Longrightarrow> kwf key (kdel key d xs)"
  by (simp add: kwf_def kdel_def distinct_map_filter)

lemma map_key_kset [simp]: "map key (kset key v xs) = map key xs"
  by (induction xs) (auto simp: kset_def)

lemma length_kset [simp]: "length (kset key v xs) = length xs"
  by (simp add: kset_def)

lemma kwf_set: "kwf key xs \<Longrightarrow> kwf key (kset key v xs)"
  by (simp add: kwf_def)

lemma kdel_add_fresh: "kget key xs (key v) = None \<Longrightarrow> kdel key (key v) (kadd v xs) = xs"
  by (auto simp: kdel_def kadd_def kget_None filter_id_conv image_iff)

lemma in_set_kget: "kwf key xs \<Longrightarrow> v \<in> set xs \<Longrightarrow> kget key xs (key v) = Some v"
  unfolding kwf_def kget_def by (induction xs) auto

lemma kset_same:
  assumes "kwf key xs" "kget key xs (key v) = Some v0" "f v = f v0"
  shows "map f (kset key v xs) = map f xs"
proof -
  have "f v = f x" if "x \<in> set xs" "key x = key v" for x
    using assms that in_set_kget[OF assms(1) that(1)] by simp
  then show ?thesis by (simp add: kset_def)
qed

lemma kset_unchanged: "kwf key xs \<Longrightarrow> kget key xs (key v) = Some v \<Longrightarrow> kset key v xs = xs"
proof -
  assume wf: "kwf key xs" and v: "kget key xs (key v) = Some v"
  have "x = v" if "x \<in> set xs" "key x = key v" for x
    using in_set_kget[OF wf that(1)] that(2) v by simp
  then show ?thesis unfolding kset_def by (intro map_idI) auto
qed

subsection \<open>Lists\<close>

lemma of_nat_length_remove1:
  "x \<in> set xs \<Longrightarrow> (of_nat (length (remove1 x xs)) :: 'a :: ring_1) = of_nat (length xs) - 1"
proof -
  assume "x \<in> set xs"
  then have "length xs = Suc (length (remove1 x xs))"
    using length_pos_if_in_set[of x xs] by (simp add: length_remove1)
  then show ?thesis by simp
qed

lemma distinct_remove1_set:
  "distinct xs \<Longrightarrow> set (remove1 x xs) = set xs - {x}"
  by (rule set_remove1_eq)

lemma map_of_append_fresh:
  "k \<notin> fst ` set xs \<Longrightarrow> map_of (xs @ [(k, v)]) = (map_of xs)(k \<mapsto> v)"
  by (induction xs) (auto simp: fun_eq_iff)

lemma map_of_filter_neq:
  "map_of (filter (\<lambda>(k', _). k' \<noteq> k) xs) = (map_of xs)(k := None)"
  by (induction xs) (auto simp: fun_eq_iff)

lemma take_drop_append_eq:
  "n \<le> length xs \<Longrightarrow> take n xs @ drop n xs = xs"
  by simp

lemma list_all_takeWhile: "list_all P (takeWhile P xs)"
  by (induction xs) auto

subsection \<open>Words\<close>

lemma unat_add_no_wrap:
  fixes x y :: "'a :: len word"
  assumes "unat x + unat y < 2 ^ LENGTH('a)"
  shows "unat (x + y) = unat x + unat y"
  using assms by (simp add: unat_word_ariths)

lemma unat_mult_no_wrap:
  fixes x y :: "'a :: len word"
  assumes "unat x * unat y < 2 ^ LENGTH('a)"
  shows "unat (x * y) = unat x * unat y"
  using assms by (simp add: unat_word_ariths)

lemma unat_sub_le:
  fixes x y :: "'a :: len word"
  assumes "y \<le> x"
  shows "unat (x - y) = unat x - unat y"
  using assms by (rule unat_sub)

lemma unat_u8_less: "unat (w :: u8) < 256"
  by (rule order_less_le_trans[OF unsigned_less]) simp

lemma unat_u16_less: "unat (w :: u16) < 65536"
  by (rule order_less_le_trans[OF unsigned_less]) simp

lemma unat_u32_less: "unat (w :: u32) < 4294967296"
  by (rule order_less_le_trans[OF unsigned_less]) simp

lemma unat_u64_less: "unat (w :: u64) < 18446744073709551616"
  by (rule order_less_le_trans[OF unsigned_less]) simp

lemma unat_take_bit_word: "unat (take_bit n w) = take_bit n (unat w)"
  for w :: "'a :: len word"
  by (rule unsigned_take_bit_eq)

lemma unat_ucast_mod: "unat (ucast x :: 'b :: len word) = unat x mod 2 ^ LENGTH('b)"
  for x :: "'a :: len word"
  by transfer (simp add: take_bit_eq_mod nat_mod_distrib nat_power_eq)

lemma unat_ucast_up:
  fixes x :: "'a :: len word"
  assumes "LENGTH('a) \<le> LENGTH('b :: len)"
  shows "unat (ucast x :: 'b word) = unat x"
proof -
  have "unat x < 2 ^ LENGTH('a)" by (rule unsigned_less)
  also have "\<dots> \<le> 2 ^ LENGTH('b)" using assms by simp
  finally show ?thesis by (simp add: unat_ucast_mod)
qed

lemma unat_not_word: "unat (NOT w) = 2 ^ LENGTH('a) - 1 - unat w"
  for w :: "'a :: len word"
  by transfer (simp add: take_bit_not_eq_mask_diff mask_eq_exp_minus_1 nat_diff_distrib
      nat_power_eq)

lemma unat_minus_1_u32: "unat (- 1 :: u32) = 4294967295"
  using unat_not_word[of "0 :: u32"] by simp

end
