(* ===== verification/Jrpc.thy ===== *)
theory Jrpc
  imports Base "HOL-Library.AList"
begin

text \<open>
  Taking JSON-RPC messages apart and building them (\<open>bbdd-jrpc.c\<close>).  The json-c
  library is the parameter \<open>json_c\<close>: what it tells of a value, and its constructors;
  \<open>json_ok\<close> is what its documentation says of them.  A \<open>NULL\<close> pointer is the JSON null.
  The theory shows that the dissector accepts exactly the objects its policy describes
  and hands out exactly their members.
\<close>

datatype json_type = json_type_null | json_type_boolean | json_type_double | json_type_int
  | json_type_object | json_type_array | json_type_string

text \<open>\<open>get_int64\<close> also tells whether \<open>errno\<close> was set.\<close>

record 'j json_c =
  json_null :: 'j
  get_type :: "'j \<Rightarrow> json_type"
  get_boolean :: "'j \<Rightarrow> bool"
  get_int64 :: "'j \<Rightarrow> int \<times> bool"
  get_string :: "'j \<Rightarrow> string"
  iter :: "'j \<Rightarrow> (string \<times> 'j) list"
  array_elems :: "'j \<Rightarrow> 'j list"
  new_boolean :: "bool \<Rightarrow> 'j"
  new_int64 :: "int \<Rightarrow> 'j"
  new_string :: "string \<Rightarrow> 'j"
  new_object :: "(string \<times> 'j) list \<Rightarrow> 'j"

definition json_ok :: "'j json_c \<Rightarrow> bool" where
  "json_ok J \<longleftrightarrow> (\<forall>v. get_type J v = json_type_null \<longleftrightarrow> v = json_null J)
     \<and> (\<forall>b. get_type J (new_boolean J b) = json_type_boolean \<and> get_boolean J (new_boolean J b) = b)
     \<and> (\<forall>i. get_type J (new_int64 J i) = json_type_int)
     \<and> (\<forall>i. - (2 ^ 63) \<le> i \<longrightarrow> i < 2 ^ 63 \<longrightarrow> get_int64 J (new_int64 J i) = (i, False))
     \<and> (\<forall>s. get_type J (new_string J s) = json_type_string \<and> get_string J (new_string J s) = s)
     \<and> (\<forall>es. distinct (map fst es) \<longrightarrow>
          get_type J (new_object J es) = json_type_object \<and> iter J (new_object J es) = es)"

datatype jrpc_err =
    JE_not_object json_type
  | JE_member_type string json_type json_type
  | JE_duplicate string
  | JE_unexpected string
  | JE_required string
  | JE_version string
  | JE_result_and_error
  | JE_no_result
  | JE_not_array json_type
  | JE_elem_type nat json_type json_type
  | JE_integer
  | JE_uint_range u32 int
  | JE_zero
  | JE_string_too_long string
  | JE_add string
  | JE_alloc

subsection \<open>Policies\<close>

record bbdd_jrpc_policy =
  pol_key :: string
  pol_type :: json_type
  any_type :: bool
  nullable :: bool
  required :: bool
  ignored :: bool

abbreviation policy :: "string \<Rightarrow> json_type \<Rightarrow> bbdd_jrpc_policy" where
  "policy k t \<equiv> \<lparr>pol_key = k, pol_type = t, any_type = False, nullable = False, required = False, ignored = False\<rparr>"

definition policy_accepts :: "'j json_c \<Rightarrow> bbdd_jrpc_policy \<Rightarrow> 'j \<Rightarrow> bool" where
  "policy_accepts J pol val \<longleftrightarrow> any_type pol \<or> nullable pol \<and> get_type J val = json_type_null
     \<or> pol_type pol = get_type J val"

text \<open>The index of the entry that a member is checked against.\<close>

fun policy_index :: "string \<Rightarrow> bbdd_jrpc_policy list \<Rightarrow> nat option" where
  "policy_index key [] = None"
| "policy_index key (pol # pols) =
     (if \<not> ignored pol \<and> key = pol_key pol then Some 0 else map_option Suc (policy_index key pols))"

text \<open>\<open>seen[i]\<close> and \<open>values[i]\<close> are one entry: \<open>None\<close> is not seen.\<close>

definition dissect_member ::
  "'j json_c \<Rightarrow> bbdd_jrpc_policy list \<Rightarrow> string \<times> 'j \<Rightarrow> 'j option list \<Rightarrow> (jrpc_err, 'j option list) res"
where
  "dissect_member J pols kv values =
     (case kv of (key, val) \<Rightarrow>
        (case policy_index key pols of
           None \<Rightarrow> Inl (JE_unexpected key)
         | Some i \<Rightarrow>
             if \<not> policy_accepts J (pols ! i) val
             then Inl (JE_member_type key (pol_type (pols ! i)) (get_type J val))
             else if values ! i \<noteq> None then Inl (JE_duplicate key)
             else Inr (values[i := Some val])))"

fun dissect_members ::
  "'j json_c \<Rightarrow> bbdd_jrpc_policy list \<Rightarrow> (string \<times> 'j) list \<Rightarrow> 'j option list \<Rightarrow> (jrpc_err, 'j option list) res"
where
  "dissect_members J pols [] values = Inr values"
| "dissect_members J pols (kv # kvs) values =
     (case dissect_member J pols kv values of
        Inl e \<Rightarrow> Inl e
      | Inr values' \<Rightarrow> dissect_members J pols kvs values')"

definition bbdd_jrpc_dissect :: "'j json_c \<Rightarrow> 'j \<Rightarrow> bbdd_jrpc_policy list \<Rightarrow> (jrpc_err, 'j option list) res" where
  "bbdd_jrpc_dissect J obj pols =
     (if get_type J obj \<noteq> json_type_object then Inl (JE_not_object (get_type J obj))
      else case dissect_members J pols (iter J obj) (replicate (length pols) None) of
             Inl e \<Rightarrow> Inl e
           | Inr values \<Rightarrow>
               (case find (\<lambda>(v, pol). v = None \<and> \<not> ignored pol \<and> required pol) (zip values pols) of
                  Some (_, pol) \<Rightarrow> Inl (JE_required (pol_key pol))
                | None \<Rightarrow> Inr values))"

definition value_of :: "'j json_c \<Rightarrow> 'j option list \<Rightarrow> nat \<Rightarrow> 'j" where
  "value_of J values i = (case values ! i of None \<Rightarrow> json_null J | Some v \<Rightarrow> v)"

subsection \<open>Messages\<close>

definition bbdd_jrpc_validate_version :: "'j json_c \<Rightarrow> 'j \<Rightarrow> (jrpc_err, unit) res option" where
  "bbdd_jrpc_validate_version J ver_obj =
     (if get_type J ver_obj \<noteq> json_type_string then None
      else Some (if get_string J ver_obj = ''2.0'' then Inr () else Inl (JE_version (get_string J ver_obj))))"

definition message_policy :: "bool \<Rightarrow> bbdd_jrpc_policy list" where
  "message_policy want_id =
     [(policy ''jsonrpc'' json_type_string)\<lparr>required := True\<rparr>,
      (policy ''id'' json_type_null)\<lparr>any_type := True, required := want_id\<rparr>,
      (policy ''method'' json_type_string)\<lparr>required := True\<rparr>,
      (policy ''params'' json_type_null)\<lparr>any_type := True\<rparr>]"

definition bbdd_jrpc_dissect_message :: "'j json_c \<Rightarrow> bool \<Rightarrow> 'j \<Rightarrow> (jrpc_err, 'j \<times> string \<times> 'j) res option" where
  "bbdd_jrpc_dissect_message J want_id obj =
     (case bbdd_jrpc_dissect J obj (message_policy want_id) of
        Inl e \<Rightarrow> Some (Inl e)
      | Inr values \<Rightarrow>
          (case bbdd_jrpc_validate_version J (value_of J values 0) of
             None \<Rightarrow> None
           | Some (Inl e) \<Rightarrow> Some (Inl e)
           | Some (Inr _) \<Rightarrow>
               Some (Inr (value_of J values 1, get_string J (value_of J values 2), value_of J values 3))))"

definition bbdd_jrpc_dissect_request :: "'j json_c \<Rightarrow> 'j \<Rightarrow> (jrpc_err, 'j \<times> string \<times> 'j) res option" where
  "bbdd_jrpc_dissect_request J obj = bbdd_jrpc_dissect_message J True obj"

definition bbdd_jrpc_dissect_notif :: "'j json_c \<Rightarrow> 'j \<Rightarrow> (jrpc_err, string \<times> 'j) res option" where
  "bbdd_jrpc_dissect_notif J obj = map_option (map_sum id snd) (bbdd_jrpc_dissect_message J False obj)"

definition response_policy :: "bbdd_jrpc_policy list" where
  "response_policy =
     [(policy ''jsonrpc'' json_type_string)\<lparr>required := True\<rparr>,
      (policy ''id'' json_type_null)\<lparr>any_type := True, required := True\<rparr>,
      (policy ''result'' json_type_null)\<lparr>any_type := True\<rparr>,
      policy ''error'' json_type_object]"

definition bbdd_jrpc_dissect_response :: "'j json_c \<Rightarrow> 'j \<Rightarrow> (jrpc_err, 'j \<times> 'j \<times> bool) res option" where
  "bbdd_jrpc_dissect_response J obj =
     (case bbdd_jrpc_dissect J obj response_policy of
        Inl e \<Rightarrow> Some (Inl e)
      | Inr values \<Rightarrow>
          (case bbdd_jrpc_validate_version J (value_of J values 0) of
             None \<Rightarrow> None
           | Some (Inl e) \<Rightarrow> Some (Inl e)
           | Some (Inr _) \<Rightarrow>
               (case (values ! 3, values ! 2) of
                  (Some _, Some _) \<Rightarrow> Some (Inl JE_result_and_error)
                | (None, None) \<Rightarrow> Some (Inl JE_no_result)
                | (None, Some result) \<Rightarrow> Some (Inr (value_of J values 1, result, False))
                | (Some error, None) \<Rightarrow> Some (Inr (value_of J values 1, error, True)))))"

definition error_policy :: "bbdd_jrpc_policy list" where
  "error_policy =
     [(policy ''code'' json_type_int)\<lparr>required := True\<rparr>,
      (policy ''message'' json_type_string)\<lparr>required := True\<rparr>,
      (policy ''data'' json_type_null)\<lparr>any_type := True\<rparr>]"

definition bbdd_jrpc_dissect_error :: "'j json_c \<Rightarrow> 'j \<Rightarrow> (jrpc_err, int \<times> string \<times> 'j) res" where
  "bbdd_jrpc_dissect_error J obj =
     (case bbdd_jrpc_dissect J obj error_policy of
        Inl e \<Rightarrow> Inl e
      | Inr values \<Rightarrow>
          Inr (fst (get_int64 J (value_of J values 0)), get_string J (value_of J values 1), value_of J values 2))"

text \<open>\<open>params\<close> may be absent (\<open>NULL\<close>), otherwise it has no members.\<close>

definition bbdd_jrpc_dissect_params_empty :: "'j json_c \<Rightarrow> 'j \<Rightarrow> (jrpc_err, unit) res" where
  "bbdd_jrpc_dissect_params_empty J obj =
     (if obj = json_null J then Inr ()
      else map_sum id (\<lambda>_. ()) (bbdd_jrpc_dissect J obj []))"

subsection \<open>Arrays, numbers and strings\<close>

fun validate_elems :: "'j json_c \<Rightarrow> json_type \<Rightarrow> nat \<Rightarrow> 'j list \<Rightarrow> (jrpc_err, unit) res" where
  "validate_elems J t i [] = Inr ()"
| "validate_elems J t i (elm # elms) =
     (if get_type J elm \<noteq> t then Inl (JE_elem_type i t (get_type J elm)) else validate_elems J t (Suc i) elms)"

definition bbdd_jrpc_validate_array :: "'j json_c \<Rightarrow> 'j \<Rightarrow> json_type \<Rightarrow> (jrpc_err, unit) res" where
  "bbdd_jrpc_validate_array J obj elm_type =
     (if get_type J obj \<noteq> json_type_array then Inl (JE_not_array (get_type J obj))
      else validate_elems J elm_type 0 (array_elems J obj))"

definition bbdd_jrpc_get_uint :: "'j json_c \<Rightarrow> 'j \<Rightarrow> u32 \<Rightarrow> (jrpc_err, u32) res" where
  "bbdd_jrpc_get_uint J obj maxv =
     (case get_int64 J obj of (v, err) \<Rightarrow>
        if err then Inl JE_integer
        else if v < 0 \<or> v > uint maxv then Inl (JE_uint_range maxv v)
        else Inr (word_of_int v))"

definition bbdd_jrpc_get_uint32 :: "'j json_c \<Rightarrow> 'j \<Rightarrow> (jrpc_err, u32) res" where
  "bbdd_jrpc_get_uint32 J obj = bbdd_jrpc_get_uint J obj 0xffffffff"

definition bbdd_jrpc_get_uint32_non0 :: "'j json_c \<Rightarrow> 'j \<Rightarrow> (jrpc_err, u32) res" where
  "bbdd_jrpc_get_uint32_non0 J obj =
     (case bbdd_jrpc_get_uint32 J obj of
        Inl e \<Rightarrow> Inl e
      | Inr v \<Rightarrow> if v = 0 then Inl JE_zero else Inr v)"

definition bbdd_jrpc_get_uint8 :: "'j json_c \<Rightarrow> 'j \<Rightarrow> (jrpc_err, u8) res" where
  "bbdd_jrpc_get_uint8 J obj = map_sum id ucast (bbdd_jrpc_get_uint J obj 0xff)"

definition bbdd_jrpc_strcpy :: "'j json_c \<Rightarrow> 'j \<Rightarrow> nat \<Rightarrow> (jrpc_err, string) res" where
  "bbdd_jrpc_strcpy J obj buf_len =
     (let str = get_string J obj
      in if length str \<ge> buf_len then Inl (JE_string_too_long str) else Inr str)"

subsection \<open>Building\<close>

text \<open>An object under construction: its members so far and the number of allocations made;
  \<open>ok i\<close> tells whether the \<open>i\<close>-th of them succeeds.  \<open>json_object_object_add\<close> replaces a
  member that is there already.\<close>

type_synonym 'j builder = "(string \<times> 'j) list \<times> nat"

definition object_add :: "(nat \<Rightarrow> bool) \<Rightarrow> string \<Rightarrow> 'j \<Rightarrow> 'j builder \<Rightarrow> (jrpc_err, 'j builder) res" where
  "object_add ok name v b =
     (case b of (es, n) \<Rightarrow> if ok n then Inr (AList.update name v es, Suc n) else Inl (JE_add name))"

definition append_new :: "(nat \<Rightarrow> bool) \<Rightarrow> string \<Rightarrow> 'j \<Rightarrow> 'j builder \<Rightarrow> (jrpc_err, 'j builder) res" where
  "append_new ok name v b =
     (case b of (es, n) \<Rightarrow> if ok n then object_add ok name v (es, Suc n) else Inl (JE_add name))"

definition bbdd_jrpc_append_str :: "'j json_c \<Rightarrow> (nat \<Rightarrow> bool) \<Rightarrow> string \<Rightarrow> string \<Rightarrow> 'j builder \<Rightarrow> (jrpc_err, 'j builder) res" where
  "bbdd_jrpc_append_str J ok name v = append_new ok name (new_string J v)"

definition bbdd_jrpc_append_int :: "'j json_c \<Rightarrow> (nat \<Rightarrow> bool) \<Rightarrow> string \<Rightarrow> int \<Rightarrow> 'j builder \<Rightarrow> (jrpc_err, 'j builder) res" where
  "bbdd_jrpc_append_int J ok name v = append_new ok name (new_int64 J v)"

definition bbdd_jrpc_append_bool :: "'j json_c \<Rightarrow> (nat \<Rightarrow> bool) \<Rightarrow> string \<Rightarrow> bool \<Rightarrow> 'j builder \<Rightarrow> (jrpc_err, 'j builder) res" where
  "bbdd_jrpc_append_bool J ok name v = append_new ok name (new_boolean J v)"

definition bbdd_jrpc_append_obj :: "(nat \<Rightarrow> bool) \<Rightarrow> string \<Rightarrow> 'j \<Rightarrow> 'j builder \<Rightarrow> (jrpc_err, 'j builder) res" where
  "bbdd_jrpc_append_obj ok name v = object_add ok name v"

definition bbdd_jrpc_append_null :: "'j json_c \<Rightarrow> (nat \<Rightarrow> bool) \<Rightarrow> string \<Rightarrow> 'j builder \<Rightarrow> (jrpc_err, 'j builder) res" where
  "bbdd_jrpc_append_null J ok name = bbdd_jrpc_append_obj ok name (json_null J)"

text \<open>A chain of calls joined by \<open>||\<close>: the first that fails ends it.\<close>

fun chain :: "('s \<Rightarrow> ('e, 's) res) list \<Rightarrow> 's \<Rightarrow> ('e, 's) res" where
  "chain [] s = Inr s"
| "chain (f # fs) s = (case f s of Inl e \<Rightarrow> Inl e | Inr s' \<Rightarrow> chain fs s')"

definition bbdd_jrpc_json_new_object :: "(nat \<Rightarrow> bool) \<Rightarrow> nat \<Rightarrow> (jrpc_err, 'j builder) res" where
  "bbdd_jrpc_json_new_object ok n = (if ok n then Inr ([], Suc n) else Inl JE_alloc)"

definition bbdd_jrpc_new_object :: "'j json_c \<Rightarrow> (nat \<Rightarrow> bool) \<Rightarrow> 'j \<Rightarrow> nat \<Rightarrow> (jrpc_err, 'j builder) res" where
  "bbdd_jrpc_new_object J ok ident n =
     (case bbdd_jrpc_json_new_object ok n of
        Inl e \<Rightarrow> Inl e
      | Inr b \<Rightarrow>
          chain [bbdd_jrpc_append_str J ok ''jsonrpc'' ''2.0'',
                 if ident \<noteq> json_null J then bbdd_jrpc_append_obj ok ''id'' ident else Inr] b)"

definition bbdd_jrpc_new_request :: "'j json_c \<Rightarrow> (nat \<Rightarrow> bool) \<Rightarrow> int \<Rightarrow> string \<Rightarrow> nat \<Rightarrow> (jrpc_err, 'j builder) res" where
  "bbdd_jrpc_new_request J ok ident meth n =
     (if \<not> ok n then Inl JE_alloc
      else case bbdd_jrpc_new_object J ok (new_int64 J ident) (Suc n) of
             Inl e \<Rightarrow> Inl e
           | Inr b \<Rightarrow> bbdd_jrpc_append_str J ok ''method'' meth b)"

definition bbdd_jrpc_new_notif :: "'j json_c \<Rightarrow> (nat \<Rightarrow> bool) \<Rightarrow> string \<Rightarrow> nat \<Rightarrow> (jrpc_err, 'j builder) res" where
  "bbdd_jrpc_new_notif J ok meth n =
     (case bbdd_jrpc_new_object J ok (json_null J) n of
        Inl e \<Rightarrow> Inl e
      | Inr b \<Rightarrow> bbdd_jrpc_append_str J ok ''method'' meth b)"

text \<open>The error object; its \<open>data\<close> member may be missing when there is no memory for it.\<close>

definition bbdd_jrpc_object_add_error ::
  "'j json_c \<Rightarrow> (nat \<Rightarrow> bool) \<Rightarrow> int \<Rightarrow> string \<Rightarrow> 'j option \<Rightarrow> 'j builder \<Rightarrow> (jrpc_err, 'j builder) res"
where
  "bbdd_jrpc_object_add_error J ok code message data b =
     (case b of (es, n) \<Rightarrow>
        (case bbdd_jrpc_json_new_object ok n of
           Inl e \<Rightarrow> Inl e
         | Inr eb \<Rightarrow>
             (case chain [bbdd_jrpc_append_int J ok ''code'' code,
                          bbdd_jrpc_append_str J ok ''message'' message,
                          \<lambda>(ees, m). case data of
                             None \<Rightarrow> Inr (ees, m)
                           | Some d \<Rightarrow> (case object_add ok ''data'' d (ees, m) of Inl _ \<Rightarrow> Inr (ees, Suc m) | Inr eb' \<Rightarrow> Inr eb')] eb of
                Inl e \<Rightarrow> Inl e
              | Inr (ees, m) \<Rightarrow> bbdd_jrpc_append_obj ok ''error'' (new_object J ees) (es, m))))"

definition bbdd_jrpc_new_error ::
  "'j json_c \<Rightarrow> (nat \<Rightarrow> bool) \<Rightarrow> 'j \<Rightarrow> int \<Rightarrow> string \<Rightarrow> string \<Rightarrow> nat \<Rightarrow> (jrpc_err, 'j builder) res"
where
  "bbdd_jrpc_new_error J ok ident code message data n =
     (let data_obj = (if ok n then Some (new_string J data) else None)
      in case bbdd_jrpc_new_object J ok ident (Suc n) of
           Inl e \<Rightarrow> Inl e
         | Inr b \<Rightarrow> bbdd_jrpc_object_add_error J ok code message data_obj b)"

subsection \<open>What the dissector accepts\<close>

definition dissect_ok :: "'j json_c \<Rightarrow> 'j \<Rightarrow> bbdd_jrpc_policy list \<Rightarrow> bool" where
  "dissect_ok J obj pols \<longleftrightarrow> get_type J obj = json_type_object \<and> distinct (map fst (iter J obj))
     \<and> (\<forall>(k, v) \<in> set (iter J obj). \<exists>pol \<in> set pols. \<not> ignored pol \<and> pol_key pol = k \<and> policy_accepts J pol v)
     \<and> (\<forall>pol \<in> set pols. required pol \<and> \<not> ignored pol \<longrightarrow> pol_key pol \<in> fst ` set (iter J obj))"

definition member_of :: "(string \<times> 'j) list \<Rightarrow> bbdd_jrpc_policy \<Rightarrow> 'j option" where
  "member_of es pol = (if ignored pol then None else map_of es (pol_key pol))"

definition policy_wf :: "bbdd_jrpc_policy list \<Rightarrow> bool" where
  "policy_wf pols \<longleftrightarrow> distinct (map pol_key (filter (\<lambda>p. \<not> ignored p) pols))"

lemma policy_index_Some:
  "policy_index k pols = Some i \<Longrightarrow> i < length pols \<and> \<not> ignored (pols ! i) \<and> pol_key (pols ! i) = k"
  by (induction pols arbitrary: i) (auto split: if_splits)

lemma policy_index_None: "policy_index k pols = None \<longleftrightarrow> (\<forall>p \<in> set pols. ignored p \<or> pol_key p \<noteq> k)"
  by (induction pols) auto

lemma policy_wf_nth:
  "policy_wf pols \<Longrightarrow> i < length pols \<Longrightarrow> j < length pols \<Longrightarrow> \<not> ignored (pols ! i) \<Longrightarrow> \<not> ignored (pols ! j)
   \<Longrightarrow> pol_key (pols ! i) = pol_key (pols ! j) \<Longrightarrow> i = j"
  unfolding policy_wf_def
proof (induction pols arbitrary: i j)
  case (Cons p pols)
  have no: "False" if "\<not> ignored p" "k < length pols" "\<not> ignored (pols ! k)" "pol_key p = pol_key (pols ! k)" for k
  proof -
    have "pols ! k \<in> set pols" using that(2) by simp
    then show False using Cons.prems(1) that by auto
  qed
  show ?case
  proof (cases i)
    case 0
    then show ?thesis using Cons.prems no[of "j - 1"] by (cases j) auto
  next
    case (Suc i')
    note i = Suc
    show ?thesis
    proof (cases j)
      case 0
      then show ?thesis using Cons.prems no[of i'] i by auto
    next
      case (Suc j')
      then show ?thesis using Cons i by (auto split: if_splits)
    qed
  qed
qed simp

lemma member_of_add:
  assumes "policy_wf pols" "policy_index k pols = Some i" "k \<notin> fst ` set es"
  shows "(map (member_of es) pols)[i := Some v] = map (member_of (es @ [(k, v)])) pols"
proof (rule nth_equalityI)
  fix j assume j: "j < length ((map (member_of es) pols)[i := Some v])"
  note i = policy_index_Some[OF assms(2)]
  have "map_of es k = None" using assms(3) by (simp add: map_of_eq_None_iff)
  moreover have "j \<noteq> i \<Longrightarrow> ignored (pols ! j) \<or> pol_key (pols ! j) \<noteq> k"
    using policy_wf_nth[OF assms(1), of i j] i j by auto
  ultimately show "(map (member_of es) pols)[i := Some v] ! j = map (member_of (es @ [(k, v)])) pols ! j"
    using i j by (cases "j = i") (auto simp: member_of_def map_add_def split: option.split)
qed simp

lemma dissect_members_ok:
  assumes wf: "policy_wf pols" and d: "distinct (map fst es)"
  shows "distinct (map fst (es @ fs)) \<and>
      (\<forall>(k, v) \<in> set fs. \<exists>pol \<in> set pols. \<not> ignored pol \<and> pol_key pol = k \<and> policy_accepts J pol v)
    \<Longrightarrow> dissect_members J pols fs (map (member_of es) pols) = Inr (map (member_of (es @ fs)) pols)"
  and "dissect_members J pols fs (map (member_of es) pols) = Inr vs
    \<Longrightarrow> (\<forall>k \<in> fst ` set es. policy_index k pols \<noteq> None) \<Longrightarrow> distinct (map fst (es @ fs)) \<and>
      (\<forall>(k, v) \<in> set fs. \<exists>pol \<in> set pols. \<not> ignored pol \<and> pol_key pol = k \<and> policy_accepts J pol v)"
  using d
proof (induction fs arbitrary: es)
  case (Cons kv fs)
  obtain k v where kv: "kv = (k, v)" by (cases kv)
  {
    case 1
    obtain pol where pol: "pol \<in> set pols" "\<not> ignored pol" "pol_key pol = k" "policy_accepts J pol v"
      using 1 kv by auto
    then obtain i where i: "policy_index k pols = Some i" using policy_index_None[of k pols] by fastforce
    obtain j where j: "j < length pols" "pols ! j = pol" using pol(1) by (auto simp: in_set_conv_nth)
    have pi: "pols ! i = pol"
      using policy_wf_nth[OF wf j(1), of i] policy_index_Some[OF i] j pol by auto
    have k: "k \<notin> fst ` set es" using 1 kv by auto
    have "map (member_of es) pols ! i = None"
      using policy_index_Some[OF i] k by (auto simp: member_of_def map_of_eq_None_iff)
    then have "dissect_member J pols kv (map (member_of es) pols) = Inr (map (member_of (es @ [kv])) pols)"
      using i pi pol(4) member_of_add[OF wf i k] by (simp add: dissect_member_def kv)
    then show ?case using Cons.IH(1)[of "es @ [kv]"] 1 kv by auto
  next
    case 2
    then obtain i where i: "policy_index k pols = Some i" "policy_accepts J (pols ! i) v"
      "map (member_of es) pols ! i = None"
      and r: "dissect_members J pols fs ((map (member_of es) pols)[i := Some v]) = Inr vs"
      by (auto simp: dissect_member_def kv split: option.splits if_splits sum.splits)
    note p = policy_index_Some[OF i(1)]
    have k: "k \<notin> fst ` set es" using i(3) p by (simp add: member_of_def map_of_eq_None_iff)
    have d: "distinct (map fst (es @ [kv]))" using 2 k kv by auto
    have "(\<forall>x \<in> fst ` set (es @ [kv]). policy_index x pols \<noteq> None)" using 2 i(1) kv by auto
    from Cons.IH(2)[OF r[unfolded member_of_add[OF wf i(1) k, of v], folded kv] this d]
    have ih: "distinct (map fst ((es @ [kv]) @ fs))"
      "\<forall>(k, v) \<in> set fs. \<exists>pol \<in> set pols. \<not> ignored pol \<and> pol_key pol = k \<and> policy_accepts J pol v" by auto
    have "pols ! i \<in> set pols" using p by simp
    then show ?case using ih p i(2) kv by auto
  }
qed auto

lemma replicate_member_of: "replicate (length pols) None = map (member_of []) pols"
  by (rule nth_equalityI) (simp_all add: member_of_def)

lemma find_required:
  "find (\<lambda>(v, pol). v = None \<and> \<not> ignored pol \<and> required pol) (zip (map (member_of es) pols) pols) = None
   \<longleftrightarrow> (\<forall>pol \<in> set pols. required pol \<and> \<not> ignored pol \<longrightarrow> pol_key pol \<in> fst ` set es)"
proof -
  have "zip (map (member_of es) pols) pols = map (\<lambda>p. (member_of es p, p)) pols"
    by (rule nth_equalityI) simp_all
  moreover have "k \<in> fst ` set es \<longleftrightarrow> map_of es k \<noteq> None" for k by (simp add: map_of_eq_None_iff)
  ultimately show ?thesis by (simp add: find_None_iff member_of_def) blast
qed

lemma dissect_accepts:
  assumes "policy_wf pols" "dissect_ok J obj pols"
  shows "bbdd_jrpc_dissect J obj pols = Inr (map (member_of (iter J obj)) pols)"
  using dissect_members_ok(1)[OF assms(1), of "[]" "iter J obj" J] assms(2) find_required[of "iter J obj" pols]
  by (simp add: bbdd_jrpc_dissect_def dissect_ok_def replicate_member_of)

lemma dissect_rejects:
  assumes "policy_wf pols" "bbdd_jrpc_dissect J obj pols = Inr vs"
  shows "dissect_ok J obj pols"
proof -
  have t: "get_type J obj = json_type_object" using assms(2) by (auto simp: bbdd_jrpc_dissect_def split: if_splits)
  obtain ws where w: "dissect_members J pols (iter J obj) (map (member_of []) pols) = Inr ws"
    using assms(2) by (auto simp: bbdd_jrpc_dissect_def replicate_member_of split: if_splits sum.splits)
  note ok = dissect_members_ok(2)[OF assms(1) _ w]
  then have "ws = map (member_of (iter J obj)) pols"
    using dissect_members_ok(1)[OF assms(1), of "[]" "iter J obj" J] w by simp
  then have "find (\<lambda>(v, pol). v = None \<and> \<not> ignored pol \<and> required pol)
      (zip (map (member_of (iter J obj)) pols) pols) = None"
    using assms(2) w t by (auto simp: bbdd_jrpc_dissect_def replicate_member_of split: option.splits)
  then show ?thesis using ok t unfolding find_required by (auto simp: dissect_ok_def)
qed

lemma dissected_accepts:
  assumes wf: "policy_wf pols" and r: "bbdd_jrpc_dissect J obj pols = Inr vs" and i: "i < length pols"
    and v: "vs ! i = Some v"
  shows "policy_accepts J (pols ! i) v"
proof -
  note ok = dissect_rejects[OF wf r]
  have "vs ! i = member_of (iter J obj) (pols ! i)" using dissect_accepts[OF wf ok] r i by simp
  then have "\<not> ignored (pols ! i) \<and> map_of (iter J obj) (pol_key (pols ! i)) = Some v"
    unfolding v member_of_def by (simp split: if_splits)
  then have m: "\<not> ignored (pols ! i)" "(pol_key (pols ! i), v) \<in> set (iter J obj)"
    by (blast, blast intro: map_of_SomeD)
  have "\<forall>(k, v) \<in> set (iter J obj). \<exists>pol \<in> set pols. \<not> ignored pol \<and> pol_key pol = k \<and> policy_accepts J pol v"
    using ok by (simp add: dissect_ok_def)
  from bspec[OF this m(2)] obtain pol where
    p: "pol \<in> set pols" "\<not> ignored pol" "pol_key pol = pol_key (pols ! i)" "policy_accepts J pol v" by auto
  then obtain j where j: "j < length pols" "pols ! j = pol" by (auto simp: in_set_conv_nth)
  then have "j = i" using policy_wf_nth[OF wf j(1) i] m(1) p(2,3) by simp
  then show ?thesis using j(2) p(4) by simp
qed

lemma dissected_required:
  assumes wf: "policy_wf pols" and r: "bbdd_jrpc_dissect J obj pols = Inr vs" and i: "i < length pols"
    and q: "required (pols ! i)" "\<not> ignored (pols ! i)"
  shows "vs ! i \<noteq> None"
proof -
  note ok = dissect_rejects[OF wf r]
  have "pol_key (pols ! i) \<in> fst ` set (iter J obj)" using ok i q by (simp add: dissect_ok_def)
  then show ?thesis using dissect_accepts[OF wf ok] r i q(2) by (auto simp: member_of_def map_of_eq_None_iff)
qed

lemma message_policy_wf: "policy_wf (message_policy w)" "policy_wf response_policy" "policy_wf error_policy"
  by (simp_all add: policy_wf_def message_policy_def response_policy_def error_policy_def)

lemma required_string:
  assumes "policy_wf pols" "bbdd_jrpc_dissect J obj pols = Inr vs" "i < length pols"
    "pols ! i = (policy k json_type_string)\<lparr>required := True\<rparr>"
  obtains v where "vs ! i = Some v" "value_of J vs i = v" "get_type J v = json_type_string"
  using dissected_required[OF assms(1-3)] dissected_accepts[OF assms(1-3)] assms(4)
  by (auto simp: policy_accepts_def value_of_def)

lemma dissect_message_total: "\<exists>r. bbdd_jrpc_dissect_message J w obj = Some r"
proof (cases "bbdd_jrpc_dissect J obj (message_policy w)")
  case (Inr vs)
  obtain v where "value_of J vs 0 = v" "get_type J v = json_type_string"
    by (rule required_string[OF message_policy_wf(1) Inr, of 0 "''jsonrpc''"]) (simp_all add: message_policy_def)
  with Inr show ?thesis
    by (auto simp: bbdd_jrpc_dissect_message_def bbdd_jrpc_validate_version_def)
qed (simp add: bbdd_jrpc_dissect_message_def)

lemma dissect_response_total: "\<exists>r. bbdd_jrpc_dissect_response J obj = Some r"
proof (cases "bbdd_jrpc_dissect J obj response_policy")
  case (Inr vs)
  obtain v where "value_of J vs 0 = v" "get_type J v = json_type_string"
    by (rule required_string[OF message_policy_wf(2) Inr, of 0 "''jsonrpc''"]) (simp_all add: response_policy_def)
  with Inr show ?thesis
    by (auto simp: bbdd_jrpc_dissect_response_def bbdd_jrpc_validate_version_def split: option.split)
qed (simp add: bbdd_jrpc_dissect_response_def)

subsection \<open>What the builder builds\<close>

definition appends :: "('j builder \<Rightarrow> (jrpc_err, 'j builder) res) \<Rightarrow> (string \<times> 'j) list \<Rightarrow> bool" where
  "appends f ms \<longleftrightarrow> (\<forall>es n es' n'. f (es, n) = Inr (es', n') \<longrightarrow> distinct (map fst (es @ ms)) \<longrightarrow> es' = es @ ms)"

lemma update_fresh: "k \<notin> fst ` set es \<Longrightarrow> AList.update k v es = es @ [(k, v)]"
  by (induction es) auto

lemma appends_nil [intro]: "appends Inr []"
  by (simp add: appends_def)

lemma appends_object_add [intro]: "appends (object_add ok k v) [(k, v)]"
  by (auto simp: appends_def object_add_def update_fresh split: if_splits)

lemma appends_new [intro]: "appends (append_new ok k v) [(k, v)]"
  by (auto simp: appends_def append_new_def object_add_def update_fresh split: if_splits)

lemma appends_chain:
  assumes "list_all2 appends fs mss"
  shows "appends (chain fs) (concat mss)"
  using assms
proof (induction rule: list_all2_induct)
  case (Cons f fs ms mss)
  show ?case unfolding appends_def
  proof (intro allI impI)
    fix es n es' n'
    assume r: "chain (f # fs) (es, n) = Inr (es', n')" and d: "distinct (map fst (es @ concat (ms # mss)))"
    then obtain es1 n1 where f: "f (es, n) = Inr (es1, n1)" "chain fs (es1, n1) = Inr (es', n')"
      by (auto split: sum.splits)
    have "distinct (map fst (es @ ms))" using d by auto
    then have "es1 = es @ ms" using Cons(1) f(1) unfolding appends_def by blast
    moreover have "distinct (map fst ((es @ ms) @ concat mss))" using d by simp
    ultimately show "es' = es @ concat (ms # mss)" using Cons(3) f(2) unfolding appends_def
      by (metis append.assoc concat.simps(2))
  qed
qed (auto simp: appends_def)

lemmas append_defs = bbdd_jrpc_append_str_def bbdd_jrpc_append_int_def bbdd_jrpc_append_bool_def
  bbdd_jrpc_append_obj_def bbdd_jrpc_append_null_def

lemma append_appends [intro]:
  "appends (bbdd_jrpc_append_str J ok k s) [(k, new_string J s)]"
  "appends (bbdd_jrpc_append_int J ok k i) [(k, new_int64 J i)]"
  "appends (bbdd_jrpc_append_bool J ok k b) [(k, new_boolean J b)]"
  "appends (bbdd_jrpc_append_obj ok k v) [(k, v)]"
  "appends (bbdd_jrpc_append_null J ok k) [(k, json_null J)]"
  by (auto simp: append_defs)

lemma appendsD: "appends f ms \<Longrightarrow> f (es, n) = Inr b \<Longrightarrow> distinct (map fst (es @ ms)) \<Longrightarrow> fst b = es @ ms"
  by (cases b) (auto simp: appends_def)

lemma json_new_null:
  assumes "json_ok J"
  shows "new_int64 J i \<noteq> json_null J" "new_string J s \<noteq> json_null J" "new_boolean J b \<noteq> json_null J"
    "distinct (map fst es) \<Longrightarrow> new_object J es \<noteq> json_null J"
  using assms unfolding json_ok_def by (metis json_type.distinct)+

lemma new_object_members:
  assumes "bbdd_jrpc_new_object J ok ident n = Inr b"
  shows "fst b = [(''jsonrpc'', new_string J ''2.0'')] @ (if ident \<noteq> json_null J then [(''id'', ident)] else [])"
proof -
  obtain n0 where c: "chain [bbdd_jrpc_append_str J ok ''jsonrpc'' ''2.0'',
      if ident \<noteq> json_null J then bbdd_jrpc_append_obj ok ''id'' ident else Inr] ([], n0) = Inr b"
    using assms unfolding bbdd_jrpc_new_object_def bbdd_jrpc_json_new_object_def
    by (cases "ok n") (simp_all del: chain.simps)
  have "appends (chain [bbdd_jrpc_append_str J ok ''jsonrpc'' ''2.0'',
      if ident \<noteq> json_null J then bbdd_jrpc_append_obj ok ''id'' ident else Inr])
     (concat [[(''jsonrpc'', new_string J ''2.0'')], if ident \<noteq> json_null J then [(''id'', ident)] else []])"
    by (rule appends_chain) auto
  from appendsD[OF this c] show ?thesis by auto
qed

lemma new_request_members:
  assumes J: "json_ok J" and r: "bbdd_jrpc_new_request J ok ident meth n = Inr b"
  shows "fst b = [(''jsonrpc'', new_string J ''2.0''), (''id'', new_int64 J ident), (''method'', new_string J meth)]"
proof -
  obtain es m where b0: "bbdd_jrpc_new_object J ok (new_int64 J ident) (Suc n) = Inr (es, m)"
    "bbdd_jrpc_append_str J ok ''method'' meth (es, m) = Inr b"
    using r by (auto simp: bbdd_jrpc_new_request_def split: sum.splits if_splits)
  have "es = [(''jsonrpc'', new_string J ''2.0''), (''id'', new_int64 J ident)]"
    using new_object_members[OF b0(1)] json_new_null[OF J] by simp
  then show ?thesis using appendsD[OF append_appends(1) b0(2)] by simp
qed

lemma message_dissected:
  assumes "bbdd_jrpc_dissect_message J w obj = Some (Inr (ident, meth, params))"
  obtains vs v where "bbdd_jrpc_dissect J obj (message_policy w) = Inr vs" "vs ! 2 = Some v"
    "get_type J v = json_type_string" "meth = get_string J v" "ident = value_of J vs 1" "params = value_of J vs 3"
    "get_string J (value_of J vs 0) = ''2.0''"
proof -
  obtain vs where vs: "bbdd_jrpc_dissect J obj (message_policy w) = Inr vs" "ident = value_of J vs 1"
    "meth = get_string J (value_of J vs 2)" "params = value_of J vs 3" "get_string J (value_of J vs 0) = ''2.0''"
    using assms by (auto simp: bbdd_jrpc_dissect_message_def bbdd_jrpc_validate_version_def split: sum.splits if_splits)
  obtain v where "vs ! 2 = Some v" "value_of J vs 2 = v" "get_type J v = json_type_string"
    by (rule required_string[OF message_policy_wf(1) vs(1), of 2 "''method''"]) (simp_all add: message_policy_def)
  with vs that show ?thesis by blast
qed

lemma members_dissect:
  assumes "policy_wf pols" "dissect_ok J obj pols" "i < length pols" "bbdd_jrpc_dissect J obj pols = Inr vs"
  shows "vs ! i = member_of (iter J obj) (pols ! i)"
  using dissect_accepts[OF assms(1,2)] assms(3,4) by simp

lemma request_read:
  assumes J: "json_ok J" and "bbdd_jrpc_new_request J ok ident meth n = Inr b"
    and "bbdd_jrpc_append_obj ok ''params'' params (fst b, m) = Inr b'"
  shows "bbdd_jrpc_dissect_request J (new_object J (fst b')) = Some (Inr (new_int64 J ident, meth, params))"
proof -
  let ?es = "[(''jsonrpc'', new_string J ''2.0''), (''id'', new_int64 J ident), (''method'', new_string J meth),
    (''params'', params)]"
  from appendsD[OF append_appends(4) assms(3)] new_request_members[OF assms(1,2)] have es: "fst b' = ?es" by simp
  have it: "iter J (new_object J ?es) = ?es" "get_type J (new_object J ?es) = json_type_object"
    using assms(1) by (simp_all add: json_ok_def)
  have "dissect_ok J (new_object J ?es) (message_policy True)"
    using assms(1) by (simp add: dissect_ok_def it message_policy_def policy_accepts_def json_ok_def)
  from dissect_accepts[OF message_policy_wf(1) this] assms(1) show ?thesis
    unfolding bbdd_jrpc_dissect_request_def bbdd_jrpc_dissect_message_def es
    by (simp add: it message_policy_def member_of_def value_of_def bbdd_jrpc_validate_version_def json_ok_def)
qed

subsection \<open>A concrete library\<close>

datatype jval = JNull | JBool bool | JInt int | JStr string | JObj "(string \<times> jval) list" | JArr "jval list"

definition sample_json :: "jval json_c" where
  "sample_json = \<lparr>json_null = JNull,
     get_type = (\<lambda>v. case v of JNull \<Rightarrow> json_type_null | JBool _ \<Rightarrow> json_type_boolean | JInt _ \<Rightarrow> json_type_int
       | JStr _ \<Rightarrow> json_type_string | JObj _ \<Rightarrow> json_type_object | JArr _ \<Rightarrow> json_type_array),
     get_boolean = (\<lambda>v. case v of JBool b \<Rightarrow> b | _ \<Rightarrow> False),
     get_int64 = (\<lambda>v. case v of JInt i \<Rightarrow> (i, False) | _ \<Rightarrow> (0, True)),
     get_string = (\<lambda>v. case v of JStr s \<Rightarrow> s | _ \<Rightarrow> ''''),
     iter = (\<lambda>v. case v of JObj es \<Rightarrow> es | _ \<Rightarrow> []),
     array_elems = (\<lambda>v. case v of JArr vs \<Rightarrow> vs | _ \<Rightarrow> []),
     new_boolean = JBool, new_int64 = JInt, new_string = JStr, new_object = JObj\<rparr>"

lemma sample_json_sel [simp]:
  "json_null sample_json = JNull" "new_boolean sample_json = JBool" "new_int64 sample_json = JInt"
  "new_string sample_json = JStr" "new_object sample_json = JObj" "get_type sample_json (JInt i) = json_type_int"
  by (simp_all add: sample_json_def)

lemma sample_json_ok: "json_ok sample_json"
  by (simp add: json_ok_def sample_json_def split: jval.split)

subsection \<open>Properties\<close>

text \<open>C19. The dissector accepts an object exactly when it is a JSON object without duplicate
  members, each member is one that the policy allows and has the type the policy asks
  for, and every required member is there; what it hands out for each entry of the
  policy is that member, or nothing when it is absent.\<close>

theorem jrpc_dissect_spec:
  assumes "policy_wf pols"
  shows "bbdd_jrpc_dissect J obj pols = Inr vs \<longleftrightarrow>
    get_type J obj = json_type_object \<and> distinct (map fst (iter J obj))
    \<and> (\<forall>(k, v) \<in> set (iter J obj). \<exists>pol \<in> set pols. \<not> ignored pol \<and> pol_key pol = k \<and> policy_accepts J pol v)
    \<and> (\<forall>pol \<in> set pols. required pol \<and> \<not> ignored pol \<longrightarrow> pol_key pol \<in> fst ` set (iter J obj))
    \<and> vs = map (\<lambda>pol. if ignored pol then None else map_of (iter J obj) (pol_key pol)) pols"
proof -
  have "(\<lambda>pol. if ignored pol then None else map_of (iter J obj) (pol_key pol)) = member_of (iter J obj)"
    by (simp add: member_of_def fun_eq_iff)
  moreover have "bbdd_jrpc_dissect J obj pols = Inr vs \<longleftrightarrow> dissect_ok J obj pols \<and> vs = map (member_of (iter J obj)) pols"
    using dissect_accepts[OF assms, of J obj] dissect_rejects[OF assms, of J obj vs] by auto
  ultimately show ?thesis unfolding dissect_ok_def by simp
qed

theorem jrpc_dissect_spec_witness:
  "bbdd_jrpc_dissect sample_json (JObj [(''code'', JInt 3), (''message'', JStr ''m'')]) error_policy
     = Inr [Some (JInt 3), Some (JStr ''m''), None]"
  using jrpc_dissect_spec[OF message_policy_wf(3), of sample_json "JObj [(''code'', JInt 3), (''message'', JStr ''m'')]"]
  by (simp add: sample_json_def error_policy_def policy_accepts_def)

text \<open>A request that the client builds and a daemon dissects: whatever allocations fail on
  the way, if the client gets to send a request then the daemon reads the identifier,
  the method and the parameters that the client put in.\<close>

theorem request_roundtrip:
  assumes "json_ok J" and "bbdd_jrpc_new_request J ok ident meth n = Inr b"
    and "bbdd_jrpc_append_obj ok ''params'' params b = Inr b'"
  shows "bbdd_jrpc_dissect_request J (new_object J (fst b')) = Some (Inr (new_int64 J ident, meth, params))"
  using request_read[OF assms(1,2), of params "snd b" b'] assms(3) by simp

theorem request_roundtrip_witness:
  "bbdd_jrpc_dissect_request sample_json (JObj [(''jsonrpc'', JStr ''2.0''), (''id'', JInt 1), (''method'', JStr ''stop''), (''params'', JNull)])
     = Some (Inr (JInt 1, ''stop'', JNull))"
  using request_roundtrip[OF sample_json_ok, of "\<lambda>_. True" 1 "''stop''" 0
      "([(''jsonrpc'', JStr ''2.0''), (''id'', JInt 1), (''method'', JStr ''stop'')], 7)" JNull
      "([(''jsonrpc'', JStr ''2.0''), (''id'', JInt 1), (''method'', JStr ''stop''), (''params'', JNull)], 8)"]
  by (simp add: bbdd_jrpc_new_request_def bbdd_jrpc_new_object_def bbdd_jrpc_json_new_object_def append_defs
      append_new_def object_add_def)

text \<open>Dissecting a request is well-typed for every JSON value: the assertion on the type of
  the version never fails, and the method name of an accepted request is the text of a
  member that is a string.\<close>

theorem request_typed:
  "\<exists>r. bbdd_jrpc_dissect_request J obj = Some r
     \<and> (case r of Inl _ \<Rightarrow> True | Inr (ident, meth, params) \<Rightarrow>
          (\<exists>v. map_of (iter J obj) ''method'' = Some v \<and> get_type J v = json_type_string \<and> meth = get_string J v)
          \<and> (''id'' \<in> fst ` set (iter J obj)))"
proof -
  obtain r where r: "bbdd_jrpc_dissect_message J True obj = Some r" using dissect_message_total[of J True obj] by blast
  show ?thesis
  proof (cases r)
    case (Inr x)
    obtain ident meth params where x: "x = (ident, meth, params)" by (cases x)
    obtain vs v where v: "bbdd_jrpc_dissect J obj (message_policy True) = Inr vs" "vs ! 2 = Some v"
      "get_type J v = json_type_string" "meth = get_string J v"
      using message_dissected[of J True obj ident meth params] r Inr x by metis
    note ok = dissect_rejects[OF message_policy_wf(1) v(1)]
    have "map_of (iter J obj) ''method'' = vs ! 2"
      using members_dissect[OF message_policy_wf(1) ok, of 2] v(1) by (simp add: message_policy_def member_of_def)
    moreover have "''id'' \<in> fst ` set (iter J obj)" using ok by (simp add: dissect_ok_def message_policy_def)
    ultimately show ?thesis using r Inr x v by (simp add: bbdd_jrpc_dissect_request_def)
  qed (use r in \<open>simp add: bbdd_jrpc_dissect_request_def\<close>)
qed

end
