(* ===== verification/Bfd_Types.thy ===== *)
theory Bfd_Types
  imports Base
begin

text \<open>
  The data of the program: the BFD control packet (\<open>bbdd-prog-pkt.h\<close>), the
  session records of the daemon (\<open>bbdd-d.h\<close>), the socket address
  (\<open>bbdd-sock.h\<close>), and the records and counters that the daemon shares with the
  kernel programs (\<open>bbdd-prog.h\<close>, \<open>bbdd-prog-stat.h\<close>).  A counter block that the
  source generates with an X-macro is a function from the list of its field
  names to 64-bit values.  Fields of network byte order hold the value as the
  little-endian host loads it; \<open>hton32\<close> and \<open>hton16\<close> convert.
\<close>

subsection \<open>Byte order\<close>

type_synonym be16 = u16
type_synonym be32 = u32

definition hton32 :: "u32 \<Rightarrow> be32" where
  "hton32 x = push_bit 24 (take_bit 8 x) OR push_bit 16 (take_bit 8 (drop_bit 8 x))
              OR push_bit 8 (take_bit 8 (drop_bit 16 x)) OR drop_bit 24 x"

definition ntoh32 :: "be32 \<Rightarrow> u32" where
  "ntoh32 x = hton32 x"

definition hton16 :: "u16 \<Rightarrow> be16" where
  "hton16 x = push_bit 8 (take_bit 8 x) OR drop_bit 8 x"

definition ntoh16 :: "be16 \<Rightarrow> u16" where
  "ntoh16 x = hton16 x"

subsection \<open>The BFD control packet\<close>

record bbdd_bfd_pkt =
  version_diag :: u8
  state_bits :: u8
  detection_multiplier :: u8
  pkt_length :: u8
  my_disc :: be32
  your_disc :: be32
  desired_tx :: be32
  required_rx :: be32
  required_echo_rx :: be32

datatype bbdd_bfd_pkt_state = ADMINDOWN | DOWN | INIT | UP

fun state_code :: "bbdd_bfd_pkt_state \<Rightarrow> u8" where
  "state_code ADMINDOWN = 0"
| "state_code DOWN = 1"
| "state_code INIT = 2"
| "state_code UP = 3"

definition state_of_code :: "u8 \<Rightarrow> bbdd_bfd_pkt_state" where
  "state_of_code c = (if c = 0 then ADMINDOWN else if c = 1 then DOWN
                      else if c = 2 then INIT else UP)"

text \<open>A diagnostic is kept as the 8-bit code, because a received packet can carry
  any 5-bit value, not only the enumerated ones.\<close>

abbreviation (input) DIAG_NOTHING :: u8 where "DIAG_NOTHING \<equiv> 0"
abbreviation (input) DIAG_TIME_EXPIRED :: u8 where "DIAG_TIME_EXPIRED \<equiv> 1"
abbreviation (input) DIAG_DOWN :: u8 where "DIAG_DOWN \<equiv> 3"
abbreviation (input) DIAG_ADMIN_DOWN :: u8 where "DIAG_ADMIN_DOWN \<equiv> 7"

definition BIT_MULTI :: u8 where "BIT_MULTI = 0x01"
definition BIT_DEMAND :: u8 where "BIT_DEMAND = 0x02"
definition BIT_AUTH :: u8 where "BIT_AUTH = 0x04"
definition BIT_CPI :: u8 where "BIT_CPI = 0x08"
definition BIT_FINAL :: u8 where "BIT_FINAL = 0x10"
definition BIT_POLL :: u8 where "BIT_POLL = 0x20"

lemmas pkt_bit_defs =
  BIT_MULTI_def BIT_DEMAND_def BIT_AUTH_def BIT_CPI_def BIT_FINAL_def BIT_POLL_def

definition bbdd_bfd_pkt_version :: "bbdd_bfd_pkt \<Rightarrow> u8" where
  "bbdd_bfd_pkt_version p = drop_bit 5 (version_diag p)"

definition bbdd_bfd_pkt_diag :: "bbdd_bfd_pkt \<Rightarrow> u8" where
  "bbdd_bfd_pkt_diag p = version_diag p AND 0x1f"

definition bbdd_bfd_pkt_state :: "bbdd_bfd_pkt \<Rightarrow> u8" where
  "bbdd_bfd_pkt_state p = drop_bit 6 (state_bits p)"

definition bbdd_bfd_pkt_bits :: "bbdd_bfd_pkt \<Rightarrow> u8" where
  "bbdd_bfd_pkt_bits p = state_bits p AND 0x3f"

subsection \<open>Sessions of the daemon\<close>

type_synonym in6_addr = "u32 \<times> u32 \<times> u32 \<times> u32"

record bbdd_sockaddr =
  sa_family :: nat
  sa_port :: be16
  sin_addr :: be32
  sin6_addr :: in6_addr

abbreviation (input) AF_INET :: nat where "AF_INET \<equiv> 2"
abbreviation (input) AF_INET6 :: nat where "AF_INET6 \<equiv> 10"

record bbdd_d_session_flags =
  multihop :: bool
  cpi :: bool
  passive_role :: bool
  shutdown :: bool

record bbdd_d_session_state_end =
  state :: bbdd_bfd_pkt_state
  diag :: u8

record bbdd_d_session_data_timing =
  detect_mult :: u8
  min_tx_us :: u32
  min_rx_us :: u32

record bbdd_d_session_data =
  sflags :: bbdd_d_session_flags
  discr :: u32
  timing :: bbdd_d_session_data_timing
  sstate :: bbdd_d_session_state_end

record bbdd_d_session =
  src :: bbdd_sockaddr
  dst :: bbdd_sockaddr
  sname :: string
  hold_time_us :: u32
  sttl :: u8
  sifindex :: u32
  vrf_ifindex :: u32
  user_remote_discr :: u32
  vrf_table :: u32
  sess_local :: bbdd_d_session_data
  sess_remote :: bbdd_d_session_data

subsection \<open>What the daemon shares with the kernel programs\<close>

record bpf_fib_lookup =
  fib_family :: u8
  l4_protocol :: u8
  fib_sport :: be16
  fib_dport :: be16
  fib_tot_len :: u16
  fib_ifindex :: u32
  ipv4_src :: be32
  ipv4_dst :: be32
  ipv6_src :: in6_addr
  ipv6_dst :: in6_addr
  fib_tbid :: u32
  fib_mark :: u32
  smac :: "u8 list"
  dmac :: "u8 list"

record bbdd_prog_session_config =
  fib_lookup :: bpf_fib_lookup
  bpf_fib_lookup_flags :: u32
  min_interval_us :: u32
  max_interval_us :: u32
  detect_time_us :: u32
  cfg_gen_id :: u32
  admin_down :: bool
  rearm_timer :: bool
  cfg_ttl :: u8
  rx_expect :: bbdd_bfd_pkt

datatype global_diag =
    Tx_no_session | Tx_not_bfd | Rx_not_bfd | Rx_no_session | Rx_wrong_version_number
  | Rx_invalid_length | Rx_your_discr_0 | Rx_no_unique_session | Ring_buffer_error
  | Sk_lookup_no_socket | Sk_lookup_assign_error | Sk_sent_count | Sk_released_count
  | Sk_enq_count | Sk_deq_count | Sk_qlen_final | Sk_qlen_periodic | Ra_not_bfd
  | Ra_no_session

datatype session_diag =
    Tx_dst_blackholed | Tx_dst_unreachable | Tx_dst_prohibited | Tx_indev_no_forwarding
  | Tx_req_encap | Tx_no_neigh | Tx_no_neigh_final | Tx_req_fragmentation | Tx_no_src_addr
  | Tx_not_forwarded | Tx_fail_lookup | Tx_fail_cksum_update | Tx_fail_update | Tx_fail_redir
  | Tx_loopback_filter | Tx_wrong_gen_id | Rx_admin_down | Rx_ttl_low | Rx_unsupported
  | Rx_multipoint_not_0 | Rx_detection_multiplier_0 | Rx_my_discr_0
  | Rx_your_discr_0_not_down | Rx_timeout | Ra_fail_timer

datatype session_stat = Rx_bytes | Rx_packets | Tx_bytes | Tx_packets

type_synonym global_diag_stats = "global_diag \<Rightarrow> u64"
type_synonym session_diag_stats = "session_diag \<Rightarrow> u64"
type_synonym session_stats = "session_stat \<Rightarrow> u64"

definition bump :: "'c \<Rightarrow> ('c \<Rightarrow> u64) \<Rightarrow> 'c \<Rightarrow> u64" where
  "bump c s = s(c := s c + 1)"

text \<open>The timer of a session's kernel record: not initialised, or initialised and
  possibly armed for a delay in nanoseconds.\<close>

record bbdd_prog_session_data =
  timer_armed_ns :: "u64 option"
  data_stats :: session_stats
  data_diag_stats :: session_diag_stats
  timer_initd :: bool

definition bbdd_prog_slow_interval_us :: u32 where
  "bbdd_prog_slow_interval_us = 1000000"

definition BFD_SINGLE_HOP_PORT :: u16 where "BFD_SINGLE_HOP_PORT = 3784"
definition BFD_MULTI_HOP_PORT :: u16 where "BFD_MULTI_HOP_PORT = 4784"

type_synonym bbdd_bpf_addr = in6_addr

text \<open>The elements of the ring buffer, one constructor for each element type.\<close>

record bbdd_bpf_rb_elem_rx_discr_0 =
  el_ifindex :: u32
  el_wire_len :: u32
  el_ethtype :: u16
  el_ttl :: u8
  el_multihop :: bool
  el_saddr :: bbdd_bpf_addr
  el_daddr :: bbdd_bpf_addr
  el_packet :: bbdd_bfd_pkt

datatype bbdd_bpf_rb_elem =
    RB_TX_NO_NEIGH u32 u16 bbdd_bpf_addr
  | RB_RX_DISCR_0 bbdd_bpf_rb_elem_rx_discr_0
  | RB_RX_UNX_PKT u32 u8 bbdd_bfd_pkt
  | RB_RX_TIMEOUT u32

subsection \<open>Byte order and enumeration lemmas\<close>

lemma bit_hton32:
  "bit (hton32 x) n \<longleftrightarrow> n < 32 \<and>
     bit x (if n < 8 then n + 24 else if n < 16 then n + 8 else if n < 24 then n - 8 else n - 24)"
proof (cases "n < 32")
  case True
  then consider "n < 8" | "8 \<le> n" "n < 16" | "16 \<le> n" "n < 24" | "24 \<le> n" "n < 32"
    by linarith
  then show ?thesis
    by cases (auto simp: hton32_def bit_simps add.commute dest: bit_imp_le_length)
next
  case False
  then show ?thesis by (auto dest: bit_imp_le_length)
qed

lemma ntoh32_hton32 [simp]: "ntoh32 (hton32 x) = x"
  unfolding ntoh32_def by (rule bit_word_eqI) (auto simp: bit_hton32)

lemma hton32_ntoh32 [simp]: "hton32 (ntoh32 x) = x"
  unfolding ntoh32_def by (rule bit_word_eqI) (auto simp: bit_hton32)

lemma ntoh32_inject: "ntoh32 x = ntoh32 y \<longleftrightarrow> x = y"
  by (metis hton32_ntoh32)

lemma hton32_0 [simp]: "hton32 0 = 0"
  by (simp add: hton32_def)

lemma ntoh32_eq_0_iff [simp]: "ntoh32 x = 0 \<longleftrightarrow> x = 0"
  by (metis hton32_0 hton32_ntoh32 ntoh32_hton32)

lemma hton32_eq_0_iff [simp]: "hton32 x = 0 \<longleftrightarrow> x = 0"
  by (metis ntoh32_eq_0_iff ntoh32_hton32)

lemma ntoh16_hton16 [simp]: "ntoh16 (hton16 x) = x"
  unfolding ntoh16_def hton16_def
  by (rule bit_word_eqI) (auto simp: bit_simps dest: bit_imp_le_length)

lemma state_of_code_code [simp]: "state_of_code (state_code s) = s"
  by (cases s) (simp_all add: state_of_code_def)

lemma state_code_of_code: "c < 4 \<Longrightarrow> state_code (state_of_code c) = c"
proof -
  assume "c < 4"
  then have "unat c < 4" by (simp add: word_less_nat_alt)
  then have "unat c = 0 \<or> unat c = 1 \<or> unat c = 2 \<or> unat c = 3" by linarith
  then have "c = 0 \<or> c = 1 \<or> c = 2 \<or> c = 3" by (simp add: word_unat_eq_iff)
  then show ?thesis by (auto simp: state_of_code_def)
qed

lemma bump_same [simp]: "bump c s c = s c + 1"
  by (simp add: bump_def)

lemma bump_other [simp]: "c \<noteq> c' \<Longrightarrow> bump c s c' = s c'"
  by (simp add: bump_def)

end
