(* ===== verification/Sess_Dir.thy ===== *)
theory Sess_Dir
  imports Bfd_Types
begin

text \<open>
  The session directory (\<open>bbdd-sess.c\<close>): sessions keyed by local discriminator,
  visited in insertion order, and the choice of an unused discriminator.  The
  outcome of \<open>malloc\<close> and of every \<open>getrandom\<close> call is an argument.  The theory
  shows that the directory is a finite map and what the random choice guarantees.
\<close>

type_synonym bbdd_sess_dir = "bbdd_d_session list"

definition skey :: "bbdd_d_session \<Rightarrow> u32" where
  "skey s = discr (sess_local s)"

definition zero_sockaddr :: bbdd_sockaddr where
  "zero_sockaddr = \<lparr>sa_family = 0, sa_port = 0, sin_addr = 0, sin6_addr = (0, 0, 0, 0)\<rparr>"

definition zero_session_data :: bbdd_d_session_data where
  "zero_session_data =
     \<lparr>sflags = \<lparr>multihop = False, cpi = False, passive_role = False, shutdown = False\<rparr>,
      discr = 0, timing = \<lparr>detect_mult = 0, min_tx_us = 0, min_rx_us = 0\<rparr>,
      sstate = \<lparr>state = ADMINDOWN, diag = 0\<rparr>\<rparr>"

definition zero_session :: bbdd_d_session where
  "zero_session =
     \<lparr>src = zero_sockaddr, dst = zero_sockaddr, sname = '''', hold_time_us = 0, sttl = 0,
      sifindex = 0, vrf_ifindex = 0, user_remote_discr = 0, vrf_table = 0,
      sess_local = zero_session_data, sess_remote = zero_session_data\<rparr>"

definition bbdd_sess_dir_create :: bbdd_sess_dir where
  "bbdd_sess_dir_create = []"

definition bbdd_sess_dir_get_session :: "bbdd_sess_dir \<Rightarrow> u32 \<Rightarrow> bbdd_d_session option" where
  "bbdd_sess_dir_get_session sdir d = kget skey sdir d"

definition bbdd_sess_dir_has_session :: "bbdd_sess_dir \<Rightarrow> u32 \<Rightarrow> bool" where
  "bbdd_sess_dir_has_session sdir d = (bbdd_sess_dir_get_session sdir d \<noteq> None)"

definition bbdd_sess_dir_add_session ::
  "bool \<Rightarrow> bbdd_sess_dir \<Rightarrow> u32 \<Rightarrow> bbdd_d_session option \<times> bbdd_sess_dir"
where
  "bbdd_sess_dir_add_session malloc_ok sdir d =
     (if \<not> malloc_ok then (None, sdir)
      else let s = zero_session\<lparr>sess_local := zero_session_data\<lparr>discr := d\<rparr>\<rparr>
           in (Some s, kadd s sdir))"

definition bbdd_sess_dir_del_session :: "bbdd_sess_dir \<Rightarrow> u32 \<Rightarrow> bbdd_sess_dir" where
  "bbdd_sess_dir_del_session sdir d = kdel skey d sdir"

text \<open>Iteration: the first entry, and the entry after the one with key \<open>d\<close>.\<close>

definition bbdd_sess_iter_start :: "bbdd_sess_dir \<Rightarrow> bbdd_d_session option" where
  "bbdd_sess_iter_start sdir = (case sdir of [] \<Rightarrow> None | s # _ \<Rightarrow> Some s)"

fun bbdd_sess_iter_next :: "bbdd_sess_dir \<Rightarrow> u32 \<Rightarrow> bbdd_d_session option" where
  "bbdd_sess_iter_next [] d = None"
| "bbdd_sess_iter_next (s # ss) d =
     (if skey s = d then bbdd_sess_iter_start ss else bbdd_sess_iter_next ss d)"

text \<open>\<open>rnd i\<close> is what the \<open>i\<close>-th call of \<open>getrandom\<close> delivers, \<open>None\<close> when it
  does not fill the buffer.  Both loops run until the source is satisfied.\<close>

partial_function (option) bbdd_sess_rand_u32 :: "(nat \<Rightarrow> u32 option) \<Rightarrow> nat \<Rightarrow> (u32 \<times> nat) option"
where
  "bbdd_sess_rand_u32 rnd i =
     (case rnd i of Some v \<Rightarrow> Some (v, Suc i) | None \<Rightarrow> bbdd_sess_rand_u32 rnd (Suc i))"

partial_function (option) bbdd_sess_get_unique_discr ::
  "(nat \<Rightarrow> u32 option) \<Rightarrow> bbdd_sess_dir \<Rightarrow> nat \<Rightarrow> (u32 \<times> nat) option"
where
  "bbdd_sess_get_unique_discr rnd sdir i =
     (case bbdd_sess_rand_u32 rnd i of
        None \<Rightarrow> None
      | Some (d, j) \<Rightarrow>
          if d \<noteq> 0 \<and> bbdd_sess_dir_get_session sdir d \<noteq> None
          then bbdd_sess_get_unique_discr rnd sdir j
          else Some (d, j))"

definition sdir_inv :: "bbdd_sess_dir \<Rightarrow> bool" where
  "sdir_inv sdir \<longleftrightarrow> kwf skey sdir"

subsection \<open>The directory as a finite map\<close>

text \<open>What the users of a session table rely on, stated once for the daemon's
  directory and for the table of kernel-side sessions.\<close>

locale session_table =
  fixes key :: "'v \<Rightarrow> u32"
    and get :: "'t \<Rightarrow> u32 \<Rightarrow> 'v option"
    and add :: "'v \<Rightarrow> 't \<Rightarrow> 't"
    and del :: "u32 \<Rightarrow> 't \<Rightarrow> 't"
    and upd :: "'v \<Rightarrow> 't \<Rightarrow> 't"
    and inv :: "'t \<Rightarrow> bool"
  assumes get_key: "get t d = Some v \<Longrightarrow> key v = d"
    and get_add: "get t (key v) = None \<Longrightarrow> get (add v t) d = (if d = key v then Some v else get t d)"
    and get_del: "get (del d t) d' = (if d' = d then None else get t d')"
    and get_upd: "get t (key v) \<noteq> None \<Longrightarrow> get (upd v t) d = (if d = key v then Some v else get t d)"
    and inv_add: "inv t \<Longrightarrow> get t (key v) = None \<Longrightarrow> inv (add v t)"
    and inv_del: "inv t \<Longrightarrow> inv (del d t)"
    and inv_upd: "inv t \<Longrightarrow> inv (upd v t)"
begin

text \<open>Undoing a fresh insertion gives the same map back, also when the new entry
  was modified in between.\<close>

lemma rollback:
  assumes "get t (key v) = None" "key v' = key v"
  shows "get (del (key v) (upd v' (add v t))) d = get t d"
proof -
  have "get (add v t) (key v') = Some v" using assms by (simp add: get_add)
  then show ?thesis using assms by (simp add: get_del get_upd get_add)
qed

lemma add_then_update:
  assumes "get t (key v) = None" "key v' = key v"
  shows "get (upd v' (add v t)) d = (if d = key v then Some v' else get t d)"
  using assms by (simp add: get_upd get_add)

end

interpretation sdt: session_table skey bbdd_sess_dir_get_session kadd
  "\<lambda>d t. bbdd_sess_dir_del_session t d" "kset skey" sdir_inv
  by unfold_locales
    (auto simp: bbdd_sess_dir_get_session_def bbdd_sess_dir_del_session_def sdir_inv_def kget_add
      kget_del kget_set kwf_add kwf_del kwf_set dest: kget_key split: option.splits)

lemma add_session_get:
  assumes "bbdd_sess_dir_get_session sdir d = None"
    and "bbdd_sess_dir_add_session True sdir d = (r, sdir')"
  shows "r = bbdd_sess_dir_get_session sdir' d" "r \<noteq> None"
    and "d' \<noteq> d \<Longrightarrow> bbdd_sess_dir_get_session sdir' d' = bbdd_sess_dir_get_session sdir d'"
  using assms sdt.get_add[of sdir "zero_session\<lparr>sess_local := zero_session_data\<lparr>discr := d\<rparr>\<rparr>"]
  by (auto simp: bbdd_sess_dir_add_session_def Let_def skey_def)

lemma add_session_inv:
  assumes "sdir_inv sdir" "bbdd_sess_dir_get_session sdir d = None"
  shows "sdir_inv (snd (bbdd_sess_dir_add_session ok sdir d))"
  using assms sdt.inv_add[of sdir "zero_session\<lparr>sess_local := zero_session_data\<lparr>discr := d\<rparr>\<rparr>"]
  by (simp add: bbdd_sess_dir_add_session_def Let_def skey_def)

subsection \<open>Iteration\<close>

lemma iter_next_nth:
  assumes "sdir_inv sdir" "Suc i < length sdir"
  shows "bbdd_sess_iter_next sdir (skey (sdir ! i)) = Some (sdir ! Suc i)"
  using assms
proof (induction sdir arbitrary: i)
  case (Cons s ss)
  show ?case
  proof (cases i)
    case 0
    with Cons.prems show ?thesis by (cases ss) (auto simp: bbdd_sess_iter_start_def)
  next
    case (Suc j)
    with Cons.prems have "skey s \<noteq> skey (ss ! j)"
      by (auto simp: sdir_inv_def kwf_def)
    with Suc Cons show ?thesis by (simp add: sdir_inv_def kwf_def)
  qed
qed simp

lemma iter_next_last:
  assumes "sdir_inv sdir" "sdir \<noteq> []"
  shows "bbdd_sess_iter_next sdir (skey (last sdir)) = None"
  using assms
proof (induction sdir)
  case (Cons s ss)
  then show ?case
    by (cases "ss = []") (auto simp: sdir_inv_def kwf_def bbdd_sess_iter_start_def)
qed simp

subsection \<open>Choosing a discriminator\<close>

lemma unique_discr_skip:
  assumes "rnd i = None"
  shows "bbdd_sess_get_unique_discr rnd sdir i = bbdd_sess_get_unique_discr rnd sdir (Suc i)"
proof -
  have "bbdd_sess_rand_u32 rnd i = bbdd_sess_rand_u32 rnd (Suc i)"
    using assms by (subst bbdd_sess_rand_u32.simps) simp
  then show ?thesis
    by (simp add: bbdd_sess_get_unique_discr.simps[of rnd sdir i]
        bbdd_sess_get_unique_discr.simps[of rnd sdir "Suc i"])
qed

lemma unique_discr_step:
  assumes "rnd i = Some v"
  shows "bbdd_sess_get_unique_discr rnd sdir i =
    (if v \<noteq> 0 \<and> bbdd_sess_dir_get_session sdir v \<noteq> None
     then bbdd_sess_get_unique_discr rnd sdir (Suc i) else Some (v, Suc i))"
  using assms by (subst bbdd_sess_get_unique_discr.simps) (simp add: bbdd_sess_rand_u32.simps)

lemma unique_discr_returns:
  assumes "rnd (i + n) = Some v" "v = 0 \<or> bbdd_sess_dir_get_session sdir v = None"
  shows "\<exists>d j. bbdd_sess_get_unique_discr rnd sdir i = Some (d, j)
    \<and> (d = 0 \<or> bbdd_sess_dir_get_session sdir d = None)"
  using assms
proof (induction n arbitrary: i)
  case 0
  then show ?case by (auto simp: unique_discr_step)
next
  case (Suc n)
  show ?case
  proof (cases "rnd i")
    case None
    with Suc show ?thesis by (simp add: unique_discr_skip)
  next
    case (Some u)
    with Suc show ?thesis by (auto simp: unique_discr_step)
  qed
qed

subsection \<open>Properties\<close>

text \<open>C32. Choosing a discriminator ends as soon as the random source delivers a value that
  is zero or not in use, however many short reads and collisions come first, and a
  value it returns, when it is not zero, belongs to no session.\<close>

theorem unique_discr_terminates:
  assumes "rnd (i + n) = Some v" and "v = 0 \<or> bbdd_sess_dir_get_session sdir v = None"
  shows "\<exists>d j. bbdd_sess_get_unique_discr rnd sdir i = Some (d, j)
    \<and> (d = 0 \<or> bbdd_sess_dir_get_session sdir d = None)"
  using unique_discr_returns[of rnd i n v sdir] assms by blast

theorem unique_discr_terminates_witness:
  "\<exists>d j. bbdd_sess_get_unique_discr (\<lambda>n. if n < 3 then None else Some 5) [] 0 = Some (d, j)
     \<and> (d = 0 \<or> bbdd_sess_dir_get_session [] d = None)"
  by (rule unique_discr_terminates[of _ 0 3 5]) (simp_all add: bbdd_sess_dir_get_session_def kget_def)

text \<open>The loop accepts zero, which is no valid discriminator: when the random source
  delivers zero, zero is the result.\<close>

theorem unique_discr_may_be_zero:
  assumes "rnd i = Some 0"
  shows "bbdd_sess_get_unique_discr rnd sdir i = Some (0, Suc i)"
  using unique_discr_step[of rnd i 0 sdir] assms by simp

theorem unique_discr_may_be_zero_witness:
  "bbdd_sess_get_unique_discr (\<lambda>_. Some 0) [] 0 = Some (0, 1)"
  using unique_discr_may_be_zero[of "\<lambda>_. Some 0" 0 "[]"] by simp

text \<open>Walking the directory from its first entry with the successor function visits
  every session exactly once, in insertion order, and then ends.\<close>

theorem iteration_visits_all:
  assumes "sdir_inv sdir"
  shows "bbdd_sess_iter_start sdir = (if sdir = [] then None else Some (sdir ! 0))
    \<and> (\<forall>i. Suc i < length sdir \<longrightarrow> bbdd_sess_iter_next sdir (skey (sdir ! i)) = Some (sdir ! Suc i))
    \<and> (sdir \<noteq> [] \<longrightarrow> bbdd_sess_iter_next sdir (skey (last sdir)) = None)"
  using iter_next_nth[OF assms] iter_next_last[OF assms]
  by (auto simp: bbdd_sess_iter_start_def split: list.split)

theorem iteration_visits_all_witness:
  "bbdd_sess_iter_next [zero_session] (skey zero_session) = None"
  using iteration_visits_all[of "[zero_session]"] by (simp add: sdir_inv_def kwf_def)

end
