(* ===== verification/Sock_Addr.thy ===== *)
theory Sock_Addr
  imports Sess_Dir "HOL-Library.Char_ord"
begin

text \<open>
  Numbers, times and socket addresses as text (\<open>bbdd-sock.c\<close>, \<open>bbdd-util.c\<close>).  The C
  library's \<open>strtoll\<close> and \<open>strtoull\<close> are modelled with base 0, that is with octal and
  hexadecimal prefixes; whether they report \<open>EINVAL\<close> when there is no number is
  left to the implementation by POSIX and is the argument \<open>einval\<close>.  \<open>inet_pton\<close> and
  \<open>inet_ntop\<close> are parameters.  A string is the list of its characters without the terminating zero.
\<close>

datatype sock_err =
    E_invalid_number string | E_garbage string | E_too_long | E_invalid_address string
  | E_address_family nat | E_no_brackets | E_after_bracket string | E_protocol string
  | E_address_format string | E_not_a_number | E_out_of_bounds | E_unit string

subsection \<open>Numbers\<close>

definition is_space :: "char \<Rightarrow> bool" where
  "is_space c \<longleftrightarrow> c \<in> {CHR '' '', CHR 0x09, CHR 0x0A, CHR 0x0B, CHR 0x0C, CHR 0x0D}"

definition digit_val :: "char \<Rightarrow> nat" where
  "digit_val c = (let n = of_char c in
     if 48 \<le> n \<and> n \<le> 57 then n - 48
     else if 97 \<le> n \<and> n \<le> 122 then n - 87
     else if 65 \<le> n \<and> n \<le> 90 then n - 55 else 36)"

fun scan_digits :: "nat \<Rightarrow> nat \<Rightarrow> string \<Rightarrow> nat \<times> string" where
  "scan_digits base acc [] = (acc, [])"
| "scan_digits base acc (c # cs) =
     (if digit_val c < base then scan_digits base (acc * base + digit_val c) cs else (acc, c # cs))"

fun scan_base0 :: "string \<Rightarrow> (nat \<times> string) option" where
  "scan_base0 (z # x # h # cs) =
     (if z = CHR ''0'' \<and> x \<in> {CHR ''x'', CHR ''X''} \<and> digit_val h < 16 then Some (scan_digits 16 0 (h # cs))
      else if z = CHR ''0'' then Some (scan_digits 8 0 (z # x # h # cs))
      else if digit_val z < 10 then Some (scan_digits 10 0 (z # x # h # cs)) else None)"
| "scan_base0 (z # cs) =
     (if z = CHR ''0'' then Some (scan_digits 8 0 (z # cs))
      else if digit_val z < 10 then Some (scan_digits 10 0 (z # cs)) else None)"
| "scan_base0 [] = None"

text \<open>The sign, the magnitude and the rest; \<open>None\<close> when there is no number.\<close>

definition scan_number :: "string \<Rightarrow> (bool \<times> nat \<times> string) option" where
  "scan_number s =
     (let s = dropWhile is_space s;
          neg = (s \<noteq> [] \<and> hd s = CHR ''-'');
          s = (if s \<noteq> [] \<and> hd s \<in> {CHR ''-'', CHR ''+''} then tl s else s)
      in map_option (\<lambda>(n, r). (neg, n, r)) (scan_base0 s))"

text \<open>Value, rest, whether the value was out of range, and whether there was a number.\<close>

definition strtoll :: "string \<Rightarrow> int \<times> string \<times> bool \<times> bool" where
  "strtoll s =
     (case scan_number s of
        None \<Rightarrow> (0, s, False, False)
      | Some (neg, n, r) \<Rightarrow>
          let v = (if neg then - int n else int n)
          in if v > 2 ^ 63 - 1 then (2 ^ 63 - 1, r, True, True)
             else if v < - (2 ^ 63) then (- (2 ^ 63), r, True, True)
             else (v, r, False, True))"

definition strtoull :: "string \<Rightarrow> u64 \<times> string" where
  "strtoull s =
     (case scan_number s of
        None \<Rightarrow> (0, s)
      | Some (neg, n, r) \<Rightarrow>
          if n \<ge> 2 ^ 64 then (- 1, r)
          else (if neg then - of_nat n else of_nat n, r))"

definition bbdd_sock_parse_range :: "bool \<Rightarrow> string \<Rightarrow> int \<Rightarrow> int \<Rightarrow> (sock_err, int) res" where
  "bbdd_sock_parse_range einval str mn mx =
     (let (rv, rest, erange, conv) = strtoll str
      in if rv = 0 \<and> einval \<and> \<not> conv then Inl (E_invalid_number str)
         else if rv < mn \<or> rv > mx \<or> erange then Inl (E_invalid_number str)
         else if rest \<noteq> [] then Inl (E_garbage str)
         else Inr rv)"

definition bbdd_sock_parse_u8 :: "bool \<Rightarrow> string \<Rightarrow> (sock_err, u8) res" where
  "bbdd_sock_parse_u8 einval str = map_sum id of_int (bbdd_sock_parse_range einval str 0 255)"

definition bbdd_sock_parse_u32 :: "bool \<Rightarrow> string \<Rightarrow> (sock_err, u32) res" where
  "bbdd_sock_parse_u32 einval str = map_sum id of_int (bbdd_sock_parse_range einval str 0 4294967295)"

definition bbdd_sock_parse_port :: "bool \<Rightarrow> string \<Rightarrow> (sock_err, u16) res" where
  "bbdd_sock_parse_port einval str = map_sum id of_int (bbdd_sock_parse_range einval str 1 65534)"

definition bbdd_util_parse_time_us :: "string \<Rightarrow> (sock_err, u32) res" where
  "bbdd_util_parse_time_us str =
     (let (val, e) = strtoull str
      in if e = str then Inl E_not_a_number
         else if val = 0 \<or> val > 4294967295 then Inl E_out_of_bounds
         else case (if e = ''us'' \<or> e = [] then Some 1 else if e = ''ms'' then Some 1000
                    else if e = ''s'' then Some 1000000 else None) of
                None \<Rightarrow> Inl (E_unit e)
              | Some m \<Rightarrow> if val > 4294967295 div m then Inl E_out_of_bounds
                         else Inr (ucast (val * m)))"

definition bbdd_util_startswith :: "string \<Rightarrow> string \<Rightarrow> string option" where
  "bbdd_util_startswith haystack needle =
     (if take (length needle) haystack = needle then Some (drop (length needle) haystack) else None)"

subsection \<open>Addresses\<close>

record inet =
  pton4 :: "string \<Rightarrow> be32 option"
  pton6 :: "string \<Rightarrow> in6_addr option"
  ntop4 :: "be32 \<Rightarrow> string"
  ntop6 :: "in6_addr \<Rightarrow> string"

text \<open>What is documented of \<open>inet_ntop\<close>: its text is short and \<open>inet_pton\<close> reads it back.\<close>

definition inet_ok :: "inet \<Rightarrow> bool" where
  "inet_ok I \<longleftrightarrow> (\<forall>a. pton4 I (ntop4 I a) = Some a \<and> length (ntop4 I a) < 16)
     \<and> (\<forall>a. pton6 I (ntop6 I a) = Some a \<and> length (ntop6 I a) < 46)"

datatype addr_bytes = Addr4 be32 | Addr6 in6_addr

abbreviation (input) AF_UNIX :: nat where "AF_UNIX \<equiv> 1"

definition bbdd_sockaddr_addrbuf :: "bbdd_sockaddr \<Rightarrow> (sock_err, addr_bytes) res" where
  "bbdd_sockaddr_addrbuf sa =
     (if sa_family sa = AF_INET then Inr (Addr4 (sin_addr sa))
      else if sa_family sa = AF_INET6 then Inr (Addr6 (sin6_addr sa))
      else Inl (E_address_family (sa_family sa)))"

definition bbdd_sockaddr_eq :: "bbdd_sockaddr \<Rightarrow> bbdd_sockaddr \<Rightarrow> (sock_err, bool) res" where
  "bbdd_sockaddr_eq sa sb =
     (if sa_family sa \<noteq> sa_family sb then Inr False
      else case bbdd_sockaddr_addrbuf sa of
             Inl e \<Rightarrow> Inl e
           | Inr ba \<Rightarrow> (case bbdd_sockaddr_addrbuf sb of Inl e \<Rightarrow> Inl e | Inr bb \<Rightarrow> Inr (ba = bb)))"

definition bbdd_sock_protos :: "(nat \<times> string) list" where
  "bbdd_sock_protos = [(AF_UNIX, ''unix''), (AF_INET, ''ipv4''), (AF_INET6, ''ipv6'')]"

definition bbdd_sock_af_from_str :: "string \<Rightarrow> (sock_err, nat) res" where
  "bbdd_sock_af_from_str proto =
     (case find (\<lambda>p. snd p = proto) bbdd_sock_protos of Some p \<Rightarrow> Inr (fst p) | None \<Rightarrow> Inl (E_protocol proto))"

definition bbdd_sock_af_to_str :: "nat \<Rightarrow> string option" where
  "bbdd_sock_af_to_str af = map_option snd (find (\<lambda>p. fst p = af) bbdd_sock_protos)"

text \<open>\<open>strdupa\<close> with the bound of \<open>bbdd_sock_strdupa\<close>: \<open>INET6_ADDRSTRLEN\<close> is 46.\<close>

definition bbdd_sock_strdupa :: "string \<Rightarrow> (sock_err, string) res" where
  "bbdd_sock_strdupa str = (if length str > 46 + 16 + 5 then Inl E_too_long else Inr str)"

definition bbdd_sock_parse_addrstr_ipv4 :: "inet \<Rightarrow> string \<Rightarrow> bbdd_sockaddr \<Rightarrow> (sock_err, bbdd_sockaddr) res" where
  "bbdd_sock_parse_addrstr_ipv4 I str bsa =
     (case bbdd_sock_strdupa str of
        Inl e \<Rightarrow> Inl e
      | Inr copy \<Rightarrow>
          (case pton4 I copy of
             None \<Rightarrow> Inl (E_invalid_address str)
           | Some a \<Rightarrow> Inr (bsa\<lparr>sa_family := AF_INET, sa_port := 0, sin_addr := a\<rparr>)))"

definition bbdd_sock_parse_addrstr_ipv6 :: "inet \<Rightarrow> string \<Rightarrow> bbdd_sockaddr \<Rightarrow> (sock_err, bbdd_sockaddr) res" where
  "bbdd_sock_parse_addrstr_ipv6 I str bsa =
     (case pton6 I str of
        None \<Rightarrow> Inl (E_invalid_address str)
      | Some a \<Rightarrow> Inr (bsa\<lparr>sa_family := AF_INET6, sa_port := 0, sin6_addr := a\<rparr>))"

definition bbdd_sock_parse_addrstr :: "inet \<Rightarrow> nat \<Rightarrow> string \<Rightarrow> bbdd_sockaddr \<Rightarrow> (sock_err, bbdd_sockaddr) res" where
  "bbdd_sock_parse_addrstr I af str bsa =
     (if af = AF_INET then bbdd_sock_parse_addrstr_ipv4 I str bsa
      else if af = AF_INET6 then bbdd_sock_parse_addrstr_ipv6 I str bsa
      else Inl (E_address_family af))"

lemma parse_addrstr_family:
  "bbdd_sock_parse_addrstr I af str bsa = Inr sa \<Longrightarrow> sa_family sa = af \<and> af \<in> {AF_INET, AF_INET6}"
  by (auto simp: bbdd_sock_parse_addrstr_def bbdd_sock_parse_addrstr_ipv4_def bbdd_sock_parse_addrstr_ipv6_def
      split: if_splits sum.splits option.splits)

text \<open>Cutting a string at the first and at the last occurrence of a character.\<close>

definition cut_first :: "char \<Rightarrow> string \<Rightarrow> (string \<times> string) option" where
  "cut_first c s = (if c \<in> set s then Some (takeWhile (\<lambda>x. x \<noteq> c) s, tl (dropWhile (\<lambda>x. x \<noteq> c) s)) else None)"

definition cut_last :: "char \<Rightarrow> string \<Rightarrow> (string \<times> string) option" where
  "cut_last c s = map_option (\<lambda>(a, b). (rev b, rev a)) (cut_first c (rev s))"

definition bbdd_sock_split_addr_ipv4 :: "bool \<Rightarrow> string \<Rightarrow> string \<times> string option" where
  "bbdd_sock_split_addr_ipv4 allow_port addr =
     (case (if allow_port then cut_first (CHR '':'') addr else None) of
        None \<Rightarrow> (addr, None) | Some (a, port) \<Rightarrow> (a, Some port))"

definition bbdd_sock_split_addr_ipv6_port :: "string \<Rightarrow> (sock_err, string \<times> string option) res" where
  "bbdd_sock_split_addr_ipv6_port addr =
     (case addr of
        [] \<Rightarrow> Inl E_no_brackets
      | c # rest \<Rightarrow>
          if c \<noteq> CHR ''['' then Inl E_no_brackets
          else (case cut_last (CHR '']'') rest of
                  None \<Rightarrow> Inl E_no_brackets
                | Some (a, t) \<Rightarrow>
                    (case t of
                       [] \<Rightarrow> Inr (a, None)
                     | d # port \<Rightarrow> if d = CHR '':'' then Inr (a, Some port) else Inl (E_after_bracket a))))"

definition bbdd_sock_split_addr_proto :: "string \<Rightarrow> (sock_err, nat \<times> string \<times> string \<times> string option) res" where
  "bbdd_sock_split_addr_proto arg =
     (case cut_first (CHR '':'') arg of
        None \<Rightarrow> Inl (E_address_format arg)
      | Some (proto, rest) \<Rightarrow>
          (case bbdd_sock_af_from_str proto of
             Inl e \<Rightarrow> Inl e
           | Inr af \<Rightarrow>
               if af = AF_UNIX then Inr (af, proto, rest, None)
               else if af = AF_INET
               then (case bbdd_sock_split_addr_ipv4 True rest of (a, port) \<Rightarrow> Inr (af, proto, a, port))
               else (case bbdd_sock_split_addr_ipv6_port rest of
                       Inl e \<Rightarrow> Inl e | Inr (a, port) \<Rightarrow> Inr (af, proto, a, port))))"

text \<open>\<open>bbdd_sock_parse_addr\<close> for the Internet families; a UNIX address has no port and is
  not a \<open>bbdd_sockaddr\<close> of the model.\<close>

definition bbdd_sock_parse_addr ::
  "bool \<Rightarrow> inet \<Rightarrow> string \<Rightarrow> bbdd_sockaddr \<Rightarrow> u16 \<Rightarrow> (sock_err, bbdd_sockaddr) res"
where
  "bbdd_sock_parse_addr einval I addr bsa default_port =
     (case bbdd_sock_strdupa addr of
        Inl e \<Rightarrow> Inl e
      | Inr copy \<Rightarrow>
          (case bbdd_sock_split_addr_proto copy of
             Inl e \<Rightarrow> Inl e
           | Inr (af, proto, a, port) \<Rightarrow>
               (case bbdd_sock_parse_addrstr I af a bsa of
                  Inl e \<Rightarrow> Inl e
                | Inr bsa \<Rightarrow>
                    (case port of
                       None \<Rightarrow> Inr (bsa\<lparr>sa_port := hton16 default_port\<rparr>)
                     | Some p \<Rightarrow>
                         (case bbdd_sock_parse_port einval p of
                            Inl e \<Rightarrow> Inl e
                          | Inr n \<Rightarrow> Inr (bsa\<lparr>sa_port := hton16 n\<rparr>))))))"

subsection \<open>Printing and parsing\<close>

definition digit :: "nat \<Rightarrow> char" where
  "digit n = char_of (48 + n)"

fun dec :: "nat \<Rightarrow> string" where
  "dec n = (if n < 10 then [digit n] else dec (n div 10) @ [digit (n mod 10)])"

declare dec.simps [simp del]

lemma digit_val_digit: "n < 10 \<Longrightarrow> digit_val (digit n) = n"
  by (simp add: digit_val_def digit_def)

lemma scan_digits_dec:
  "scan_digits 10 acc (dec n @ r) = scan_digits 10 (acc * 10 ^ length (dec n) + n) r"
proof (induction n arbitrary: acc r rule: dec.induct)
  case (1 n)
  show ?case
  proof (cases "n < 10")
    case True
    then show ?thesis by (simp add: dec.simps digit_val_digit)
  next
    case False
    let ?k = "length (dec (n div 10))"
    have "scan_digits 10 acc (dec n @ r) = scan_digits 10 acc (dec (n div 10) @ digit (n mod 10) # r)"
      using False by (subst dec.simps) simp
    also have "\<dots> = scan_digits 10 (acc * 10 ^ ?k + n div 10) (digit (n mod 10) # r)"
      using 1[OF False] by simp
    also have "\<dots> = scan_digits 10 ((acc * 10 ^ ?k + n div 10) * 10 + n mod 10) r"
      by (simp add: digit_val_digit)
    also have "(acc * 10 ^ ?k + n div 10) * 10 + n mod 10 = acc * 10 ^ Suc ?k + n"
      using div_mult_mod_eq[of n 10] by (simp add: algebra_simps)
    also have "Suc ?k = length (dec n)" using False by (subst (2) dec.simps) simp
    finally show ?thesis .
  qed
qed

lemma dec_first: "0 < n \<Longrightarrow> \<exists>k cs. 0 < k \<and> k < 10 \<and> dec n = digit k # cs"
proof (induction n rule: dec.induct)
  case (1 n)
  show ?case
  proof (cases "n < 10")
    case False
    then have "0 < n div 10" by simp
    then show ?thesis using 1(1)[OF False] False by (subst dec.simps) auto
  qed (use 1 in \<open>auto simp: dec.simps\<close>)
qed

lemma digit_char:
  assumes "0 < k" and "k < 10"
  shows "digit k \<noteq> CHR ''0''" "digit k \<noteq> CHR ''-''" "digit k \<noteq> CHR ''+''" "\<not> is_space (digit k)"
proof -
  have "k \<in> {1, 2, 3, 4, 5, 6, 7, 8, 9}" using assms by auto
  then show "digit k \<noteq> CHR ''0''" "digit k \<noteq> CHR ''-''" "digit k \<noteq> CHR ''+''" "\<not> is_space (digit k)"
    by (auto simp: digit_def char_of_def is_space_def)
qed

text \<open>The text after a number does not go on with a digit.\<close>

definition no_digit :: "string \<Rightarrow> bool" where
  "no_digit r \<longleftrightarrow> (case r of [] \<Rightarrow> True | c # _ \<Rightarrow> digit_val c \<ge> 10)"

lemma scan_digits_stop: "no_digit r \<Longrightarrow> scan_digits 10 n r = (n, r)"
  by (cases r) (auto simp: no_digit_def)

lemma scan_number_dec:
  assumes "0 < n" and "no_digit r"
  shows "scan_number (dec n @ r) = Some (False, n, r)"
proof -
  obtain k cs where k: "0 < k" "k < 10" "dec n = digit k # cs" using dec_first[OF assms(1)] by blast
  note c = digit_char[OF k(1,2)]
  have base: "scan_base0 (dec n @ r) = Some (n, r)"
  proof -
    have d: "digit_val (digit k) < 10" using k by (simp add: digit_val_digit)
    have "scan_base0 (digit k # xs) = Some (scan_digits 10 0 (digit k # xs))" for xs
      using c d by (cases xs rule: remdups_adj.cases) auto
    then have "scan_base0 (dec n @ r) = Some (scan_digits 10 0 (dec n @ r))" using k(3) by simp
    then show ?thesis using scan_digits_dec[of 0 n r] scan_digits_stop[OF assms(2)] by simp
  qed
  then show ?thesis using c k(3) by (simp add: scan_number_def Let_def)
qed

lemma strtoull_dec:
  "0 < n \<Longrightarrow> n < 2 ^ 64 \<Longrightarrow> no_digit r \<Longrightarrow> strtoull (dec n @ r) = (of_nat n, r)"
  by (simp add: strtoull_def scan_number_dec)

lemma parse_range_bounds:
  "bbdd_sock_parse_range einval str mn mx = Inr v \<Longrightarrow> mn \<le> v \<and> v \<le> mx"
  by (auto simp: bbdd_sock_parse_range_def Let_def split: if_splits prod.splits)

lemma parse_u32_value:
  assumes "bbdd_sock_parse_u32 einval str = Inr w"
  shows "bbdd_sock_parse_range einval str 0 4294967295 = Inr (uint w)"
proof -
  obtain v where v: "bbdd_sock_parse_range einval str 0 4294967295 = Inr v" "w = of_int v"
    using assms unfolding bbdd_sock_parse_u32_def by (cases "bbdd_sock_parse_range einval str 0 4294967295") auto
  then have "0 \<le> v" "v < 2 ^ 32" using parse_range_bounds[OF v(1)] by auto
  then show ?thesis using v by (simp add: unsigned_of_int take_bit_int_eq_self)
qed

lemma of_nat_le_word: "n < 2 ^ 64 \<Longrightarrow> unat (of_nat n :: u64) = n"
  by (simp add: unat_of_nat)

text \<open>The units of a time.\<close>

definition unit_us :: "string \<Rightarrow> nat option" where
  "unit_us u = (if u = [] \<or> u = ''us'' then Some 1 else if u = ''ms'' then Some 1000
                else if u = ''s'' then Some 1000000 else None)"

lemma unit_no_digit: "unit_us u = Some m \<Longrightarrow> no_digit u \<and> u \<noteq> dec n @ u \<and> 0 < m \<and> m \<le> 1000000"
proof -
  have "dec n \<noteq> []" by (subst dec.simps) simp
  then show "unit_us u = Some m \<Longrightarrow> no_digit u \<and> u \<noteq> dec n @ u \<and> 0 < m \<and> m \<le> 1000000"
    by (auto simp: unit_us_def no_digit_def digit_val_def split: if_splits)
qed

lemma parse_time_dec:
  assumes u: "unit_us u = Some m" and n: "0 < n" "n < 2 ^ 64"
  shows "bbdd_util_parse_time_us (dec n @ u) =
    (if n * m \<le> 4294967295 then Inr (of_nat (n * m)) else Inl E_out_of_bounds)"
proof -
  note d = unit_no_digit[OF u, of n]
  have s: "strtoull (dec n @ u) = (of_nat n, u)" using strtoull_dec n d by simp
  have un: "unat (of_nat n :: u64) = n" "unat (of_nat m :: u64) = m"
    using n d by (simp_all add: unat_of_nat)
  have unit: "(if u = ''us'' \<or> u = [] then Some (1 :: u64) else if u = ''ms'' then Some 1000
      else if u = ''s'' then Some 1000000 else None) = Some (of_nat m)"
    using u by (auto simp: unit_us_def split: if_splits)
  have big: "(4294967295 :: u64) div of_nat m < of_nat n \<longleftrightarrow> 4294967295 < n * m"
  proof -
    have "(4294967295 :: u64) div of_nat m < of_nat n \<longleftrightarrow> 4294967295 div m < n"
      using un by (simp add: word_less_nat_alt unat_div)
    also have "\<dots> \<longleftrightarrow> 4294967295 < n * m"
      using d by (simp add: div_less_iff_less_mult mult.commute)
    finally show ?thesis .
  qed
  have nz: "(of_nat n :: u64) \<noteq> 0" using n un by (metis unat_0 less_irrefl)
  have oob: "(of_nat n :: u64) > 4294967295 \<Longrightarrow> 4294967295 < n * m"
  proof -
    assume "(of_nat n :: u64) > 4294967295"
    then have "4294967295 < n" using un by (simp add: word_less_nat_alt)
    moreover have "n * 1 \<le> n * m" using d by (intro mult_le_mono2) simp
    ultimately show ?thesis by linarith
  qed
  have cast: "ucast (of_nat n * of_nat m :: u64) = (of_nat (n * m) :: u32)" if "n * m \<le> 4294967295"
    using that by (simp add: unsigned_of_nat take_bit_nat_eq_self flip: of_nat_mult)
  show ?thesis
    unfolding bbdd_util_parse_time_us_def s Let_def prod.case unit option.case
    using d nz oob big cast by auto
qed

lemma cut_first_app: "c \<notin> set a \<Longrightarrow> cut_first c (a @ c # b) = Some (a, b)"
  by (induction a) (auto simp: cut_first_def)

lemma cut_last_app: "c \<notin> set b \<Longrightarrow> cut_last c (a @ c # b) = Some (a, b)"
  using cut_first_app[of c "rev b" "rev a"] by (simp add: cut_last_def)

lemma split_ipv4:
  assumes "CHR '':'' \<notin> set a"
  shows "bbdd_sock_split_addr_proto (''ipv4:'' @ a @ CHR '':'' # p) = Inr (AF_INET, ''ipv4'', a, Some p)"
  using cut_first_app[of "CHR '':''" "''ipv4''" "a @ CHR '':'' # p"] cut_first_app[OF assms, of p]
  by (simp add: bbdd_sock_split_addr_proto_def bbdd_sock_af_from_str_def bbdd_sock_protos_def
      bbdd_sock_split_addr_ipv4_def)

lemma split_ipv6:
  assumes "CHR '']'' \<notin> set p"
  shows "bbdd_sock_split_addr_proto (''ipv6:['' @ a @ '']:'' @ p) = Inr (AF_INET6, ''ipv6'', a, Some p)"
  using cut_first_app[of "CHR '':''" "''ipv6''" "CHR ''['' # a @ '']:'' @ p"]
    cut_last_app[of "CHR '']''" "CHR '':'' # p" a] assms
  by (simp add: bbdd_sock_split_addr_proto_def bbdd_sock_af_from_str_def bbdd_sock_protos_def
      bbdd_sock_split_addr_ipv6_port_def)

text \<open>A time is read exactly: the decimal text of a positive number followed by a unit
  gives that many microseconds, and is refused exactly when the product does not fit
  into 32 bits; nothing wraps around.\<close>

theorem parse_time_exact:
  assumes "unit_us u = Some m" and "0 < n" and "n < 2 ^ 64"
  shows "bbdd_util_parse_time_us (dec n @ u) =
    (if n * m \<le> 4294967295 then Inr (of_nat (n * m)) else Inl E_out_of_bounds)"
  by (rule parse_time_dec[OF assms])

theorem parse_time_exact_witness:
  "bbdd_util_parse_time_us (dec 4295 @ ''s'') = Inl E_out_of_bounds"
  using parse_time_exact[of "''s''" 1000000 4295] by (simp add: unit_us_def)

text \<open>Addresses are cut where they were put together: the protocol, the address and the
  port of both Internet families come back from the joined text, for any address
  without a colon, and in brackets for any address at all.\<close>

theorem addr_split_roundtrip:
  assumes "CHR '':'' \<notin> set a4" and "CHR '']'' \<notin> set p"
  shows "bbdd_sock_split_addr_proto (''ipv4:'' @ a4 @ CHR '':'' # p) = Inr (AF_INET, ''ipv4'', a4, Some p)
    \<and> bbdd_sock_split_addr_proto (''ipv6:['' @ a6 @ '']:'' @ p) = Inr (AF_INET6, ''ipv6'', a6, Some p)"
  using split_ipv4[OF assms(1)] split_ipv6[OF assms(2)] by blast

theorem addr_split_roundtrip_witness:
  "bbdd_sock_split_addr_proto (''ipv6:['' @ ''fe80::1'' @ '']:'' @ ''3784'') =
     Inr (AF_INET6, ''ipv6'', ''fe80::1'', Some ''3784'')"
  using addr_split_roundtrip[of "''10.0.0.1''" "''3784''" "''fe80::1''"] by simp

text \<open>Where the C library does not report the absence of a number, an empty string is
  taken for the number zero.\<close>

theorem empty_number_is_zero:
  "bbdd_sock_parse_u32 False [] = Inr 0 \<and> bbdd_sock_parse_u8 False [] = Inr 0
   \<and> bbdd_sock_parse_u32 True [] = Inl (E_invalid_number [])"
  by (simp add: bbdd_sock_parse_u32_def bbdd_sock_parse_u8_def bbdd_sock_parse_range_def strtoll_def
      scan_number_def)

end
