(* ===== verification/Bfd_Codec.thy ===== *)
theory Bfd_Codec
  imports Bfd_Types
begin

text \<open>
  Building and dissecting packets: \<open>bbdd_bpf_make_packet\<close>,
  \<open>bbdd_bpf_parse_packet\<close>, the Internet checksum and the IPv4/UDP and IPv6/UDP
  encapsulation of \<open>bbdd_bpf_session_inject_pkt\<close> (all in \<open>bbdd-bpf.c\<close>), with the
  byte layout of the structures that the source copies to the wire.
  The theory shows that a parsed packet is rebuilt bit by bit from what was
  learned from it, that layout and load are inverse, and that the header with
  its checksum filled in verifies.
\<close>

subsection \<open>Memory layout\<close>

definition bytes16 :: "u16 \<Rightarrow> u8 list" where
  "bytes16 x = [ucast x, ucast (drop_bit 8 x)]"

definition bytes32 :: "u32 \<Rightarrow> u8 list" where
  "bytes32 x = [ucast x, ucast (drop_bit 8 x), ucast (drop_bit 16 x), ucast (drop_bit 24 x)]"

fun load16 :: "u8 list \<Rightarrow> u16" where
  "load16 (a # b # _) = ucast a OR push_bit 8 (ucast b)"
| "load16 _ = 0"

fun load32 :: "u8 list \<Rightarrow> u32" where
  "load32 (a # b # c # d # _) =
     ucast a OR push_bit 8 (ucast b) OR push_bit 16 (ucast c) OR push_bit 24 (ucast d)"
| "load32 _ = 0"

definition bytes_in6 :: "in6_addr \<Rightarrow> u8 list" where
  "bytes_in6 a = (case a of (w, x, y, z) \<Rightarrow> bytes32 w @ bytes32 x @ bytes32 y @ bytes32 z)"

definition bfd_bytes :: "bbdd_bfd_pkt \<Rightarrow> u8 list" where
  "bfd_bytes p =
     [version_diag p, state_bits p, detection_multiplier p, pkt_length p]
     @ bytes32 (my_disc p) @ bytes32 (your_disc p) @ bytes32 (desired_tx p)
     @ bytes32 (required_rx p) @ bytes32 (required_echo_rx p)"

definition bfd_of_bytes :: "u8 list \<Rightarrow> bbdd_bfd_pkt" where
  "bfd_of_bytes bs =
     \<lparr>version_diag = bs ! 0, state_bits = bs ! 1, detection_multiplier = bs ! 2,
      pkt_length = bs ! 3, my_disc = load32 (drop 4 bs), your_disc = load32 (drop 8 bs),
      desired_tx = load32 (drop 12 bs), required_rx = load32 (drop 16 bs),
      required_echo_rx = load32 (drop 20 bs)\<rparr>"

subsection \<open>Building and parsing control packets\<close>

definition bbdd_bpf_make_packet ::
  "u32 \<Rightarrow> bbdd_d_session_data_timing \<Rightarrow> bbdd_d_session_state_end \<Rightarrow> u32 \<Rightarrow> u8 \<Rightarrow> bbdd_bfd_pkt"
where
  "bbdd_bpf_make_packet my tm st your fl =
     \<lparr>version_diag = push_bit 5 1 OR diag st,
      state_bits = push_bit 6 (state_code (state st)) OR fl,
      detection_multiplier = detect_mult tm,
      pkt_length = 24,
      my_disc = hton32 my,
      your_disc = hton32 your,
      desired_tx = hton32 (min_tx_us tm),
      required_rx = hton32 (min_rx_us tm),
      required_echo_rx = 0\<rparr>"

definition bbdd_bpf_parse_packet ::
  "session_diag_stats \<Rightarrow> bbdd_bfd_pkt \<Rightarrow> bbdd_d_session_data \<Rightarrow>
   session_diag_stats \<times> (unit, bbdd_d_session_data \<times> bool \<times> bool) res"
where
  "bbdd_bpf_parse_packet ds p rd =
     (let bits = bbdd_bfd_pkt_bits p;
          remote_discr = ntoh32 (my_disc p);
          local_discr = ntoh32 (your_disc p);
          st = state_of_code (bbdd_bfd_pkt_state p)
      in if ntoh32 (required_echo_rx p) \<noteq> 0 \<or> bits AND (BIT_AUTH OR BIT_DEMAND) \<noteq> 0
         then (bump Rx_unsupported ds, Inl ())
         else if bits AND BIT_MULTI \<noteq> 0
         then (bump Rx_multipoint_not_0 ds, Inl ())
         else if detection_multiplier p = 0
         then (bump Rx_detection_multiplier_0 ds, Inl ())
         else if remote_discr = 0
         then (bump Rx_my_discr_0 ds, Inl ())
         else if local_discr = 0 \<and> st \<noteq> ADMINDOWN \<and> st \<noteq> DOWN
         then (bump Rx_your_discr_0_not_down ds, Inl ())
         else
           (ds, Inr
             (rd\<lparr>discr := (if remote_discr \<noteq> 0 \<and> discr rd \<noteq> remote_discr
                          then remote_discr else discr rd),
                 timing := \<lparr>detect_mult = detection_multiplier p,
                            min_tx_us = ntoh32 (desired_tx p),
                            min_rx_us = ntoh32 (required_rx p)\<rparr>,
                 sstate := \<lparr>state = st, diag = bbdd_bfd_pkt_diag p\<rparr>,
                 sflags := (sflags rd)\<lparr>cpi := (bits AND BIT_CPI \<noteq> 0)\<rparr>\<rparr>,
              bits AND BIT_POLL \<noteq> 0,
              bits AND BIT_FINAL \<noteq> 0)))"

subsection \<open>The Internet checksum\<close>

fun bbdd_bpf_cksum_acc :: "u32 \<Rightarrow> u8 list \<Rightarrow> u32" where
  "bbdd_bpf_cksum_acc s (a # b # buf) = bbdd_bpf_cksum_acc (s + ucast (load16 [a, b])) buf"
| "bbdd_bpf_cksum_acc s [a] = s + ucast a"
| "bbdd_bpf_cksum_acc s [] = s"

lemma fold_step_unat:
  fixes s :: u32
  shows "unat ((s AND 0xffff) + drop_bit 16 s) = unat s mod 65536 + unat s div 65536"
proof -
  have a: "unat (s AND 0xffff) = unat s mod 65536"
  proof -
    have "s AND 0xffff = take_bit 16 s" by (simp add: take_bit_eq_mask mask_eq_exp_minus_1)
    then show ?thesis by (simp only: unat_take_bit_word) (simp add: take_bit_eq_mod)
  qed
  have b: "unat (drop_bit 16 s) = unat s div 65536"
    by (simp only: unat_drop_bit_eq) (simp add: drop_bit_eq_div)
  have "unat s < 2 ^ 32" using unsigned_less[of s] by simp
  then have "unat s mod 65536 + unat s div 65536 < 2 ^ 32" by simp
  then show ?thesis
    by (subst unat_add_no_wrap) (simp_all add: a b)
qed

lemma high_part_pos:
  fixes s :: u32
  shows "drop_bit 16 s \<noteq> 0 \<longleftrightarrow> 65536 \<le> unat s"
proof -
  have "unat (drop_bit 16 s) = unat s div 65536"
    by (simp only: unat_drop_bit_eq) (simp add: drop_bit_eq_div)
  then show ?thesis by (auto simp: word_unat_eq_iff div_eq_0_iff)
qed

lemma fold_step_less: "65536 \<le> n \<Longrightarrow> n mod 65536 + n div 65536 < (n :: nat)"
  using div_mult_mod_eq[of n 65536] by (cases "n div 65536") auto

function bbdd_bpf_cksum_fold :: "u32 \<Rightarrow> u16" where
  "bbdd_bpf_cksum_fold s =
     (if drop_bit 16 s \<noteq> 0 then bbdd_bpf_cksum_fold ((s AND 0xffff) + drop_bit 16 s)
      else NOT (ucast s))"
  by pat_completeness auto
termination
  by (relation "measure unat") (auto simp: fold_step_unat high_part_pos fold_step_less)

declare bbdd_bpf_cksum_fold.simps [simp del]

definition bbdd_bpf_inet_cksum :: "u8 list \<Rightarrow> u16" where
  "bbdd_bpf_inet_cksum buf = bbdd_bpf_cksum_fold (bbdd_bpf_cksum_acc 0 buf)"

text \<open>The pseudo header is the two addresses, the length in network order, three
  zero bytes and the protocol number 17.\<close>

definition bbdd_bpf_udp6_cksum :: "in6_addr \<Rightarrow> in6_addr \<Rightarrow> u8 list \<Rightarrow> u16 \<Rightarrow> u16" where
  "bbdd_bpf_udp6_cksum saddr daddr udp udp_len =
     (let pseudo = bytes_in6 saddr @ bytes_in6 daddr @ bytes32 (hton32 (ucast udp_len))
                   @ [0, 0, 0, 17];
          s = bbdd_bpf_cksum_acc 0 pseudo;
          s = bbdd_bpf_cksum_acc s (take (unat udp_len) udp)
      in bbdd_bpf_cksum_fold s)"

subsection \<open>Encapsulation\<close>

text \<open>The structures \<open>iphdr\<close>, \<open>ip6_hdr\<close> and \<open>udphdr\<close> in memory, with the fields
  the source leaves zero written out.\<close>

definition iphdr_bytes :: "be16 \<Rightarrow> u8 \<Rightarrow> u16 \<Rightarrow> be32 \<Rightarrow> be32 \<Rightarrow> u8 list" where
  "iphdr_bytes tot_len ttl check saddr daddr =
     ([0x45, 0] @ bytes16 tot_len @ [0, 0, 0, 0, ttl, 17]) @ bytes16 check
     @ (bytes32 saddr @ bytes32 daddr)"

definition ip6hdr_bytes :: "be16 \<Rightarrow> u8 \<Rightarrow> in6_addr \<Rightarrow> in6_addr \<Rightarrow> u8 list" where
  "ip6hdr_bytes plen hlim saddr daddr =
     [0x60, 0, 0, 0] @ bytes16 plen @ [17, hlim] @ bytes_in6 saddr @ bytes_in6 daddr"

definition udphdr_bytes :: "be16 \<Rightarrow> be16 \<Rightarrow> be16 \<Rightarrow> u16 \<Rightarrow> u8 list" where
  "udphdr_bytes sport dport len check = bytes16 sport @ bytes16 dport @ bytes16 len @ bytes16 check"

definition inject_frame_ipv4 :: "bbdd_d_session \<Rightarrow> bbdd_bfd_pkt \<Rightarrow> u8 list" where
  "inject_frame_ipv4 dsess bfd =
     (let udp_len = 32;
          udp = udphdr_bytes (sa_port (src dsess)) (sa_port (dst dsess)) (hton16 udp_len) 0;
          ip = iphdr_bytes (hton16 52) 255 0 (sin_addr (src dsess)) (sin_addr (dst dsess));
          ip = iphdr_bytes (hton16 52) 255 (bbdd_bpf_inet_cksum ip)
                 (sin_addr (src dsess)) (sin_addr (dst dsess))
      in ip @ udp @ bfd_bytes bfd)"

definition inject_frame_ipv6 :: "bbdd_d_session \<Rightarrow> bbdd_bfd_pkt \<Rightarrow> u8 list" where
  "inject_frame_ipv6 dsess bfd =
     (let udp_len = 32;
          udp = udphdr_bytes (sa_port (src dsess)) (sa_port (dst dsess)) (hton16 udp_len);
          ip6 = ip6hdr_bytes (hton16 udp_len) 255 (sin6_addr (src dsess)) (sin6_addr (dst dsess));
          check = bbdd_bpf_udp6_cksum (sin6_addr (src dsess)) (sin6_addr (dst dsess))
                    (udp 0 @ bfd_bytes bfd) udp_len
      in ip6 @ udp check @ bfd_bytes bfd)"

subsection \<open>Reference notions\<close>

text \<open>The flag bits a packet carries for three conditions, and the sum of the
  16-bit words of a buffer over the natural numbers.\<close>

definition pkt_flags :: "bool \<Rightarrow> bool \<Rightarrow> bool \<Rightarrow> u8" where
  "pkt_flags c p f = (if c then BIT_CPI else 0) OR (if p then BIT_POLL else 0)
                     OR (if f then BIT_FINAL else 0)"

fun bsum :: "u8 list \<Rightarrow> nat" where
  "bsum (a # b # r) = unat (load16 [a, b]) + bsum r"
| "bsum [a] = unat a"
| "bsum [] = 0"

text \<open>A single-hop IPv4 session and a packet addressed to it, for the examples.\<close>

definition sample_session :: bbdd_d_session where
  "sample_session =
     \<lparr>src = \<lparr>sa_family = AF_INET, sa_port = hton16 49152, sin_addr = 0x0100000A,
            sin6_addr = (0, 0, 0, 0)\<rparr>,
      dst = \<lparr>sa_family = AF_INET, sa_port = hton16 BFD_SINGLE_HOP_PORT, sin_addr = 0x0200000A,
            sin6_addr = (0, 0, 0, 0)\<rparr>,
      sname = ''s'', hold_time_us = 0, sttl = 255, sifindex = 3, vrf_ifindex = 0,
      user_remote_discr = 0, vrf_table = 0,
      sess_local = \<lparr>sflags = \<lparr>multihop = False, cpi = False, passive_role = False, shutdown = False\<rparr>,
        discr = 9, timing = \<lparr>detect_mult = 3, min_tx_us = 100000, min_rx_us = 100000\<rparr>,
        sstate = \<lparr>state = DOWN, diag = 0\<rparr>\<rparr>,
      sess_remote = \<lparr>sflags = \<lparr>multihop = False, cpi = False, passive_role = False, shutdown = False\<rparr>,
        discr = 0, timing = \<lparr>detect_mult = 1, min_tx_us = 0, min_rx_us = 0\<rparr>,
        sstate = \<lparr>state = DOWN, diag = 0\<rparr>\<rparr>\<rparr>"

definition sample_pkt :: bbdd_bfd_pkt where
  "sample_pkt =
     \<lparr>version_diag = 0x20, state_bits = 0x40, detection_multiplier = 3, pkt_length = 24,
      my_disc = hton32 4, your_disc = hton32 9, desired_tx = hton32 100000,
      required_rx = hton32 100000, required_echo_rx = 0\<rparr>"

definition zero_cksum_session :: bbdd_d_session where
  "zero_cksum_session = sample_session
     \<lparr>src := \<lparr>sa_family = AF_INET6, sa_port = hton16 49981, sin_addr = 0,
             sin6_addr = (0x80fe, 0, 0, hton32 1)\<rparr>,
      dst := \<lparr>sa_family = AF_INET6, sa_port = hton16 BFD_SINGLE_HOP_PORT, sin_addr = 0,
             sin6_addr = (0x80fe, 0, 0, hton32 2)\<rparr>\<rparr>"

definition zero_cksum_pkt :: bbdd_bfd_pkt where
  "zero_cksum_pkt = bbdd_bpf_make_packet 9 (timing (sess_local sample_session))
     (sstate (sess_local sample_session)) 0 0"

subsection \<open>Layout lemmas\<close>

lemma load16_bytes16 [simp]: "load16 (bytes16 x @ r) = x"
  by (rule bit_word_eqI) (auto simp: bytes16_def bit_simps dest: bit_imp_le_length)

lemma load32_bytes32 [simp]: "load32 (bytes32 x @ r) = x"
proof (rule bit_word_eqI)
  fix n assume "n < LENGTH(32)"
  then consider "n < 8" | "8 \<le> n" "n < 16" | "16 \<le> n" "n < 24" | "24 \<le> n" "n < 32"
    by fastforce
  then show "bit (load32 (bytes32 x @ r)) n \<longleftrightarrow> bit x n"
    by cases (auto simp: bytes32_def bit_simps)
qed

lemma length_bytes [simp]: "length (bytes16 x) = 2" "length (bytes32 y) = 4" "length (bytes_in6 a) = 16"
  by (auto simp: bytes16_def bytes32_def bytes_in6_def split: prod.splits)

lemma load32_bytes32_0 [simp]: "load32 (bytes32 x) = x"
  using load32_bytes32[of x "[]"] by simp

lemma length_bfd_bytes [simp]: "length (bfd_bytes p) = 24"
  by (simp add: bfd_bytes_def)

lemma bfd_bytes_roundtrip [simp]: "bfd_of_bytes (bfd_bytes p @ r) = p"
  by (cases p) (simp add: bfd_bytes_def bfd_of_bytes_def)


lemma test_bit_iff:
  fixes x :: u8
  shows "x AND BIT_MULTI \<noteq> 0 \<longleftrightarrow> bit x 0" "x AND BIT_DEMAND \<noteq> 0 \<longleftrightarrow> bit x 1"
    "x AND BIT_AUTH \<noteq> 0 \<longleftrightarrow> bit x 2" "x AND BIT_CPI \<noteq> 0 \<longleftrightarrow> bit x 3"
    "x AND BIT_FINAL \<noteq> 0 \<longleftrightarrow> bit x 4" "x AND BIT_POLL \<noteq> 0 \<longleftrightarrow> bit x 5"
  using and_exp_eq_0_iff_not_bit[of x 0] and_exp_eq_0_iff_not_bit[of x 1]
    and_exp_eq_0_iff_not_bit[of x 2] and_exp_eq_0_iff_not_bit[of x 3]
    and_exp_eq_0_iff_not_bit[of x 4] and_exp_eq_0_iff_not_bit[of x 5]
  by (simp_all add: pkt_bit_defs)

lemma test_two_bits: "(x :: u8) AND (BIT_AUTH OR BIT_DEMAND) \<noteq> 0 \<longleftrightarrow> bit x 2 \<or> bit x 1"
proof -
  have "x AND (BIT_AUTH OR BIT_DEMAND) = (x AND BIT_AUTH) OR (x AND BIT_DEMAND)"
    by (rule bit_word_eqI) (auto simp: bit_simps)
  then show ?thesis using test_bit_iff(2,3)[of x] by (auto simp: or_eq_0_iff)
qed

lemma pkt_bit_pow:
  "BIT_MULTI = 2 ^ 0" "BIT_DEMAND = 2 ^ 1" "BIT_AUTH = 2 ^ 2"
  "BIT_CPI = 2 ^ 3" "BIT_FINAL = 2 ^ 4" "BIT_POLL = 2 ^ 5"
  by (simp_all add: pkt_bit_defs)

lemma bit_pkt_bits [simp]:
  "bit BIT_MULTI n \<longleftrightarrow> n = 0" "bit BIT_DEMAND n \<longleftrightarrow> n = 1" "bit BIT_AUTH n \<longleftrightarrow> n = 2"
  "bit BIT_CPI n \<longleftrightarrow> n = 3" "bit BIT_FINAL n \<longleftrightarrow> n = 4" "bit BIT_POLL n \<longleftrightarrow> n = 5"
  unfolding pkt_bit_pow bit_exp_iff by auto

lemma mask_low: "(x :: u8) AND 0x1f = take_bit 5 x" "x AND 0x3f = take_bit 6 x"
  by (simp_all add: take_bit_eq_mask mask_eq_exp_minus_1)

lemma bit_pkt_flags: "bit (pkt_flags c p f) n \<longleftrightarrow> c \<and> n = 3 \<or> p \<and> n = 5 \<or> f \<and> n = 4"
  by (auto simp: pkt_flags_def bit_simps)

lemma state_bits_split:
  assumes "\<not> bit (sb :: u8) 0" "\<not> bit sb 1" "\<not> bit sb 2"
  shows "push_bit 6 (drop_bit 6 sb) OR pkt_flags (bit sb 3) (bit sb 5) (bit sb 4) = sb"
proof (rule bit_word_eqI)
  fix n assume "n < LENGTH(8)"
  then consider "n = 0" | "n = 1" | "n = 2" | "n = 3" | "n = 4" | "n = 5" | "n = 6" | "n = 7"
    by fastforce
  then show "bit (push_bit 6 (drop_bit 6 sb) OR pkt_flags (bit sb 3) (bit sb 5) (bit sb 4)) n = bit sb n"
    using assms by cases (simp_all add: bit_simps bit_pkt_flags)
qed

lemma version_diag_split:
  assumes "drop_bit 5 (vd :: u8) = 1"
  shows "push_bit 5 1 OR (vd AND 0x1f) = vd"
proof -
  have "push_bit 5 (drop_bit 5 vd) OR take_bit 5 vd = vd"
    by (rule bit_word_eqI) (auto simp: bit_simps)
  with assms show ?thesis by (simp add: mask_low)
qed

lemma drop6_less: "drop_bit 6 (sb :: u8) < 4"
proof -
  have "unat (drop_bit 6 sb) = unat sb div 64"
    by (simp only: unat_drop_bit_eq) (simp add: drop_bit_eq_div)
  moreover have "unat sb < 256" using unsigned_less[of sb] by simp
  ultimately show ?thesis by (simp add: word_less_nat_alt)
qed

lemma parse_packet_accepts:
  assumes "bbdd_bpf_parse_packet ds p rd = (ds', Inr (rd', poll, fin))"
  shows "ds' = ds" "required_echo_rx p = 0" "\<not> bit (state_bits p) 0" "\<not> bit (state_bits p) 1"
    "\<not> bit (state_bits p) 2" "detection_multiplier p \<noteq> 0" "my_disc p \<noteq> 0"
    "poll = bit (state_bits p) 5" "fin = bit (state_bits p) 4"
    "discr rd' = ntoh32 (my_disc p)"
    "timing rd' = \<lparr>detect_mult = detection_multiplier p, min_tx_us = ntoh32 (desired_tx p),
                   min_rx_us = ntoh32 (required_rx p)\<rparr>"
    "sstate rd' = \<lparr>state = state_of_code (bbdd_bfd_pkt_state p), diag = bbdd_bfd_pkt_diag p\<rparr>"
    "cpi (sflags rd') = bit (state_bits p) 3"
  using assms
  by (auto simp: bbdd_bpf_parse_packet_def Let_def test_two_bits test_bit_iff bbdd_bfd_pkt_bits_def
      mask_low bit_simps split: if_splits)

lemma parse_packet_rebuilds:
  assumes "bbdd_bpf_parse_packet ds p rd = (ds', Inr (rd', poll, fin))"
    and "bbdd_bfd_pkt_version p = 1" and "pkt_length p = 24"
  shows "bbdd_bpf_make_packet (discr rd') (timing rd') (sstate rd') (ntoh32 (your_disc p))
           (pkt_flags (cpi (sflags rd')) poll fin) = p"
  using parse_packet_accepts[OF assms(1)] assms(2,3) state_bits_split[of "state_bits p"]
    version_diag_split[of "version_diag p"] drop6_less[of "state_bits p"]
  by (cases p) (simp add: bbdd_bpf_make_packet_def bbdd_bfd_pkt_version_def bbdd_bfd_pkt_state_def
      bbdd_bfd_pkt_diag_def state_code_of_code)

subsection \<open>Checksum\<close>

lemma bsum_append: "even (length xs) \<Longrightarrow> bsum (xs @ ys) = bsum xs + bsum ys"
  by (induction xs rule: bsum.induct) auto

lemma bsum_bound: "bsum xs \<le> 65535 * length xs"
proof (induction xs rule: bsum.induct)
  case (1 a b r)
  have "unat (load16 [a, b]) < 2 ^ 16" using unsigned_less[of "load16 [a, b]"] by simp
  with 1 show ?case by simp
next
  case (2 a)
  have "unat a < 2 ^ 8" using unsigned_less[of a] by simp
  then show ?case by simp
qed simp

lemma cksum_acc_bsum:
  "unat s + bsum xs < 2 ^ 32 \<Longrightarrow> unat (bbdd_bpf_cksum_acc s xs) = unat s + bsum xs"
proof (induction s xs rule: bbdd_bpf_cksum_acc.induct)
  case (1 s a b buf)
  have "unat (s + ucast (load16 [a, b])) = unat s + unat (load16 [a, b])"
    using 1 by (subst unat_add_no_wrap) (simp_all add: unat_ucast_up)
  with 1 show ?case by simp
next
  case (2 s a)
  then show ?case by (simp add: unat_add_no_wrap unat_ucast_up)
qed simp

lemma cksum_fold_spec:
  "(65535 - unat (bbdd_bpf_cksum_fold s)) mod 65535 = unat s mod 65535
   \<and> (65535 - unat (bbdd_bpf_cksum_fold s) = 0 \<longleftrightarrow> unat s = 0)"
proof (induction s rule: bbdd_bpf_cksum_fold.induct)
  case (1 s)
  let ?n = "unat s"
  show ?case
  proof (cases "drop_bit 16 s \<noteq> 0")
    case False
    then have lt: "?n < 65536" using high_part_pos[of s] by simp
    then have "unat (ucast s :: u16) = ?n" by (simp add: unat_ucast_mod)
    moreover have "bbdd_bpf_cksum_fold s = NOT (ucast s)"
      using False by (simp add: bbdd_bpf_cksum_fold.simps)
    ultimately show ?thesis using lt by (simp add: unat_not_word)
  next
    case True
    let ?s' = "(s AND 0xffff) + drop_bit 16 s"
    have ge: "65536 \<le> ?n" using True high_part_pos[of s] by simp
    have "?n = 65535 * (?n div 65536) + unat ?s'"
      using div_mult_mod_eq[of ?n 65536] by (simp add: fold_step_unat)
    then have "unat ?s' mod 65535 = ?n mod 65535"
      by (metis mod_mult_self4)
    moreover have "unat ?s' \<noteq> 0" using ge by (simp add: fold_step_unat div_greater_zero_iff)
    moreover have "bbdd_bpf_cksum_fold s = bbdd_bpf_cksum_fold ?s'"
      using True bbdd_bpf_cksum_fold.simps[of s] by simp
    ultimately show ?thesis using "1.IH"[OF True] ge by simp
  qed
qed

lemma inet_cksum_verifies:
  assumes "even (length pre)" and "length pre + length post \<le> 60000"
  shows "bbdd_bpf_inet_cksum (pre @ bytes16 (bbdd_bpf_inet_cksum (pre @ [0, 0] @ post)) @ post) = 0"
proof -
  let ?c = "bbdd_bpf_inet_cksum (pre @ [0, 0] @ post)"
  let ?S = "bsum pre + bsum post" and ?T = "bsum pre + unat ?c + bsum post"
  have b: "?S \<le> 65535 * 60000"
    using bsum_bound[of pre] bsum_bound[of post] assms(2) by linarith
  have z: "load16 [0, 0] = 0" by simp
  have S: "unat (bbdd_bpf_cksum_acc 0 (pre @ [0, 0] @ post)) = ?S"
    using b assms(1) by (subst cksum_acc_bsum) (simp_all add: bsum_append)
  have c16: "unat ?c \<le> 65535" using unat_u16_less[of ?c] by linarith
  have bc: "bsum (bytes16 ?c @ post) = unat ?c + bsum post"
    using load16_bytes16[of ?c "[]"] by (simp add: bytes16_def)
  have T: "unat (bbdd_bpf_cksum_acc 0 (pre @ bytes16 ?c @ post)) = ?T"
    using b c16 assms(1) bc by (subst cksum_acc_bsum) (simp_all add: bsum_append)
  let ?r = "65535 - unat ?c"
  have r: "?r mod 65535 = ?S mod 65535" "?r = 0 \<longleftrightarrow> ?S = 0"
    using cksum_fold_spec[of "bbdd_bpf_cksum_acc 0 (pre @ [0, 0] @ post)"]
    unfolding S bbdd_bpf_inet_cksum_def[symmetric] by auto
  have "?T mod 65535 = 0"
  proof -
    have "(?S + unat ?c) mod 65535 = (?r + unat ?c) mod 65535"
      using r(1) by (metis mod_add_left_eq)
    also have "\<dots> = 0" using c16 by simp
    finally show ?thesis by (simp add: ac_simps)
  qed
  moreover have "?T \<noteq> 0" using r(2) c16 by auto
  moreover let ?f = "bbdd_bpf_inet_cksum (pre @ bytes16 ?c @ post)"
  have "(65535 - unat ?f) mod 65535 = ?T mod 65535" "65535 - unat ?f = 0 \<longleftrightarrow> ?T = 0"
    using cksum_fold_spec[of "bbdd_bpf_cksum_acc 0 (pre @ bytes16 ?c @ post)"]
    unfolding T bbdd_bpf_inet_cksum_def[symmetric] by auto
  ultimately have "(65535 - unat ?f) mod 65535 = 0" "65535 - unat ?f \<noteq> 0" by auto
  then have "65535 \<le> 65535 - unat ?f" by (metis dvd_imp_le mod_eq_0_iff_dvd neq0_conv)
  then have "unat ?f = 0" by linarith
  then show ?thesis by (simp only: unat_eq_zero)
qed

lemma cksum_fold_zero: "bbdd_bpf_cksum_fold s = 0 \<longleftrightarrow> s \<noteq> 0 \<and> 65535 dvd unat s"
proof -
  have b: "unat (bbdd_bpf_cksum_fold s) \<le> 65535"
    using unat_u16_less[of "bbdd_bpf_cksum_fold s"] by linarith
  have sp: "(65535 - unat (bbdd_bpf_cksum_fold s)) mod 65535 = unat s mod 65535"
    "65535 - unat (bbdd_bpf_cksum_fold s) = 0 \<longleftrightarrow> unat s = 0"
    using cksum_fold_spec[of s] by auto
  have "unat (bbdd_bpf_cksum_fold s) = 0 \<longleftrightarrow> unat s \<noteq> 0 \<and> unat s mod 65535 = 0"
  proof
    assume "unat (bbdd_bpf_cksum_fold s) = 0"
    with sp show "unat s \<noteq> 0 \<and> unat s mod 65535 = 0" by simp
  next
    assume a: "unat s \<noteq> 0 \<and> unat s mod 65535 = 0"
    then have "(65535 - unat (bbdd_bpf_cksum_fold s)) mod 65535 = 0"
      "65535 - unat (bbdd_bpf_cksum_fold s) \<noteq> 0" using sp by auto
    then have "65535 \<le> 65535 - unat (bbdd_bpf_cksum_fold s)"
      by (metis dvd_imp_le mod_eq_0_iff_dvd neq0_conv)
    with b show "unat (bbdd_bpf_cksum_fold s) = 0" by linarith
  qed
  then show ?thesis by (simp add: unat_eq_zero dvd_eq_mod_eq_0)
qed

lemma state_bits_make:
  "drop_bit 6 (push_bit 6 (state_code s) OR pkt_flags c p f) = state_code s"
  by (cases s; cases c; cases p; cases f) (simp_all add: pkt_flags_def pkt_bit_defs)

lemma diag_make:
  assumes "dg < (32 :: u8)"
  shows "(push_bit 5 1 OR dg) AND 0x1f = dg"
proof -
  have "unat (take_bit 5 dg) = unat dg"
    using assms by (simp only: unat_take_bit_word) (simp add: word_less_nat_alt take_bit_nat_eq_self)
  then have "take_bit 5 dg = dg" by (simp only: word_unat_eq_iff)
  moreover have "take_bit 5 (push_bit 5 1 OR dg) = take_bit 5 dg"
    by (rule bit_word_eqI) (auto simp: bit_simps)
  ultimately show ?thesis by (simp only: mask_low)
qed

lemma flag_bits_make: "(push_bit 6 (x :: u8) OR pkt_flags c p f) AND 0x3f = pkt_flags c p f"
  unfolding mask_low by (rule bit_word_eqI) (auto simp: bit_simps bit_pkt_flags)

lemma make_packet_parts:
  assumes "diag st < 32"
  shows "bbdd_bfd_pkt_bits (bbdd_bpf_make_packet my tm st your (pkt_flags c p f)) = pkt_flags c p f"
    and "bbdd_bfd_pkt_state (bbdd_bpf_make_packet my tm st your (pkt_flags c p f))
      = state_code (state st)"
    and "bbdd_bfd_pkt_diag (bbdd_bpf_make_packet my tm st your (pkt_flags c p f)) = diag st"
  unfolding bbdd_bfd_pkt_bits_def bbdd_bfd_pkt_state_def bbdd_bfd_pkt_diag_def
    bbdd_bpf_make_packet_def
  using assms by (simp_all only: bbdd_bfd_pkt.select_convs flag_bits_make state_bits_make diag_make)

lemma parse_make_packet:
  assumes "diag st < 32" "detect_mult tm \<noteq> 0" "my \<noteq> 0"
    and "your = 0 \<Longrightarrow> state st = ADMINDOWN \<or> state st = DOWN"
  shows "\<exists>rd'. bbdd_bpf_parse_packet ds (bbdd_bpf_make_packet my tm st your (pkt_flags c p f)) rd
      = (ds, Inr (rd', p, f))
    \<and> discr rd' = my \<and> timing rd' = tm \<and> sstate rd' = st \<and> cpi (sflags rd') = c"
  using assms
  unfolding bbdd_bpf_parse_packet_def Let_def make_packet_parts[OF assms(1)]
  by (auto simp: bbdd_bpf_make_packet_def test_two_bits test_bit_iff bit_pkt_flags)

subsection \<open>Properties\<close>

text \<open>C16. A packet that a session builds is accepted by the parser of the other end,
  which learns from it the sender's discriminator, timing, state, diagnostic and
  flag bits, provided the sender has a discriminator and a detection multiplier,
  its diagnostic fits the field, and it names a receiver unless it is down.\<close>

theorem make_parse_roundtrip:
  assumes "diag st < 32" and "detect_mult tm \<noteq> 0" and "my \<noteq> 0"
    and "your = 0 \<longrightarrow> state st = ADMINDOWN \<or> state st = DOWN"
  shows "\<exists>rd'. bbdd_bpf_parse_packet ds (bbdd_bpf_make_packet my tm st your (pkt_flags c p f)) rd
      = (ds, Inr (rd', p, f))
    \<and> discr rd' = my \<and> timing rd' = tm \<and> sstate rd' = st \<and> cpi (sflags rd') = c"
  using parse_make_packet[OF assms(1-3)] assms(4) by blast

theorem make_parse_roundtrip_witness:
  "\<exists>rd'. bbdd_bpf_parse_packet (\<lambda>_. 0)
       (bbdd_bpf_make_packet 9 (timing (sess_local sample_session)) \<lparr>state = UP, diag = 3\<rparr> 4
          (pkt_flags True True False)) (sess_remote sample_session)
     = ((\<lambda>_. 0), Inr (rd', True, False)) \<and> discr rd' = 9 \<and> state (sstate rd') = UP"
  using make_parse_roundtrip[of "\<lparr>state = UP, diag = 3\<rparr>" "timing (sess_local sample_session)" 9 4
      "\<lambda>_. 0" True True False "sess_remote sample_session"]
  by (auto simp: sample_session_def)

text \<open>The header of every IPv4 frame the daemon injects carries a valid checksum:
  the one's complement sum over the twenty bytes verifies.\<close>

theorem ipv4_header_verifies:
  "bbdd_bpf_inet_cksum (take 20 (inject_frame_ipv4 dsess bfd)) = 0"
proof -
  let ?pre = "[0x45, 0] @ bytes16 (hton16 52) @ [0, 0, 0, 0, 255, 17]"
  let ?post = "bytes32 (sin_addr (src dsess)) @ bytes32 (sin_addr (dst dsess))"
  have "take 20 (inject_frame_ipv4 dsess bfd) =
      ?pre @ bytes16 (bbdd_bpf_inet_cksum (?pre @ [0, 0] @ ?post)) @ ?post"
    by (simp add: inject_frame_ipv4_def iphdr_bytes_def Let_def bytes16_def)
  then show ?thesis using inet_cksum_verifies[of ?pre ?post] by simp
qed

text \<open>The UDP checksum of an IPv6 frame can come out as zero, which RFC 8200
  reserves: for the session \<open>zero_cksum_session\<close> (fe80::1 port 49981 to fe80::2)
  the frame carries the checksum bytes 0, 0 and receivers discard it.\<close>

theorem udp6_cksum_zero_frame:
  "take 2 (drop 46 (inject_frame_ipv6 zero_cksum_session zero_cksum_pkt)) = [0, 0]"
proof -
  let ?s = zero_cksum_session
  have "bbdd_bpf_udp6_cksum (sin6_addr (src ?s)) (sin6_addr (dst ?s))
      (udphdr_bytes (sa_port (src ?s)) (sa_port (dst ?s)) (hton16 32) 0 @ bfd_bytes zero_cksum_pkt) 32
      = 0"
    by (simp add: bbdd_bpf_udp6_cksum_def cksum_fold_zero zero_cksum_session_def
        zero_cksum_pkt_def sample_session_def bbdd_bpf_make_packet_def udphdr_bytes_def bfd_bytes_def bytes16_def bytes32_def bytes_in6_def
        hton16_def hton32_def BFD_SINGLE_HOP_PORT_def)
  then show ?thesis
    by (simp add: inject_frame_ipv6_def Let_def ip6hdr_bytes_def udphdr_bytes_def bytes16_def
        bytes_in6_def bytes32_def zero_cksum_session_def)
qed

end
