(* ===== verification/Csess.thy ===== *)
theory Csess
  imports Jrpc Sock_Addr Sess_Dir Bfd_Codec
begin

text \<open>
  Sessions as requests describe them (\<open>struct bbdd_c_session\<close>): how the daemon reads one
  from JSON and checks it (\<open>bbdd-d.c\<close>), how it presents a session in that form, how it
  applies one to a session and how it selects sessions by one.  A field with its
  \<open>_seen\<close> mark is an option.  An outer \<open>None\<close> is a failed assertion.  The interfaces of
  the host and the tables of its VRFs are the parameter \<open>netenv\<close>.
\<close>

subsection \<open>Data\<close>

record bbdd_sess_flags =
  f_multihop :: "bool option"
  f_cpi :: "bool option"
  f_passive :: "bool option"
  f_shutdown :: "bool option"

record bbdd_c_session_str =
  s_unset :: bool
  s_val :: "string option"

record bbdd_c_session_netif =
  n_unset :: bool
  n_name :: "string option"
  n_ifindex :: "u32 option"

record bbdd_c_session_vrf =
  v_netif :: bbdd_c_session_netif
  v_table :: "u32 option"

record bbdd_c_session_addr =
  a_unset :: bool
  a_str :: string
  a_af :: nat

record bbdd_c_session =
  c_flags :: bbdd_sess_flags
  c_discr :: "u32 option"
  c_remote_discr :: "u32 option"
  c_min_tx_us :: "u32 option"
  c_min_rx_us :: "u32 option"
  c_hold_time_us :: "u32 option"
  c_ttl :: "u8 option"
  c_detect_mult :: "u8 option"
  c_src :: bbdd_c_session_addr
  c_dst :: bbdd_c_session_addr
  c_netif :: bbdd_c_session_netif
  c_vrf :: bbdd_c_session_vrf
  c_name :: bbdd_c_session_str

definition zero_c_netif :: bbdd_c_session_netif where
  "zero_c_netif = \<lparr>n_unset = False, n_name = None, n_ifindex = None\<rparr>"

definition zero_c_addr :: bbdd_c_session_addr where
  "zero_c_addr = \<lparr>a_unset = False, a_str = '''', a_af = 0\<rparr>"

definition zero_c_session :: bbdd_c_session where
  "zero_c_session =
     \<lparr>c_flags = \<lparr>f_multihop = None, f_cpi = None, f_passive = None, f_shutdown = None\<rparr>,
      c_discr = None, c_remote_discr = None, c_min_tx_us = None, c_min_rx_us = None, c_hold_time_us = None,
      c_ttl = None, c_detect_mult = None, c_src = zero_c_addr, c_dst = zero_c_addr,
      c_netif = zero_c_netif, c_vrf = \<lparr>v_netif = zero_c_netif, v_table = None\<rparr>,
      c_name = \<lparr>s_unset = False, s_val = None\<rparr>\<rparr>"

definition IFNAMSIZ :: nat where "IFNAMSIZ = 16"
definition INET6_ADDRSTRLEN :: nat where "INET6_ADDRSTRLEN = 46"

datatype d_err =
    D_jrpc jrpc_err
  | D_sock sock_err
  | D_family string
  | D_no_ifindex u32
  | D_no_ifname string
  | D_ifindex_unset u32
  | D_if_mismatch u32 string
  | D_netlink
  | D_vrf_table u32 u32
  | D_not_allowed string
  | D_no_bulk
  | D_discr_change
  | D_no_dst
  | D_af_mismatch nat nat
  | D_zero string
  | D_realloc

record netenv =
  if_indextoname :: "u32 \<Rightarrow> string option"
  if_nametoindex :: "string \<Rightarrow> u32"
  bbdd_nl_get_vrf_table :: "u32 \<Rightarrow> u32 option"

text \<open>Results of functions that may also fail an assertion, and their sequencing.\<close>

type_synonym 'a dres = "(d_err, 'a) res option"

definition dbind :: "'a dres \<Rightarrow> ('a \<Rightarrow> 'b dres) \<Rightarrow> 'b dres" where
  "dbind m f = (case m of None \<Rightarrow> None | Some (Inl e) \<Rightarrow> Some (Inl e) | Some (Inr a) \<Rightarrow> f a)"

lemma dbind_simps [simp]:
  "dbind None f = None" "dbind (Some (Inl e)) f = Some (Inl e)" "dbind (Some (Inr a)) f = f a"
  by (simp_all add: dbind_def)

lemma dbind_Inr: "dbind m f = Some (Inr b) \<longleftrightarrow> (\<exists>a. m = Some (Inr a) \<and> f a = Some (Inr b))"
  by (auto simp: dbind_def split: option.split sum.split)

lemma dbind_total:
  "\<exists>r. m = Some r \<Longrightarrow> (\<And>a. m = Some (Inr a) \<Longrightarrow> \<exists>r. f a = Some r) \<Longrightarrow> \<exists>r. dbind m f = Some r"
  by (auto simp: dbind_def split: option.split sum.split)

definition of_jrpc :: "(jrpc_err, 'a) res \<Rightarrow> 'a dres" where
  "of_jrpc r = Some (map_sum D_jrpc id r)"

lemma of_jrpc_simps [simp]: "of_jrpc (Inr a) = Some (Inr a)" "of_jrpc (Inl e) = Some (Inl (D_jrpc e))"
  by (simp_all add: of_jrpc_def)

subsection \<open>Interfaces and VRFs\<close>

definition bbdd_d_session_validate_netif :: "netenv \<Rightarrow> bbdd_c_session_netif \<Rightarrow> bbdd_c_session_netif dres" where
  "bbdd_d_session_validate_netif N netif =
     (if n_ifindex netif = None \<and> n_name netif = None then Some (Inr netif)
      else
        dbind (case n_ifindex netif of
                 None \<Rightarrow> Some (Inr '''')
               | Some i \<Rightarrow> (case if_indextoname N i of
                              None \<Rightarrow> Some (Inl (D_no_ifindex i))
                            | Some ifname \<Rightarrow> Some (Inr ifname)))
        (\<lambda>ifname. dbind (case n_name netif of
                 None \<Rightarrow> Some (Inr 0)
               | Some name \<Rightarrow>
                   if name = '''' then Some (Inr 0)
                   else if if_nametoindex N name = 0 then Some (Inl (D_no_ifname name))
                   else Some (Inr (if_nametoindex N name)))
        (\<lambda>ifindex.
           case (n_ifindex netif, n_name netif) of
             (Some i, Some name) \<Rightarrow>
               if name = '''' then Some (Inl (D_ifindex_unset i))
               else if i \<noteq> ifindex \<or> ifname \<noteq> name then Some (Inl (D_if_mismatch i name))
               else Some (Inr netif)
           | (Some i, None) \<Rightarrow> if ifname = '''' then None else Some (Inr (netif\<lparr>n_name := Some ifname\<rparr>))
           | (None, Some name) \<Rightarrow> Some (Inr (netif\<lparr>n_ifindex := Some ifindex\<rparr>))
           | (None, None) \<Rightarrow> Some (Inr netif))))"

definition bbdd_d_session_validate_vrf :: "netenv \<Rightarrow> bbdd_c_session_vrf \<Rightarrow> bbdd_c_session_vrf dres" where
  "bbdd_d_session_validate_vrf N vrf =
     dbind (bbdd_d_session_validate_netif N (v_netif vrf))
     (\<lambda>netif.
        case n_ifindex netif of
          None \<Rightarrow> Some (Inr (vrf\<lparr>v_netif := netif\<rparr>))
        | Some i \<Rightarrow>
            (case bbdd_nl_get_vrf_table N i of
               None \<Rightarrow> Some (Inl D_netlink)
             | Some table \<Rightarrow>
                 (case v_table vrf of
                    None \<Rightarrow> Some (Inr (vrf\<lparr>v_netif := netif, v_table := Some table\<rparr>))
                  | Some t \<Rightarrow> if t \<noteq> table then Some (Inl (D_vrf_table t table))
                              else Some (Inr (vrf\<lparr>v_netif := netif\<rparr>)))))"

subsection \<open>Reading a session from JSON\<close>

definition bbdd_d_jrpc_dissect_str :: "'j json_c \<Rightarrow> 'j \<Rightarrow> bbdd_c_session_str dres" where
  "bbdd_d_jrpc_dissect_str J obj =
     (if obj = json_null J then Some (Inr \<lparr>s_unset = True, s_val = None\<rparr>)
      else dbind (of_jrpc (bbdd_jrpc_strcpy J obj IFNAMSIZ)) (\<lambda>s. Some (Inr \<lparr>s_unset = False, s_val = Some s\<rparr>)))"

definition bbdd_d_jrpc_dissect_netif_name :: "'j json_c \<Rightarrow> 'j \<Rightarrow> bbdd_c_session_netif dres" where
  "bbdd_d_jrpc_dissect_netif_name J name =
     dbind (bbdd_d_jrpc_dissect_str J name)
       (\<lambda>str. Some (Inr \<lparr>n_unset = s_unset str, n_name = s_val str, n_ifindex = None\<rparr>))"

definition addr_policy :: "bbdd_jrpc_policy list" where
  "addr_policy = [(policy ''addr'' json_type_string)\<lparr>required := True\<rparr>,
                  (policy ''family'' json_type_string)\<lparr>required := True\<rparr>]"

definition bbdd_d_jrpc_dissect_addr_obj :: "'j json_c \<Rightarrow> 'j \<Rightarrow> bbdd_c_session_addr dres" where
  "bbdd_d_jrpc_dissect_addr_obj J obj =
     dbind (of_jrpc (bbdd_jrpc_dissect J obj addr_policy))
     (\<lambda>values.
        if value_of J values 0 = json_null J \<or> value_of J values 1 = json_null J then None
        else
          let family_str = get_string J (value_of J values 1) in
          dbind (if family_str = ''ipv4'' then Some (Inr AF_INET)
                 else if family_str = ''ipv6'' then Some (Inr AF_INET6)
                 else Some (Inl (D_family family_str)))
          (\<lambda>af. dbind (of_jrpc (bbdd_jrpc_strcpy J (value_of J values 0) INET6_ADDRSTRLEN))
          (\<lambda>str. Some (Inr \<lparr>a_unset = False, a_str = str, a_af = af\<rparr>))))"

definition bbdd_d_jrpc_dissect_addr :: "'j json_c \<Rightarrow> 'j \<Rightarrow> bbdd_c_session_addr dres" where
  "bbdd_d_jrpc_dissect_addr J v =
     (if v = json_null J then Some (Inr (zero_c_addr\<lparr>a_unset := True\<rparr>)) else bbdd_d_jrpc_dissect_addr_obj J v)"

definition session_policy :: "bbdd_jrpc_policy list" where
  "session_policy =
     [policy ''multihop'' json_type_boolean, policy ''cpi'' json_type_boolean,
      policy ''passive'' json_type_boolean, policy ''shutdown'' json_type_boolean,
      policy ''discr'' json_type_int, policy ''remote_discr'' json_type_int,
      (policy ''name'' json_type_string)\<lparr>nullable := True\<rparr>,
      (policy ''src'' json_type_object)\<lparr>nullable := True\<rparr>, policy ''dst'' json_type_object,
      policy ''min_tx_us'' json_type_int, policy ''min_rx_us'' json_type_int,
      policy ''hold_time_us'' json_type_int, policy ''ttl'' json_type_int, policy ''detect_mult'' json_type_int,
      (policy ''netif_name'' json_type_string)\<lparr>nullable := True\<rparr>, policy ''netif_index'' json_type_int,
      (policy ''vrf_name'' json_type_string)\<lparr>nullable := True\<rparr>, policy ''vrf_index'' json_type_int,
      policy ''vrf_table'' json_type_int]"

text \<open>A field is read when its member was seen.\<close>

definition when_seen :: "'j option \<Rightarrow> ('j \<Rightarrow> 'a dres) \<Rightarrow> 'a \<Rightarrow> 'a dres" where
  "when_seen v f unseen = (case v of None \<Rightarrow> Some (Inr unseen) | Some x \<Rightarrow> f x)"

definition dissect_num :: "'j option \<Rightarrow> ('j \<Rightarrow> (jrpc_err, 'a) res) \<Rightarrow> 'a option dres" where
  "dissect_num v f = when_seen v (\<lambda>x. dbind (of_jrpc (f x)) (\<lambda>n. Some (Inr (Some n)))) None"

definition bbdd_d_jrpc_dissect_session_one :: "'j json_c \<Rightarrow> 'j \<Rightarrow> bbdd_c_session dres" where
  "bbdd_d_jrpc_dissect_session_one J obj =
     dbind (of_jrpc (bbdd_jrpc_dissect J obj session_policy))
     (\<lambda>vs.
        let flag = (\<lambda>i. map_option (get_boolean J) (vs ! i)) in
        dbind (when_seen (vs ! 6) (bbdd_d_jrpc_dissect_str J) \<lparr>s_unset = False, s_val = None\<rparr>)
        (\<lambda>name. dbind (when_seen (vs ! 7) (bbdd_d_jrpc_dissect_addr J) zero_c_addr)
        (\<lambda>csrc. dbind (when_seen (vs ! 8) (bbdd_d_jrpc_dissect_addr J) zero_c_addr)
        (\<lambda>cdst. dbind (when_seen (vs ! 14) (bbdd_d_jrpc_dissect_netif_name J) zero_c_netif)
        (\<lambda>netif. dbind (when_seen (vs ! 16) (bbdd_d_jrpc_dissect_netif_name J) zero_c_netif)
        (\<lambda>vrf. dbind (dissect_num (vs ! 18) (bbdd_jrpc_get_uint32 J))
        (\<lambda>table. dbind (dissect_num (vs ! 4) (bbdd_jrpc_get_uint32_non0 J))
        (\<lambda>d. dbind (dissect_num (vs ! 5) (bbdd_jrpc_get_uint32 J))
        (\<lambda>rd. dbind (dissect_num (vs ! 9) (bbdd_jrpc_get_uint32 J))
        (\<lambda>mtx. dbind (dissect_num (vs ! 10) (bbdd_jrpc_get_uint32 J))
        (\<lambda>mrx. dbind (dissect_num (vs ! 11) (bbdd_jrpc_get_uint32 J))
        (\<lambda>hold. dbind (dissect_num (vs ! 12) (bbdd_jrpc_get_uint8 J))
        (\<lambda>tl. dbind (dissect_num (vs ! 13) (bbdd_jrpc_get_uint8 J))
        (\<lambda>dm. dbind (dissect_num (vs ! 15) (bbdd_jrpc_get_uint32_non0 J))
        (\<lambda>nix. dbind (dissect_num (vs ! 17) (bbdd_jrpc_get_uint32_non0 J))
        (\<lambda>vix. Some (Inr
           \<lparr>c_flags = \<lparr>f_multihop = flag 0, f_cpi = flag 1, f_passive = flag 2, f_shutdown = flag 3\<rparr>,
            c_discr = d, c_remote_discr = rd, c_min_tx_us = mtx, c_min_rx_us = mrx, c_hold_time_us = hold,
            c_ttl = tl, c_detect_mult = dm, c_src = csrc, c_dst = cdst,
            c_netif = netif\<lparr>n_ifindex := nix\<rparr>,
            c_vrf = \<lparr>v_netif = vrf\<lparr>n_ifindex := vix\<rparr>, v_table = table\<rparr>, c_name = name\<rparr>)))))))))))))))))"

definition bbdd_d_jrpc_dissect_validate_session :: "'j json_c \<Rightarrow> netenv \<Rightarrow> string \<Rightarrow> 'j \<Rightarrow> bbdd_c_session dres" where
  "bbdd_d_jrpc_dissect_validate_session J N what obj =
     (if obj = json_null J then Some (Inl (D_not_allowed what))
      else dbind (bbdd_d_jrpc_dissect_session_one J obj)
      (\<lambda>sess. dbind (if n_ifindex (c_netif sess) \<noteq> None \<or> n_name (c_netif sess) \<noteq> None
                     then bbdd_d_session_validate_netif N (c_netif sess) else Some (Inr (c_netif sess)))
      (\<lambda>netif. dbind (if n_name (v_netif (c_vrf sess)) \<noteq> None
                     then bbdd_d_session_validate_vrf N (c_vrf sess) else Some (Inr (c_vrf sess)))
      (\<lambda>vrf. Some (Inr (sess\<lparr>c_netif := netif, c_vrf := vrf\<rparr>))))))"

definition params_policy :: "bool \<Rightarrow> bool \<Rightarrow> bbdd_jrpc_policy list" where
  "params_policy want_select want_change =
     [(policy ''select'' json_type_object)\<lparr>required := want_select, ignored := \<not> want_select\<rparr>,
      (policy ''change'' json_type_object)\<lparr>required := want_change, ignored := \<not> want_change\<rparr>,
      policy ''bulk'' json_type_boolean]"

text \<open>\<open>want_bulk\<close>: whether the caller passed a pointer for it; an output that was not asked
  for keeps its initial value.\<close>

definition bbdd_d_jrpc_dissect_params_session ::
  "'j json_c \<Rightarrow> netenv \<Rightarrow> 'j \<Rightarrow> bool \<Rightarrow> bool \<Rightarrow> bool \<Rightarrow> (bbdd_c_session \<times> bbdd_c_session \<times> bool) dres"
where
  "bbdd_d_jrpc_dissect_params_session J N obj want_select want_change want_bulk =
     dbind (of_jrpc (bbdd_jrpc_dissect J obj (params_policy want_select want_change)))
     (\<lambda>vs. dbind (when_seen (vs ! 0) (bbdd_d_jrpc_dissect_validate_session J N ''select'') zero_c_session)
     (\<lambda>select. dbind (when_seen (vs ! 1) (bbdd_d_jrpc_dissect_validate_session J N ''change'') zero_c_session)
     (\<lambda>change.
        case vs ! 2 of
          None \<Rightarrow> Some (Inr (select, change, False))
        | Some v \<Rightarrow> if \<not> want_bulk then Some (Inl D_no_bulk)
                    else Some (Inr (select, change, get_boolean J v)))))"

subsection \<open>A session in the form of a request\<close>

definition name_of_index :: "netenv \<Rightarrow> u32 \<Rightarrow> string" where
  "name_of_index N i = (case if_indextoname N i of None \<Rightarrow> '''' | Some nm \<Rightarrow> nm)"

definition bbdd_d_session_to_c_vrf :: "netenv \<Rightarrow> bbdd_d_session \<Rightarrow> bbdd_c_session_vrf" where
  "bbdd_d_session_to_c_vrf N ds =
     \<lparr>v_netif = (if vrf_ifindex ds \<noteq> 0
                 then \<lparr>n_unset = False, n_name = Some (name_of_index N (vrf_ifindex ds)),
                       n_ifindex = Some (vrf_ifindex ds)\<rparr>
                 else zero_c_netif\<lparr>n_unset := True\<rparr>),
      v_table = (if vrf_table ds \<noteq> 0 then Some (vrf_table ds) else None)\<rparr>"

text \<open>\<open>[af %d?]\<close> is what an address of another family is printed as.\<close>

definition bbdd_d_sockaddr_ntop :: "inet \<Rightarrow> bbdd_sockaddr \<Rightarrow> string" where
  "bbdd_d_sockaddr_ntop I sa =
     (if sa_family sa = AF_INET then ntop4 I (sin_addr sa)
      else if sa_family sa = AF_INET6 then ntop6 I (sin6_addr sa)
      else ''[af '' @ dec (sa_family sa) @ ''?]'')"

definition bbdd_d_session_to_c_addr :: "inet \<Rightarrow> bbdd_sockaddr \<Rightarrow> bbdd_c_session_addr" where
  "bbdd_d_session_to_c_addr I from =
     (if sa_family from \<noteq> 0
      then \<lparr>a_unset = False, a_str = bbdd_d_sockaddr_ntop I from, a_af = sa_family from\<rparr>
      else zero_c_addr\<lparr>a_unset := True\<rparr>)"

definition some_non0 :: "'a::zero \<Rightarrow> 'a option" where
  "some_non0 x = (if x \<noteq> 0 then Some x else None)"

definition bbdd_d_session_to_c :: "inet \<Rightarrow> netenv \<Rightarrow> bbdd_d_session \<Rightarrow> bbdd_c_session" where
  "bbdd_d_session_to_c I N ds =
     \<lparr>c_flags = \<lparr>f_multihop = Some (multihop (sflags (sess_local ds))), f_cpi = Some (cpi (sflags (sess_local ds))),
        f_passive = Some (passive_role (sflags (sess_local ds))), f_shutdown = Some (shutdown (sflags (sess_local ds)))\<rparr>,
      c_discr = Some (discr (sess_local ds)),
      c_remote_discr = some_non0 (user_remote_discr ds),
      c_min_tx_us = Some (min_tx_us (timing (sess_local ds))),
      c_min_rx_us = Some (min_rx_us (timing (sess_local ds))),
      c_hold_time_us = some_non0 (hold_time_us ds),
      c_ttl = Some (sttl ds),
      c_detect_mult = Some (detect_mult (timing (sess_local ds))),
      c_src = bbdd_d_session_to_c_addr I (src ds),
      c_dst = bbdd_d_session_to_c_addr I (dst ds),
      c_netif = (if sifindex ds \<noteq> 0
                 then \<lparr>n_unset = False, n_name = Some (name_of_index N (sifindex ds)), n_ifindex = Some (sifindex ds)\<rparr>
                 else zero_c_netif\<lparr>n_unset := True\<rparr>),
      c_vrf = bbdd_d_session_to_c_vrf N ds,
      c_name = (if sname ds \<noteq> '''' then \<lparr>s_unset = False, s_val = Some (sname ds)\<rparr>
                else \<lparr>s_unset = True, s_val = None\<rparr>)\<rparr>"

subsection \<open>Applying a request to a session\<close>

definition or_else :: "'a option \<Rightarrow> 'a \<Rightarrow> 'a" where
  "or_else v old = (case v of None \<Rightarrow> old | Some x \<Rightarrow> x)"

lemma or_else_simps [simp]: "or_else None x = x" "or_else (Some y) x = y"
  by (simp_all add: or_else_def)

text \<open>\<open>csrc\<close> and \<open>cdst\<close> are the addresses to set, if any.\<close>

definition apply_flags :: "bbdd_sess_flags \<Rightarrow> bbdd_d_session_flags \<Rightarrow> bbdd_d_session_flags" where
  "apply_flags cf fl = \<lparr>multihop = or_else (f_multihop cf) (multihop fl), cpi = or_else (f_cpi cf) (cpi fl),
     passive_role = or_else (f_passive cf) (passive_role fl), shutdown = or_else (f_shutdown cf) (shutdown fl)\<rparr>"

definition session_apply_c_checked ::
  "bbdd_d_session \<Rightarrow> bbdd_c_session \<Rightarrow> bbdd_sockaddr option \<Rightarrow> bbdd_sockaddr option \<Rightarrow> bbdd_d_session"
where
  "session_apply_c_checked ds cs csrc cdst =
     (let loc = sess_local ds; fl = apply_flags (c_flags cs) (sflags loc); tm = timing loc; vrf = c_vrf cs in
      ds\<lparr>src := (or_else csrc (src ds))\<lparr>sa_port := sa_port (src ds)\<rparr>,
         dst := (or_else cdst (dst ds))\<lparr>sa_port := hton16
                  (if multihop fl then BFD_MULTI_HOP_PORT else BFD_SINGLE_HOP_PORT)\<rparr>,
         sname := (if s_unset (c_name cs) then '''' else or_else (s_val (c_name cs)) (sname ds)),
         hold_time_us := or_else (c_hold_time_us cs) (hold_time_us ds),
         sttl := or_else (c_ttl cs) (sttl ds),
         sifindex := (if n_unset (c_netif cs) then 0 else or_else (n_ifindex (c_netif cs)) (sifindex ds)),
         vrf_ifindex := (if n_unset (v_netif vrf) then 0 else or_else (n_ifindex (v_netif vrf)) (vrf_ifindex ds)),
         user_remote_discr := or_else (c_remote_discr cs) (user_remote_discr ds),
         vrf_table := or_else (v_table vrf) (if n_unset (v_netif vrf) then 0 else vrf_table ds),
         sess_local := loc\<lparr>sflags := fl, discr := or_else (c_discr cs) (discr loc),
            timing := \<lparr>detect_mult = or_else (c_detect_mult cs) (detect_mult tm),
                       min_tx_us = or_else (c_min_tx_us cs) (min_tx_us tm),
                       min_rx_us = or_else (c_min_rx_us cs) (min_rx_us tm)\<rparr>\<rparr>,
         sess_remote := (sess_remote ds)\<lparr>discr := or_else (c_remote_discr cs) (discr (sess_remote ds))\<rparr>\<rparr>)"

definition bbdd_d_session_apply_c_addr :: "inet \<Rightarrow> bbdd_c_session_addr \<Rightarrow> bbdd_sockaddr option dres" where
  "bbdd_d_session_apply_c_addr I from =
     (if a_unset from then Some (Inr (Some zero_sockaddr))
      else if a_af from \<noteq> 0
      then Some (map_sum D_sock Some (bbdd_sock_parse_addrstr I (a_af from) (a_str from) zero_sockaddr))
      else Some (Inr None))"

text \<open>The view of the VRF that results: the current one with the request on top.\<close>

definition vrf_view :: "netenv \<Rightarrow> bbdd_d_session \<Rightarrow> bbdd_c_session_vrf \<Rightarrow> bbdd_c_session_vrf" where
  "vrf_view N ds vrf =
     (let cur = bbdd_d_session_to_c_vrf N ds; netif = v_netif vrf;
          name0 = (if n_unset netif then None else n_name (v_netif cur));
          ix0 = (if n_unset netif then None else n_ifindex (v_netif cur))
      in \<lparr>v_netif = (v_netif cur)\<lparr>n_name := (case n_name netif of Some nm \<Rightarrow> Some nm | None \<Rightarrow> name0),
                                  n_ifindex := (case n_ifindex netif of Some i \<Rightarrow> Some i | None \<Rightarrow> ix0)\<rparr>,
          v_table = (case v_table vrf of Some t \<Rightarrow> Some t | None \<Rightarrow> v_table cur)\<rparr>)"

definition mandatory_non0 :: "string \<Rightarrow> 'a::zero option \<Rightarrow> 'a \<Rightarrow> unit dres" where
  "mandatory_non0 what v old = (if or_else v old = 0 then Some (Inl (D_zero what)) else Some (Inr ()))"

text \<open>The result tells also whether anything changed.\<close>

definition bbdd_d_session_apply_c ::
  "inet \<Rightarrow> netenv \<Rightarrow> bbdd_d_session \<Rightarrow> bbdd_c_session \<Rightarrow> (bbdd_d_session \<times> bool) dres"
where
  "bbdd_d_session_apply_c I N ds cs =
     (if (case c_discr cs of Some d \<Rightarrow> discr (sess_local ds) \<noteq> 0 \<and> d \<noteq> discr (sess_local ds) | None \<Rightarrow> False)
      then Some (Inl D_discr_change)
      else if a_unset (c_dst cs) then None
      else
        let new_dst_af = (if a_af (c_dst cs) \<noteq> 0 then a_af (c_dst cs) else sa_family (dst ds));
            new_src_af = (if a_unset (c_src cs) then 0
                          else if a_af (c_src cs) \<noteq> 0 then a_af (c_src cs) else sa_family (src ds))
        in if new_dst_af = 0 then Some (Inl D_no_dst)
           else if new_src_af \<noteq> 0 \<and> new_src_af \<noteq> new_dst_af then Some (Inl (D_af_mismatch new_dst_af new_src_af))
           else dbind (bbdd_d_session_apply_c_addr I (c_src cs))
           (\<lambda>csrc. dbind (bbdd_d_session_apply_c_addr I (c_dst cs))
           (\<lambda>cdst. dbind (bbdd_d_session_validate_vrf N (vrf_view N ds (c_vrf cs)))
           (\<lambda>_. dbind (mandatory_non0 ''discr'' (c_discr cs) (discr (sess_local ds)))
           (\<lambda>_. dbind (mandatory_non0 ''min_rx_us'' (c_min_rx_us cs) (min_rx_us (timing (sess_local ds))))
           (\<lambda>_. dbind (mandatory_non0 ''min_tx_us'' (c_min_tx_us cs) (min_tx_us (timing (sess_local ds))))
           (\<lambda>_. dbind (mandatory_non0 ''detect_mult'' (c_detect_mult cs) (detect_mult (timing (sess_local ds))))
           (\<lambda>_. let ds' = session_apply_c_checked ds cs csrc cdst
                in Some (Inr (ds', ds' \<noteq> ds))))))))))"

subsection \<open>Selecting sessions\<close>

definition bbdd_inet_pton :: "inet \<Rightarrow> nat \<Rightarrow> string \<Rightarrow> (d_err, addr_bytes) res" where
  "bbdd_inet_pton I af str =
     (if af = AF_INET then (case pton4 I str of None \<Rightarrow> Inl (D_sock (E_invalid_address str)) | Some a \<Rightarrow> Inr (Addr4 a))
      else if af = AF_INET6 then (case pton6 I str of None \<Rightarrow> Inl (D_sock (E_invalid_address str)) | Some a \<Rightarrow> Inr (Addr6 a))
      else Inl (D_sock (E_address_family af)))"

definition bbdd_d_session_addr_matches :: "inet \<Rightarrow> bbdd_c_session_addr \<Rightarrow> bbdd_sockaddr \<Rightarrow> (d_err, bool) res" where
  "bbdd_d_session_addr_matches I query b_addr =
     (if a_af query = 0 then Inr True
      else case bbdd_inet_pton I (a_af query) (a_str query) of
             Inl e \<Rightarrow> Inl e
           | Inr a_addr \<Rightarrow>
               if a_af query \<noteq> sa_family b_addr then Inr False
               else (case a_addr of Addr4 a \<Rightarrow> Inr (a = sin_addr b_addr) | Addr6 a \<Rightarrow> Inr (a = sin6_addr b_addr)))"

definition field_ok :: "'a option \<Rightarrow> 'a \<Rightarrow> bool" where
  "field_ok q v \<longleftrightarrow> (case q of None \<Rightarrow> True | Some x \<Rightarrow> x = v)"

definition bbdd_d_session_matches :: "inet \<Rightarrow> bbdd_c_session \<Rightarrow> bbdd_d_session \<Rightarrow> (d_err, bool) res" where
  "bbdd_d_session_matches I q ds =
     (let loc = sess_local ds; fl = sflags loc; qf = c_flags q in
      if \<not> (field_ok (f_multihop qf) (multihop fl) \<and> field_ok (f_cpi qf) (cpi fl)
            \<and> field_ok (f_passive qf) (passive_role fl) \<and> field_ok (f_shutdown qf) (shutdown fl)) then Inr False
      else case bbdd_d_session_addr_matches I (c_src q) (src ds) of
        Inl e \<Rightarrow> Inl e
      | Inr False \<Rightarrow> Inr False
      | Inr True \<Rightarrow>
          (case bbdd_d_session_addr_matches I (c_dst q) (dst ds) of
             Inl e \<Rightarrow> Inl e
           | Inr False \<Rightarrow> Inr False
           | Inr True \<Rightarrow> Inr
               (\<not> (n_unset (c_netif q) \<and> sifindex ds \<noteq> 0)
                \<and> \<not> (n_unset (v_netif (c_vrf q)) \<and> vrf_ifindex ds \<noteq> 0)
                \<and> field_ok (c_discr q) (discr loc)
                \<and> field_ok (c_detect_mult q) (detect_mult (timing loc))
                \<and> field_ok (c_min_tx_us q) (min_tx_us (timing loc))
                \<and> field_ok (c_min_rx_us q) (min_rx_us (timing loc))
                \<and> field_ok (c_hold_time_us q) (hold_time_us ds)
                \<and> field_ok (c_ttl q) (sttl ds)
                \<and> field_ok (n_ifindex (c_netif q)) (sifindex ds)
                \<and> field_ok (n_ifindex (v_netif (c_vrf q))) (vrf_ifindex ds)
                \<and> field_ok (v_table (c_vrf q)) (vrf_table ds)
                \<and> field_ok (c_remote_discr q) (discr (sess_remote ds))
                \<and> \<not> (s_unset (c_name q) \<and> sname ds \<noteq> '''')
                \<and> field_ok (s_val (c_name q)) (sname ds))))"

text \<open>The array of discriminators starts with 8 entries and doubles; \<open>realloc_ok c\<close> tells
  whether there is memory for \<open>c\<close> entries.\<close>

fun select_loop :: "inet \<Rightarrow> (nat \<Rightarrow> bool) \<Rightarrow> bbdd_c_session \<Rightarrow> nat \<Rightarrow> u32 list \<Rightarrow> bbdd_d_session list \<Rightarrow> (d_err, u32 list) res" where
  "select_loop I realloc_ok q cap discrs [] = Inr discrs"
| "select_loop I realloc_ok q cap discrs (ds # dss) =
     (case bbdd_d_session_matches I q ds of
        Inl e \<Rightarrow> Inl e
      | Inr False \<Rightarrow> select_loop I realloc_ok q cap discrs dss
      | Inr True \<Rightarrow>
          if length discrs \<ge> cap
          then let cap' = (if cap = 0 then 8 else cap * 2)
               in if realloc_ok cap' then select_loop I realloc_ok q cap' (discrs @ [discr (sess_local ds)]) dss
                  else Inl D_realloc
          else select_loop I realloc_ok q cap (discrs @ [discr (sess_local ds)]) dss)"

definition bbdd_d_select_sessions :: "inet \<Rightarrow> (nat \<Rightarrow> bool) \<Rightarrow> bbdd_sess_dir \<Rightarrow> bbdd_c_session \<Rightarrow> (d_err, u32 list) res" where
  "bbdd_d_select_sessions I realloc_ok sdir q = select_loop I realloc_ok q 0 [] sdir"

subsection \<open>Valid sessions\<close>

text \<open>An address is IPv4, IPv6 or not set, and the members of the other family are zero.\<close>

definition sa_ok :: "bbdd_sockaddr \<Rightarrow> bool" where
  "sa_ok sa \<longleftrightarrow> sa_family sa \<in> {0, AF_INET, AF_INET6}
     \<and> (sa_family sa \<noteq> AF_INET \<longrightarrow> sin_addr sa = 0) \<and> (sa_family sa \<noteq> AF_INET6 \<longrightarrow> sin6_addr sa = (0, 0, 0, 0))"

definition dsess_ok :: "bbdd_d_session \<Rightarrow> bool" where
  "dsess_ok ds \<longleftrightarrow> sa_ok (src ds) \<and> sa_ok (dst ds) \<and> sa_family (dst ds) \<noteq> 0
     \<and> sa_family (src ds) \<in> {0, sa_family (dst ds)}
     \<and> sa_port (dst ds) = hton16 (if multihop (sflags (sess_local ds)) then BFD_MULTI_HOP_PORT else BFD_SINGLE_HOP_PORT)
     \<and> discr (sess_local ds) \<noteq> 0 \<and> detect_mult (timing (sess_local ds)) \<noteq> 0
     \<and> min_tx_us (timing (sess_local ds)) \<noteq> 0 \<and> min_rx_us (timing (sess_local ds)) \<noteq> 0"

lemma zero_sockaddr_ok [simp]: "sa_ok zero_sockaddr"
  by (simp add: sa_ok_def zero_sockaddr_def)

lemma sa_ok_port [simp]: "sa_ok (sa\<lparr>sa_port := p\<rparr>) = sa_ok sa"
  by (simp add: sa_ok_def)

lemma parse_addrstr_ok:
  "bbdd_sock_parse_addrstr I af str zero_sockaddr = Inr sa \<Longrightarrow> sa_ok sa \<and> sa_family sa = af \<and> af \<in> {AF_INET, AF_INET6}"
  by (auto simp: bbdd_sock_parse_addrstr_def bbdd_sock_parse_addrstr_ipv4_def bbdd_sock_parse_addrstr_ipv6_def
      sa_ok_def zero_sockaddr_def split: if_splits sum.splits option.splits)

lemma apply_c_addr_ok:
  assumes "bbdd_d_session_apply_c_addr I ca = Some (Inr v)" and "sa_ok old"
  shows "sa_ok (or_else v old)"
    and "sa_family (or_else v old) = (if a_unset ca then 0 else if a_af ca \<noteq> 0 then a_af ca else sa_family old)"
proof -
  consider "a_unset ca" "v = Some zero_sockaddr"
    | "\<not> a_unset ca" "a_af ca = 0" "v = None"
    | sa where "\<not> a_unset ca" "a_af ca \<noteq> 0" "v = Some sa" "bbdd_sock_parse_addrstr I (a_af ca) (a_str ca) zero_sockaddr = Inr sa"
    using assms(1) by (auto simp: bbdd_d_session_apply_c_addr_def map_sum_def split: if_splits sum.splits)
  note c = this
  show "sa_ok (or_else v old)" by (cases rule: c) (use assms(2) parse_addrstr_ok in auto)
  show "sa_family (or_else v old) = (if a_unset ca then 0 else if a_af ca \<noteq> 0 then a_af ca else sa_family old)"
    by (cases rule: c) (use parse_addrstr_ok in \<open>auto simp: zero_sockaddr_def\<close>)
qed

lemma mandatory_Inr [simp]: "mandatory_non0 w v old = Some (Inr u) \<longleftrightarrow> or_else v old \<noteq> 0"
  by (simp add: mandatory_non0_def)

text \<open>What an accepted request has passed.\<close>

lemma apply_c_accepted:
  assumes "bbdd_d_session_apply_c I N ds cs = Some (Inr (ds', ch))"
  obtains csrc cdst vrf where
    "ds' = session_apply_c_checked ds cs csrc cdst" "ch = (ds' \<noteq> ds)"
    "bbdd_d_session_apply_c_addr I (c_src cs) = Some (Inr csrc)" "bbdd_d_session_apply_c_addr I (c_dst cs) = Some (Inr cdst)"
    "bbdd_d_session_validate_vrf N (vrf_view N ds (c_vrf cs)) = Some (Inr vrf)"
    "or_else (c_discr cs) (discr (sess_local ds)) \<noteq> 0"
    "discr (sess_local ds) \<noteq> 0 \<Longrightarrow> or_else (c_discr cs) (discr (sess_local ds)) = discr (sess_local ds)"
    "or_else (c_min_rx_us cs) (min_rx_us (timing (sess_local ds))) \<noteq> 0"
    "or_else (c_min_tx_us cs) (min_tx_us (timing (sess_local ds))) \<noteq> 0"
    "or_else (c_detect_mult cs) (detect_mult (timing (sess_local ds))) \<noteq> 0"
    "\<not> a_unset (c_dst cs)" "(if a_af (c_dst cs) \<noteq> 0 then a_af (c_dst cs) else sa_family (dst ds)) \<noteq> 0"
    "(if a_unset (c_src cs) then 0 else if a_af (c_src cs) \<noteq> 0 then a_af (c_src cs) else sa_family (src ds))
      \<in> {0, if a_af (c_dst cs) \<noteq> 0 then a_af (c_dst cs) else sa_family (dst ds)}"
  using assms unfolding bbdd_d_session_apply_c_def Let_def
  by (auto simp: dbind_Inr split: if_splits option.splits)

lemma apply_c_valid_lem:
  assumes r: "bbdd_d_session_apply_c I N ds cs = Some (Inr (ds', ch))" and s: "sa_ok (src ds)" "sa_ok (dst ds)"
  shows "dsess_ok ds'" and "sa_port (src ds') = sa_port (src ds)"
    and "timing (sess_remote ds') = timing (sess_remote ds)"
    and "sstate (sess_local ds') = sstate (sess_local ds)"
    and "discr (sess_local ds) \<noteq> 0 \<Longrightarrow> skey ds' = skey ds"
proof -
  obtain csrc cdst where a: "ds' = session_apply_c_checked ds cs csrc cdst"
    "bbdd_d_session_apply_c_addr I (c_src cs) = Some (Inr csrc)" "bbdd_d_session_apply_c_addr I (c_dst cs) = Some (Inr cdst)"
    "or_else (c_discr cs) (discr (sess_local ds)) \<noteq> 0"
    "discr (sess_local ds) \<noteq> 0 \<Longrightarrow> or_else (c_discr cs) (discr (sess_local ds)) = discr (sess_local ds)"
    "or_else (c_min_rx_us cs) (min_rx_us (timing (sess_local ds))) \<noteq> 0"
    "or_else (c_min_tx_us cs) (min_tx_us (timing (sess_local ds))) \<noteq> 0"
    "or_else (c_detect_mult cs) (detect_mult (timing (sess_local ds))) \<noteq> 0"
    "\<not> a_unset (c_dst cs)" "(if a_af (c_dst cs) \<noteq> 0 then a_af (c_dst cs) else sa_family (dst ds)) \<noteq> 0"
    "(if a_unset (c_src cs) then 0 else if a_af (c_src cs) \<noteq> 0 then a_af (c_src cs) else sa_family (src ds))
      \<in> {0, if a_af (c_dst cs) \<noteq> 0 then a_af (c_dst cs) else sa_family (dst ds)}"
    using apply_c_accepted[OF r] by metis
  note f = apply_c_addr_ok[OF a(2) s(1)] apply_c_addr_ok[OF a(3) s(2)]
  show "dsess_ok ds'"
    using a(4,6-11) f by (simp add: dsess_ok_def a(1) session_apply_c_checked_def Let_def apply_flags_def)
  show "sa_port (src ds') = sa_port (src ds)" "timing (sess_remote ds') = timing (sess_remote ds)"
    "sstate (sess_local ds') = sstate (sess_local ds)"
    by (simp_all add: a(1) session_apply_c_checked_def Let_def)
  show "discr (sess_local ds) \<noteq> 0 \<Longrightarrow> skey ds' = skey ds"
    using a(5) by (simp add: a(1) session_apply_c_checked_def Let_def skey_def)
qed

subsection \<open>No assertion fails\<close>

text \<open>What is documented of \<open>if_indextoname\<close>: the name of an interface is not empty, fits
  into its buffer and ends at its zero character.\<close>

definition net_ok :: "netenv \<Rightarrow> bool" where
  "net_ok N \<longleftrightarrow> (\<forall>i nm. if_indextoname N i = Some nm \<longrightarrow> nm \<noteq> '''' \<and> length nm < IFNAMSIZ \<and> CHR 0x00 \<notin> set nm)"

lemma validate_netif_total: "net_ok N \<Longrightarrow> \<exists>r. bbdd_d_session_validate_netif N netif = Some r"
  by (auto simp: bbdd_d_session_validate_netif_def net_ok_def dbind_def split: option.split sum.split)

lemma validate_vrf_total: "net_ok N \<Longrightarrow> \<exists>r. bbdd_d_session_validate_vrf N vrf = Some r"
  unfolding bbdd_d_session_validate_vrf_def
  by (rule dbind_total) (auto simp: validate_netif_total split: option.split)

lemma mandatory_total: "\<exists>r. mandatory_non0 w v old = Some r"
  by (simp add: mandatory_non0_def)

lemma apply_c_addr_total: "\<exists>r. bbdd_d_session_apply_c_addr I ca = Some r"
  by (simp add: bbdd_d_session_apply_c_addr_def)

lemma if_total: "(c \<Longrightarrow> \<exists>r. a = Some r) \<Longrightarrow> (\<not> c \<Longrightarrow> \<exists>r. b = Some r) \<Longrightarrow> \<exists>r. (if c then a else b) = Some r"
  by simp

lemma apply_c_total:
  assumes "net_ok N" "\<not> a_unset (c_dst cs)"
  shows "\<exists>r. bbdd_d_session_apply_c I N ds cs = Some r"
  unfolding bbdd_d_session_apply_c_def Let_def
  by (intro if_total dbind_total apply_c_addr_total validate_vrf_total[OF assms(1)] mandatory_total)
    (use assms(2) in simp_all)

lemma dissect_addr_total:
  assumes "json_ok J"
  shows "\<exists>r. bbdd_d_jrpc_dissect_addr J v = Some r"
proof -
  have wf: "policy_wf addr_policy" by (simp add: policy_wf_def addr_policy_def)
  have "value_of J vs i \<noteq> json_null J" if d: "bbdd_jrpc_dissect J v addr_policy = Inr vs" and i: "i < 2" for vs i
  proof -
    have "addr_policy ! i = (policy (pol_key (addr_policy ! i)) json_type_string)\<lparr>required := True\<rparr>" "i < length addr_policy"
      using i by (auto simp: addr_policy_def less_2_cases_iff)
    from required_string[OF wf d this(2,1)] have "get_type J (value_of J vs i) = json_type_string" by auto
    then show ?thesis using assms unfolding json_ok_def by (metis json_type.distinct)
  qed
  note n = this[of _ 0, simplified] this[of _ 1, simplified]
  have "\<exists>r. of_jrpc x = Some r" for x :: "(jrpc_err, 'b) res" by (simp add: of_jrpc_def)
  then show ?thesis unfolding bbdd_d_jrpc_dissect_addr_def bbdd_d_jrpc_dissect_addr_obj_def Let_def
    by (auto intro!: dbind_total simp: n of_jrpc_def map_sum_def split: sum.splits)
qed

lemma dissect_str_total: "\<exists>r. bbdd_d_jrpc_dissect_str J v = Some r" "\<exists>r. bbdd_d_jrpc_dissect_netif_name J v = Some r"
proof -
  show "\<exists>r. bbdd_d_jrpc_dissect_str J v = Some r"
    by (auto simp: bbdd_d_jrpc_dissect_str_def of_jrpc_def intro!: dbind_total)
  then show "\<exists>r. bbdd_d_jrpc_dissect_netif_name J v = Some r"
    unfolding bbdd_d_jrpc_dissect_netif_name_def by (rule dbind_total) simp
qed

lemma when_seen_total: "(\<And>x. v = Some x \<Longrightarrow> \<exists>r. f x = Some r) \<Longrightarrow> \<exists>r. when_seen v f u = Some r"
  by (simp add: when_seen_def split: option.split)

lemma dissect_num_total: "\<exists>r. dissect_num v f = Some r"
  unfolding dissect_num_def by (rule when_seen_total, rule dbind_total) (simp_all add: of_jrpc_def)

lemma dissect_session_total:
  assumes "json_ok J"
  shows "\<exists>r. bbdd_d_jrpc_dissect_session_one J obj = Some r"
proof -
  have jr: "\<exists>r. of_jrpc x = Some r" for x :: "(jrpc_err, 'b) res" by (simp add: of_jrpc_def)
  show ?thesis unfolding bbdd_d_jrpc_dissect_session_one_def Let_def
    by (intro dbind_total jr dissect_num_total when_seen_total dissect_str_total dissect_addr_total[OF assms]) simp
qed

lemma dissect_validate_total:
  assumes "json_ok J" "net_ok N"
  shows "\<exists>r. bbdd_d_jrpc_dissect_validate_session J N w obj = Some r"
  unfolding bbdd_d_jrpc_dissect_validate_session_def
  using dissect_session_total[OF assms(1)] validate_netif_total[OF assms(2)] validate_vrf_total[OF assms(2)]
  by (auto intro!: dbind_total)

lemma dissect_params_total:
  assumes "json_ok J" "net_ok N"
  shows "\<exists>r. bbdd_d_jrpc_dissect_params_session J N obj ws wc wb = Some r"
  unfolding bbdd_d_jrpc_dissect_params_session_def
  by (intro dbind_total when_seen_total dissect_validate_total[OF assms])
    (auto simp: of_jrpc_def split: option.split)

subsection \<open>The destination cannot be unset\<close>

lemma session_policy_wf: "policy_wf session_policy"
  by (simp add: policy_wf_def session_policy_def)

lemma when_seen_Inr:
  "when_seen v f u = Some (Inr a) \<longleftrightarrow> (v = None \<and> a = u) \<or> (\<exists>x. v = Some x \<and> f x = Some (Inr a))"
  by (auto simp: when_seen_def split: option.split)

lemma dissect_addr_set: "bbdd_d_jrpc_dissect_addr J v = Some (Inr a) \<Longrightarrow> v \<noteq> json_null J \<Longrightarrow> \<not> a_unset a"
  by (auto simp: bbdd_d_jrpc_dissect_addr_def bbdd_d_jrpc_dissect_addr_obj_def dbind_Inr Let_def split: if_splits)

lemma dissect_dst_set:
  assumes J: "json_ok J" and r: "bbdd_d_jrpc_dissect_session_one J obj = Some (Inr cs)"
  shows "\<not> a_unset (c_dst cs)"
proof -
  obtain vs where d: "bbdd_jrpc_dissect J obj session_policy = Inr vs"
    and c: "when_seen (vs ! 8) (bbdd_d_jrpc_dissect_addr J) zero_c_addr = Some (Inr (c_dst cs))"
    using r unfolding bbdd_d_jrpc_dissect_session_one_def Let_def
    by (auto simp: dbind_Inr of_jrpc_def map_sum_def split: sum.splits)
  have "v \<noteq> json_null J" if v: "vs ! 8 = Some v" for v
  proof -
    have "policy_accepts J (session_policy ! 8) v"
      by (rule dissected_accepts[OF session_policy_wf d _ v]) (simp add: session_policy_def)
    then have "get_type J v = json_type_object" by (simp add: session_policy_def policy_accepts_def)
    then show ?thesis using J unfolding json_ok_def by (metis json_type.distinct)
  qed
  with c show ?thesis using dissect_addr_set[of J _ "c_dst cs"] by (auto simp: when_seen_Inr zero_c_addr_def)
qed

lemma dissect_validate_dst:
  assumes "json_ok J" "bbdd_d_jrpc_dissect_validate_session J N w obj = Some (Inr cs)"
  shows "\<not> a_unset (c_dst cs)"
  using assms(2) dissect_dst_set[OF assms(1)]
  by (auto simp: bbdd_d_jrpc_dissect_validate_session_def dbind_Inr split: if_splits)

lemma dissect_params_dst:
  assumes "json_ok J" "bbdd_d_jrpc_dissect_params_session J N obj ws wc wb = Some (Inr (sel, chg, bulk))"
  shows "\<not> a_unset (c_dst sel)" "\<not> a_unset (c_dst chg)"
  using assms(2) dissect_validate_dst[OF assms(1)]
  by (auto simp: bbdd_d_jrpc_dissect_params_session_def dbind_Inr when_seen_Inr zero_c_session_def zero_c_addr_def
      split: option.splits if_splits)

subsection \<open>VRFs and their tables\<close>

definition vrf_consistent :: "netenv \<Rightarrow> bbdd_d_session \<Rightarrow> bool" where
  "vrf_consistent N ds \<longleftrightarrow> (vrf_ifindex ds \<noteq> 0 \<longrightarrow> bbdd_nl_get_vrf_table N (vrf_ifindex ds) = Some (vrf_table ds))"

lemma validate_netif_index:
  "bbdd_d_session_validate_netif N nf = Some (Inr nf') \<Longrightarrow> n_ifindex nf = Some i \<Longrightarrow> n_ifindex nf' = Some i"
  by (auto simp: bbdd_d_session_validate_netif_def dbind_Inr split: if_splits option.splits)

lemma validate_vrf_table:
  assumes "bbdd_d_session_validate_vrf N vrf = Some (Inr vrf')" "n_ifindex (v_netif vrf) = Some i"
  shows "bbdd_nl_get_vrf_table N i = v_table vrf'" "v_table vrf' \<noteq> None" "v_table vrf \<noteq> None \<Longrightarrow> v_table vrf' = v_table vrf"
proof -
  obtain nf where nf: "bbdd_d_session_validate_netif N (v_netif vrf) = Some (Inr nf)"
    using assms(1) by (auto simp: bbdd_d_session_validate_vrf_def dbind_Inr)
  note i = validate_netif_index[OF nf assms(2)]
  show "bbdd_nl_get_vrf_table N i = v_table vrf'" "v_table vrf' \<noteq> None" "v_table vrf \<noteq> None \<Longrightarrow> v_table vrf' = v_table vrf"
    using assms(1) by (auto simp: bbdd_d_session_validate_vrf_def nf i split: option.splits if_splits)
qed

lemma apply_c_vrf:
  assumes r: "bbdd_d_session_apply_c I N ds cs = Some (Inr (ds', ch))" and c: "vrf_consistent N ds"
    and complete: "n_ifindex (v_netif (c_vrf cs)) = None \<or> v_table (c_vrf cs) \<noteq> None"
  shows "vrf_consistent N ds'"
proof (cases "n_unset (v_netif (c_vrf cs))")
  case True
  moreover obtain csrc cdst where "ds' = session_apply_c_checked ds cs csrc cdst" using apply_c_accepted[OF r] by metis
  ultimately show ?thesis by (simp add: vrf_consistent_def session_apply_c_checked_def Let_def)
next
  case False
  obtain csrc cdst vrf where a: "ds' = session_apply_c_checked ds cs csrc cdst"
    "bbdd_d_session_validate_vrf N (vrf_view N ds (c_vrf cs)) = Some (Inr vrf)"
    using apply_c_accepted[OF r] by metis
  have ix: "vrf_ifindex ds' = or_else (n_ifindex (v_netif (c_vrf cs))) (vrf_ifindex ds)"
    and tab: "vrf_table ds' = or_else (v_table (c_vrf cs)) (vrf_table ds)"
    using False by (simp_all add: a(1) session_apply_c_checked_def Let_def)
  show ?thesis unfolding vrf_consistent_def
  proof
    assume nz: "vrf_ifindex ds' \<noteq> 0"
    have v: "n_ifindex (v_netif (vrf_view N ds (c_vrf cs))) = Some (vrf_ifindex ds')"
      using False nz unfolding ix
      by (cases "n_ifindex (v_netif (c_vrf cs))") (simp_all add: vrf_view_def Let_def bbdd_d_session_to_c_vrf_def)
    note t = validate_vrf_table[OF a(2) v]
    show "bbdd_nl_get_vrf_table N (vrf_ifindex ds') = Some (vrf_table ds')"
    proof (cases "v_table (c_vrf cs)")
      case (Some tb)
      then show ?thesis using t by (simp add: tab vrf_view_def Let_def)
    next
      case None
      then show ?thesis using complete c nz by (simp add: ix tab vrf_consistent_def)
    qed
  qed
qed

lemma validate_vrf_complete:
  assumes "bbdd_d_session_validate_vrf N vrf = Some (Inr vrf')"
  shows "n_ifindex (v_netif vrf') = None \<or> v_table vrf' \<noteq> None"
proof -
  obtain nf where "bbdd_d_session_validate_netif N (v_netif vrf) = Some (Inr nf)"
    using assms by (auto simp: bbdd_d_session_validate_vrf_def dbind_Inr)
  then show ?thesis using assms
    by (cases "n_ifindex nf"; cases "v_table vrf") (auto simp: bbdd_d_session_validate_vrf_def split: option.splits if_splits)
qed

lemma validate_session_vrf:
  assumes "bbdd_d_jrpc_dissect_validate_session J N w obj = Some (Inr cs)"
    and "n_name (v_netif (c_vrf cs)) \<noteq> None"
  shows "n_ifindex (v_netif (c_vrf cs)) = None \<or> v_table (c_vrf cs) \<noteq> None"
proof -
  obtain sess netif vrf where "cs = sess\<lparr>c_netif := netif, c_vrf := vrf\<rparr>" "(if n_name (v_netif (c_vrf sess)) \<noteq> None
      then bbdd_d_session_validate_vrf N (c_vrf sess) else Some (Inr (c_vrf sess))) = Some (Inr vrf)"
    using assms(1) unfolding bbdd_d_jrpc_dissect_validate_session_def
    by (cases "obj = json_null J") (simp_all add: dbind_Inr del: not_None_eq, blast)
  then show ?thesis using assms(2) validate_vrf_complete by (auto split: if_splits)
qed

subsection \<open>Showing a session and setting it\<close>

text \<open>The interfaces that the session uses exist, under names that lead back to them.\<close>

definition if_known :: "netenv \<Rightarrow> u32 \<Rightarrow> bool" where
  "if_known N i \<longleftrightarrow> i = 0 \<or> (\<exists>nm. if_indextoname N i = Some nm \<and> nm \<noteq> '''' \<and> if_nametoindex N nm = i)"

lemma ntop_parse:
  assumes "inet_ok I" "sa_ok sa"
  shows "bbdd_d_session_apply_c_addr I (bbdd_d_session_to_c_addr I sa) = Some (Inr (Some (sa\<lparr>sa_port := 0\<rparr>)))"
proof -
  have "sa\<lparr>sa_port := 0\<rparr> = zero_sockaddr" if "sa_family sa = 0"
    using that assms(2) by (cases sa) (auto simp: sa_ok_def zero_sockaddr_def)
  moreover have "bbdd_sock_parse_addrstr I AF_INET (ntop4 I (sin_addr sa)) zero_sockaddr = Inr (sa\<lparr>sa_port := 0\<rparr>)"
    if "sa_family sa = AF_INET"
  proof -
    have "length (ntop4 I (sin_addr sa)) < 16" "pton4 I (ntop4 I (sin_addr sa)) = Some (sin_addr sa)"
      using assms(1) by (simp_all add: inet_ok_def)
    then show ?thesis using that assms(2) by (cases sa)
      (auto simp: bbdd_sock_parse_addrstr_def bbdd_sock_parse_addrstr_ipv4_def bbdd_sock_strdupa_def zero_sockaddr_def sa_ok_def)
  qed
  moreover have "bbdd_sock_parse_addrstr I AF_INET6 (ntop6 I (sin6_addr sa)) zero_sockaddr = Inr (sa\<lparr>sa_port := 0\<rparr>)"
    if "sa_family sa = AF_INET6"
    using that assms by (cases sa)
      (auto simp: bbdd_sock_parse_addrstr_def bbdd_sock_parse_addrstr_ipv6_def zero_sockaddr_def sa_ok_def inet_ok_def)
  moreover have "sa_family sa \<in> {0, AF_INET, AF_INET6}" using assms(2) by (simp add: sa_ok_def)
  ultimately show ?thesis
    by (auto simp: bbdd_d_session_apply_c_addr_def bbdd_d_session_to_c_addr_def bbdd_d_sockaddr_ntop_def zero_c_addr_def)
qed

lemma to_c_vrf_valid:
  assumes "vrf_consistent N ds" "if_known N (vrf_ifindex ds)"
  shows "\<exists>vrf. bbdd_d_session_validate_vrf N (vrf_view N ds (bbdd_d_session_to_c_vrf N ds)) = Some (Inr vrf)"
proof -
  have v: "vrf_view N ds (bbdd_d_session_to_c_vrf N ds) = bbdd_d_session_to_c_vrf N ds"
    by (simp add: vrf_view_def Let_def bbdd_d_session_to_c_vrf_def zero_c_netif_def)
  show ?thesis
  proof (cases "vrf_ifindex ds = 0")
    case True
    then show ?thesis unfolding v
      by (simp add: bbdd_d_session_validate_vrf_def bbdd_d_session_validate_netif_def bbdd_d_session_to_c_vrf_def zero_c_netif_def)
  next
    case False
    then obtain nm where "if_indextoname N (vrf_ifindex ds) = Some nm" "nm \<noteq> ''''" "if_nametoindex N nm = vrf_ifindex ds"
      using assms(2) by (auto simp: if_known_def)
    then show ?thesis unfolding v using False assms(1)
      by (simp add: bbdd_d_session_validate_vrf_def bbdd_d_session_validate_netif_def bbdd_d_session_to_c_vrf_def
          name_of_index_def vrf_consistent_def)
  qed
qed

lemma apply_to_c:
  assumes I: "inet_ok I" and ds: "dsess_ok ds" and v: "vrf_consistent N ds" "if_known N (vrf_ifindex ds)"
    and r: "user_remote_discr ds \<in> {0, discr (sess_remote ds)}"
  shows "bbdd_d_session_apply_c I N ds (bbdd_d_session_to_c I N ds) = Some (Inr (ds, False))"
proof -
  let ?cs = "bbdd_d_session_to_c I N ds"
  have s: "sa_ok (src ds)" "sa_ok (dst ds)" using ds by (simp_all add: dsess_ok_def)
  have p: "src ds\<lparr>sa_port := 0, sa_port := sa_port (src ds)\<rparr> = src ds" "dst ds\<lparr>sa_port := 0, sa_port := sa_port (dst ds)\<rparr> = dst ds"
    by simp_all
  have same: "session_apply_c_checked ds ?cs (Some (src ds\<lparr>sa_port := 0\<rparr>)) (Some (dst ds\<lparr>sa_port := 0\<rparr>)) = ds"
    using ds r
    by (cases ds, cases "sess_local ds", cases "sess_remote ds", cases "timing (sess_local ds)", cases "sflags (sess_local ds)")
      (auto simp: session_apply_c_checked_def Let_def bbdd_d_session_to_c_def bbdd_d_session_to_c_vrf_def apply_flags_def
        some_non0_def dsess_ok_def zero_c_netif_def)
  obtain vrf where vrf: "bbdd_d_session_validate_vrf N (vrf_view N ds (bbdd_d_session_to_c_vrf N ds)) = Some (Inr vrf)"
    using to_c_vrf_valid[OF v] by blast
  have cs: "c_src ?cs = bbdd_d_session_to_c_addr I (src ds)" "c_dst ?cs = bbdd_d_session_to_c_addr I (dst ds)"
    "c_vrf ?cs = bbdd_d_session_to_c_vrf N ds" "c_discr ?cs = Some (discr (sess_local ds))"
    "c_min_rx_us ?cs = Some (min_rx_us (timing (sess_local ds)))" "c_min_tx_us ?cs = Some (min_tx_us (timing (sess_local ds)))"
    "c_detect_mult ?cs = Some (detect_mult (timing (sess_local ds)))"
    by (simp_all add: bbdd_d_session_to_c_def)
  have af: "(if a_unset (bbdd_d_session_to_c_addr I sa) then 0
      else if a_af (bbdd_d_session_to_c_addr I sa) \<noteq> 0 then a_af (bbdd_d_session_to_c_addr I sa) else x) = sa_family sa" for sa x
    by (simp add: bbdd_d_session_to_c_addr_def zero_c_addr_def)
  have d: "\<not> a_unset (bbdd_d_session_to_c_addr I (dst ds))" "a_af (bbdd_d_session_to_c_addr I (dst ds)) = sa_family (dst ds)"
    "sa_family (dst ds) \<noteq> 0" "sa_family (src ds) \<in> {0, sa_family (dst ds)}"
    "discr (sess_local ds) \<noteq> 0" "detect_mult (timing (sess_local ds)) \<noteq> 0"
    "min_tx_us (timing (sess_local ds)) \<noteq> 0" "min_rx_us (timing (sess_local ds)) \<noteq> 0"
    using ds by (simp_all add: bbdd_d_session_to_c_addr_def dsess_ok_def)
  show ?thesis
    unfolding bbdd_d_session_apply_c_def Let_def cs af ntop_parse[OF I s(1)] ntop_parse[OF I s(2)] vrf
    using d same by (auto simp: mandatory_non0_def)
qed

subsection \<open>What is selected\<close>

lemma select_loop_Inr:
  "select_loop I ok q cap discrs dss = Inr r \<Longrightarrow>
     r = discrs @ map skey (filter (\<lambda>ds. bbdd_d_session_matches I q ds = Inr True) dss)"
proof (induction dss arbitrary: cap discrs)
  case (Cons ds dss)
  obtain b where b: "bbdd_d_session_matches I q ds = Inr b" using Cons.prems by (auto split: sum.splits)
  show ?case
  proof (cases b)
    case True
    then obtain cap' where "select_loop I ok q cap' (discrs @ [skey ds]) dss = Inr r"
      using Cons.prems b by (auto simp: Let_def skey_def split: if_splits)
    from Cons.IH[OF this] show ?thesis using b True by simp
  qed (use Cons b in simp)
qed simp

lemma select_loop_total:
  "\<forall>c. ok c \<Longrightarrow> \<forall>ds \<in> set dss. \<exists>b. bbdd_d_session_matches I q ds = Inr b \<Longrightarrow>
     \<exists>r. select_loop I ok q cap discrs dss = Inr r"
proof (induction dss arbitrary: cap discrs)
  case (Cons ds dss)
  then obtain b where "bbdd_d_session_matches I q ds = Inr b" by auto
  then show ?case using Cons by (cases b) (auto simp: Let_def)
qed simp

subsection \<open>A concrete network\<close>

definition sample_inet :: inet where
  "sample_inet = \<lparr>pton4 = (\<lambda>s. Some (load32 (map (\<lambda>c. of_nat (of_char c)) s))),
     pton6 = (\<lambda>s. let b = map (\<lambda>c. of_nat (of_char c)) s
                in Some (load32 b, load32 (drop 4 b), load32 (drop 8 b), load32 (drop 12 b))),
     ntop4 = (\<lambda>a. map (\<lambda>b. char_of (unat b)) (bytes32 a)),
     ntop6 = (\<lambda>(a, b, c, d). map (\<lambda>b. char_of (unat b)) (bytes32 a @ bytes32 b @ bytes32 c @ bytes32 d))\<rparr>"

lemma sample_inet_ok: "inet_ok sample_inet"
proof -
  have "of_nat (unat b mod 256) = (b :: u8)" for b
    using unat_u8_less[of b] by simp
  then have "map (\<lambda>c. of_nat (of_char c)) (map (\<lambda>b. char_of (unat b)) bs) = (bs :: u8 list)" for bs
    by (simp add: comp_def)
  moreover have "length (bytes32 a) = 4" for a by (simp add: bytes32_def)
  ultimately show ?thesis by (simp add: inet_ok_def sample_inet_def Let_def split: prod.split)
qed

text \<open>One interface, \<open>eth\<close> with index 3, and one VRF, \<open>red\<close> with index 5 and table 10.\<close>

definition sample_net :: netenv where
  "sample_net = \<lparr>if_indextoname = (\<lambda>i. if i = 3 then Some ''eth'' else if i = 5 then Some ''red'' else None),
     if_nametoindex = (\<lambda>nm. if nm = ''eth'' then 3 else if nm = ''red'' then 5 else 0),
     bbdd_nl_get_vrf_table = (\<lambda>i. if i = 5 then Some 10 else None)\<rparr>"

lemma sample_net_ok: "net_ok sample_net"
  by (simp add: net_ok_def sample_net_def IFNAMSIZ_def)

lemma sample_dsess_ok: "dsess_ok sample_session"
  by (simp add: dsess_ok_def sa_ok_def sample_session_def)

subsection \<open>Properties\<close>

text \<open>C17. Every accepted request leaves a valid session, whatever the session was before as
  long as its addresses were well-formed: there is a destination, both addresses are of
  one family, the destination port follows the hop flag, and the discriminator, the
  intervals and the multiplier are not zero.  The source port and the negotiated state
  are not touched, and a session keeps its discriminator.\<close>

theorem apply_c_valid:
  assumes "bbdd_d_session_apply_c I N ds cs = Some (Inr (ds', changed))" and "sa_ok (src ds)" and "sa_ok (dst ds)"
  shows "dsess_ok ds' \<and> sa_port (src ds') = sa_port (src ds) \<and> timing (sess_remote ds') = timing (sess_remote ds)
    \<and> sstate (sess_local ds') = sstate (sess_local ds) \<and> (discr (sess_local ds) \<noteq> 0 \<longrightarrow> skey ds' = skey ds)"
  using apply_c_valid_lem[OF assms] by blast

theorem apply_c_valid_witness:
  "dsess_ok (session_apply_c_checked sample_session (zero_c_session\<lparr>c_ttl := Some 254\<rparr>) None None)"
proof -
  have "sa_ok (src sample_session)" "sa_ok (dst sample_session)" using sample_dsess_ok by (simp_all add: dsess_ok_def)
  moreover have "bbdd_d_session_apply_c sample_inet sample_net sample_session (zero_c_session\<lparr>c_ttl := Some 254\<rparr>)
      = Some (Inr (session_apply_c_checked sample_session (zero_c_session\<lparr>c_ttl := Some 254\<rparr>) None None, True))"
    by (simp add: bbdd_d_session_apply_c_def zero_c_session_def sample_session_def Let_def bbdd_d_session_apply_c_addr_def
        zero_c_addr_def bbdd_d_session_validate_vrf_def bbdd_d_session_validate_netif_def vrf_view_def zero_c_netif_def
        bbdd_d_session_to_c_vrf_def mandatory_non0_def session_apply_c_checked_def)
  ultimately show ?thesis using apply_c_valid[of sample_inet sample_net sample_session] by blast
qed

text \<open>C18. A session that is shown and set again from what was shown does not change: applying
  a session's own description to it is accepted and changes nothing, if its VRF exists
  and has the table the session holds and the remote discriminator is the configured one.\<close>

theorem show_set_unchanged:
  assumes "inet_ok I" and "dsess_ok ds" and "vrf_consistent N ds" and "if_known N (vrf_ifindex ds)"
    and "user_remote_discr ds \<in> {0, discr (sess_remote ds)}"
  shows "bbdd_d_session_apply_c I N ds (bbdd_d_session_to_c I N ds) = Some (Inr (ds, False))"
  by (rule apply_to_c[OF assms])

theorem show_set_unchanged_witness:
  "bbdd_d_session_apply_c sample_inet sample_net sample_session (bbdd_d_session_to_c sample_inet sample_net sample_session)
     = Some (Inr (sample_session, False))"
  by (rule show_set_unchanged[OF sample_inet_ok sample_dsess_ok])
    (simp_all add: vrf_consistent_def if_known_def sample_session_def)

text \<open>A session's routing table stays the one of its VRF under every accepted request that
  names the VRF, or carries the table, or leaves the VRF alone.\<close>

theorem vrf_table_kept:
  assumes "bbdd_d_session_apply_c I N ds cs = Some (Inr (ds', changed))" and "vrf_consistent N ds"
    and "n_ifindex (v_netif (c_vrf cs)) = None \<or> v_table (c_vrf cs) \<noteq> None"
  shows "vrf_consistent N ds'"
  by (rule apply_c_vrf[OF assms])

theorem vrf_table_kept_witness:
  "vrf_consistent sample_net (session_apply_c_checked sample_session
     (zero_c_session\<lparr>c_vrf := \<lparr>v_netif = \<lparr>n_unset = False, n_name = Some ''red'', n_ifindex = Some 5\<rparr>, v_table = Some 10\<rparr>\<rparr>) None None)"
proof -
  let ?cs = "zero_c_session\<lparr>c_vrf := \<lparr>v_netif = \<lparr>n_unset = False, n_name = Some ''red'', n_ifindex = Some 5\<rparr>, v_table = Some 10\<rparr>\<rparr>"
  have "bbdd_d_session_apply_c sample_inet sample_net sample_session ?cs
      = Some (Inr (session_apply_c_checked sample_session ?cs None None, True))"
    by (simp add: bbdd_d_session_apply_c_def zero_c_session_def sample_session_def Let_def bbdd_d_session_apply_c_addr_def
        zero_c_addr_def bbdd_d_session_validate_vrf_def bbdd_d_session_validate_netif_def vrf_view_def zero_c_netif_def
        bbdd_d_session_to_c_vrf_def mandatory_non0_def session_apply_c_checked_def sample_net_def)
  from vrf_table_kept[OF this] show ?thesis by (simp add: vrf_consistent_def sample_session_def)
qed

text \<open>A request that gives only the index of the VRF is accepted without its table: the
  session is bound to the VRF device and keeps the main table.\<close>

theorem vrf_index_alone:
  "\<exists>cs ds'. bbdd_d_jrpc_dissect_validate_session sample_json sample_net ''change'' (JObj [(''vrf_index'', JInt 5)]) = Some (Inr cs)
     \<and> bbdd_d_session_apply_c sample_inet sample_net sample_session cs = Some (Inr (ds', True))
     \<and> vrf_ifindex ds' = 5 \<and> vrf_table ds' = 0 \<and> bbdd_nl_get_vrf_table sample_net 5 = Some 10"
proof -
  let ?cs = "zero_c_session\<lparr>c_vrf := \<lparr>v_netif = \<lparr>n_unset = False, n_name = None, n_ifindex = Some 5\<rparr>, v_table = None\<rparr>\<rparr>"
  have "bbdd_jrpc_dissect sample_json (JObj [(''vrf_index'', JInt 5)]) session_policy
      = Inr (map (member_of [(''vrf_index'', JInt 5)]) session_policy)"
    using dissect_accepts[OF session_policy_wf, of sample_json "JObj [(''vrf_index'', JInt 5)]"]
    by (simp add: dissect_ok_def sample_json_def session_policy_def policy_accepts_def)
  then have "bbdd_d_jrpc_dissect_session_one sample_json (JObj [(''vrf_index'', JInt 5)]) = Some (Inr ?cs)"
    by (simp add: bbdd_d_jrpc_dissect_session_one_def session_policy_def member_of_def when_seen_def dissect_num_def
        bbdd_jrpc_get_uint32_non0_def bbdd_jrpc_get_uint32_def bbdd_jrpc_get_uint_def sample_json_def zero_c_session_def
        zero_c_netif_def)
  then have "bbdd_d_jrpc_dissect_validate_session sample_json sample_net ''change'' (JObj [(''vrf_index'', JInt 5)]) = Some (Inr ?cs)"
    by (simp add: bbdd_d_jrpc_dissect_validate_session_def zero_c_session_def zero_c_netif_def)
  moreover have "bbdd_d_session_apply_c sample_inet sample_net sample_session ?cs
      = Some (Inr (session_apply_c_checked sample_session ?cs None None, True))"
    by (simp add: bbdd_d_session_apply_c_def zero_c_session_def sample_session_def Let_def bbdd_d_session_apply_c_addr_def
        zero_c_addr_def bbdd_d_session_validate_vrf_def bbdd_d_session_validate_netif_def vrf_view_def zero_c_netif_def
        bbdd_d_session_to_c_vrf_def mandatory_non0_def session_apply_c_checked_def sample_net_def)
  ultimately show ?thesis
    by (auto simp: session_apply_c_checked_def Let_def zero_c_session_def sample_session_def sample_net_def)
qed



text \<open>A query for sessions without a source address is no query: it selects the same
  sessions as one that does not mention the source.\<close>

theorem select_ignores_unset:
  "bbdd_d_session_matches I (q\<lparr>c_src := zero_c_addr\<lparr>a_unset := True\<rparr>\<rparr>) ds = bbdd_d_session_matches I (q\<lparr>c_src := zero_c_addr\<rparr>) ds"
proof -
  have "bbdd_d_session_addr_matches I (zero_c_addr\<lparr>a_unset := u\<rparr>) sa = Inr True" for u sa
    by (simp add: bbdd_d_session_addr_matches_def zero_c_addr_def)
  moreover have "bbdd_d_session_addr_matches I zero_c_addr sa = Inr True" for sa
    by (simp add: bbdd_d_session_addr_matches_def zero_c_addr_def)
  ultimately show ?thesis by (simp add: bbdd_d_session_matches_def Let_def split: sum.split bool.split)
qed

end
