(* ===== verification/Sport.thy ===== *)
theory Sport
  imports Base
begin

text \<open>
  The allocator of source ports (\<open>bbdd-d.c\<close>): a bitmap of 256 words of 64 bits, one
  bit for each port from 49152 to 65535.  \<open>sport_taken\<close> is the set of ports the bitmap
  stands for.  The locale \<open>port_pool\<close> is what the daemon relies on when it gives each
  session a port of its own, and \<open>spa\<close> shows that the bitmap provides it.
\<close>

definition bbdd_d_sport_lo :: nat where "bbdd_d_sport_lo = 49152"
definition bbdd_d_sport_nwords :: nat where "bbdd_d_sport_nwords = 256"

type_synonym bbdd_d_sport_alloc = "u64 list"

text \<open>\<open>ffsl\<close>: one plus the position of the lowest bit that is set, zero if there is none.\<close>

definition ffsl :: "u64 \<Rightarrow> nat" where
  "ffsl w = (case find (bit w) [0..<64] of None \<Rightarrow> 0 | Some f \<Rightarrow> Suc f)"

fun sport_scan :: "nat \<Rightarrow> u64 list \<Rightarrow> (nat \<times> nat) option" where
  "sport_scan i [] = None"
| "sport_scan i (w # ws) = (let f = ffsl (NOT w) in if f \<noteq> 0 then Some (i, f - 1) else sport_scan (Suc i) ws)"

definition bbdd_d_sport_get :: "bbdd_d_sport_alloc \<Rightarrow> (u16 \<times> bbdd_d_sport_alloc) option" where
  "bbdd_d_sport_get occ =
     (case sport_scan 0 occ of
        None \<Rightarrow> None
      | Some (i, f) \<Rightarrow> Some (of_nat (bbdd_d_sport_lo + i * 64 + f), occ[i := occ ! i OR push_bit f 1]))"

definition bbdd_d_sport_put :: "bbdd_d_sport_alloc \<Rightarrow> u16 \<Rightarrow> bbdd_d_sport_alloc option" where
  "bbdd_d_sport_put occ port =
     (if unat port < bbdd_d_sport_lo then None
      else let d = unat port - bbdd_d_sport_lo; i = d div 64; f = d mod 64
           in Some (occ[i := occ ! i AND NOT (push_bit f 1)]))"

definition sport_inv :: "bbdd_d_sport_alloc \<Rightarrow> bool" where
  "sport_inv occ \<longleftrightarrow> length occ = bbdd_d_sport_nwords"

definition sport_taken :: "bbdd_d_sport_alloc \<Rightarrow> u16 set" where
  "sport_taken occ = {p. bbdd_d_sport_lo \<le> unat p
     \<and> bit (occ ! ((unat p - bbdd_d_sport_lo) div 64)) ((unat p - bbdd_d_sport_lo) mod 64)}"

definition zero_spa :: bbdd_d_sport_alloc where
  "zero_spa = replicate bbdd_d_sport_nwords 0"

lemmas sport_consts = bbdd_d_sport_lo_def bbdd_d_sport_nwords_def

lemma zero_spa_inv: "sport_inv zero_spa"
  by (simp add: sport_inv_def zero_spa_def)

lemma ffsl_0: "ffsl w = 0 \<longleftrightarrow> (\<forall>f < 64. \<not> bit w f)"
  by (auto simp: ffsl_def find_None_iff find_Some_iff split: option.split)

lemma ffsl_Suc: "ffsl w = Suc f \<longleftrightarrow> f < 64 \<and> bit w f \<and> (\<forall>g < f. \<not> bit w g)"
proof -
  have "ffsl w = Suc f \<longleftrightarrow> find (bit w) [0..<64] = Some f"
    by (auto simp: ffsl_def split: option.split)
  also have "\<dots> \<longleftrightarrow> f < 64 \<and> bit w f \<and> (\<forall>g < f. \<not> bit w g)"
    by (auto simp: find_Some_iff)
  finally show ?thesis .
qed

lemma sport_scan_None:
  "sport_scan i ws = None \<longleftrightarrow> (\<forall>j < length ws. \<forall>f < 64. bit (ws ! j) f)"
proof (induction ws arbitrary: i)
  case (Cons w ws)
  have "ffsl (NOT w) = 0 \<longleftrightarrow> (\<forall>f < 64. bit w f)" by (auto simp: ffsl_0 bit_not_iff)
  then show ?case using Cons[of "Suc i"] by (auto simp: Let_def All_less_Suc2)
qed simp

lemma sport_scan_Some:
  assumes "sport_scan i ws = Some (k, f)"
  shows "i \<le> k \<and> k - i < length ws \<and> f < 64 \<and> \<not> bit (ws ! (k - i)) f
    \<and> (\<forall>g < f. bit (ws ! (k - i)) g) \<and> (\<forall>j < k - i. \<forall>g < 64. bit (ws ! j) g)"
  using assms
proof (induction ws arbitrary: i)
  case (Cons w ws)
  show ?case
  proof (cases "ffsl (NOT w)")
    case 0
    then have w: "\<forall>g < 64. bit w g" by (auto simp: ffsl_0 bit_not_iff)
    from 0 Cons.prems have "sport_scan (Suc i) ws = Some (k, f)" by simp
    note ih = Cons.IH[OF this]
    then obtain m where "k - i = Suc m" "k - Suc i = m" by (metis Suc_diff_Suc Suc_le_lessD)
    then show ?thesis using ih w by (auto simp: All_less_Suc2)
  next
    case (Suc g)
    then have "g < 64 \<and> bit (NOT w) g \<and> (\<forall>h < g. \<not> bit (NOT w) h)" by (simp add: ffsl_Suc)
    moreover have "k = i" "f = g" using Suc Cons.prems by auto
    ultimately show ?thesis by (auto simp: bit_not_iff)
  qed
qed simp

lemma port_index:
  assumes "i < 256" and "f < 64"
  defines "p \<equiv> (of_nat (49152 + i * 64 + f) :: u16)"
  shows "unat p = 49152 + i * 64 + f" "(unat p - 49152) div 64 = i" "(unat p - 49152) mod 64 = f"
proof -
  have "i * 64 + f < 16384" using assms by linarith
  then have "49152 + i * 64 + f < 2 ^ 16" by simp
  then show u: "unat p = 49152 + i * 64 + f" unfolding p_def by (simp only: unat_of_nat) simp
  have "(64 * i + f) div 64 = i" "(64 * i + f) mod 64 = f" using assms(2) by simp_all
  then show "(unat p - 49152) div 64 = i" "(unat p - 49152) mod 64 = f"
    unfolding u by (simp_all add: mult.commute)
qed

lemma port_split:
  assumes "49152 \<le> unat (p :: u16)"
  shows "(unat p - 49152) div 64 < 256" "unat p = 49152 + (unat p - 49152) div 64 * 64 + (unat p - 49152) mod 64"
  using assms unat_u16_less[of p] by (simp_all add: div_less_iff_less_mult)

lemma taken_update:
  assumes "sport_inv occ" and "i < 256" and "f < 64"
    and "\<And>g. g < 64 \<Longrightarrow> bit w g = (if g = f then b else bit (occ ! i) g)"
    and p_eq: "p = (of_nat (49152 + i * 64 + f) :: u16)"
  shows "sport_taken (occ[i := w]) =
    (if b then insert p (sport_taken occ) else sport_taken occ - {p})"
proof -
  note p = port_index[OF assms(2,3), folded p_eq]
  have "q \<in> sport_taken (occ[i := w]) \<longleftrightarrow> (if q = p then b else q \<in> sport_taken occ)" for q
  proof (cases "49152 \<le> unat q")
    case True
    define j g where "j = (unat q - 49152) div 64" and "g = (unat q - 49152) mod 64"
    have l: "length occ = 256" using assms(1) by (simp add: sport_inv_def sport_consts)
    have g: "g < 64" by (simp add: g_def)
    have u: "unat q = 49152 + j * 64 + g" using port_split(2)[OF True] unfolding j_def g_def .
    have eq: "q = p \<longleftrightarrow> j = i \<and> g = f"
    proof
      assume "j = i \<and> g = f"
      then have "unat q = unat p" unfolding u p(1) by blast
      then show "q = p" by (rule unsigned_word_eqI)
    next
      assume "q = p"
      then show "j = i \<and> g = f" unfolding j_def g_def using p(2,3) by blast
    qed
    have mem: "q \<in> sport_taken xs \<longleftrightarrow> bit (xs ! j) g" for xs
      using True by (simp add: sport_taken_def sport_consts j_def g_def)
    have "bit (occ[i := w] ! j) g = (if j = i \<and> g = f then b else bit (occ ! j) g)"
      by (cases "j = i") (use assms(2) assms(4)[OF g] l in \<open>simp_all only: nth_list_update_eq nth_list_update_neq simp_thms if_True if_False\<close>)
    then show ?thesis unfolding mem eq .
  next
    case False
    then have "q \<noteq> p" using p(1) by (metis add.assoc le_add1)
    then show ?thesis using False by (simp add: sport_taken_def sport_consts)
  qed
  then have "sport_taken (occ[i := w]) = {q. if q = p then b else q \<in> sport_taken occ}" by blast
  also have "\<dots> = (if b then insert p (sport_taken occ) else sport_taken occ - {p})" by (cases b) auto
  finally show ?thesis .
qed

lemma index_less: "j * 64 + g < i * 64 + f \<Longrightarrow> f < 64 \<Longrightarrow> j < i \<or> j = i \<and> g < f"
  for i j f g :: nat
  by (cases j i rule: linorder_cases) auto

lemma sport_get_ok:
  assumes inv: "sport_inv occ"
  shows "case bbdd_d_sport_get occ of
      None \<Rightarrow> sport_taken occ = {p. bbdd_d_sport_lo \<le> unat p}
    | Some (p, occ') \<Rightarrow> sport_inv occ' \<and> bbdd_d_sport_lo \<le> unat p \<and> p \<notin> sport_taken occ
        \<and> sport_taken occ' = insert p (sport_taken occ)
        \<and> (\<forall>q. bbdd_d_sport_lo \<le> unat q \<and> q < p \<longrightarrow> q \<in> sport_taken occ)"
proof (cases "sport_scan 0 occ")
  case None
  then have "\<forall>j < 256. \<forall>f < 64. bit (occ ! j) f"
    using inv sport_scan_None[of 0 occ] by (simp add: sport_inv_def sport_consts)
  then show ?thesis using None port_split(1)
    by (auto simp: bbdd_d_sport_get_def sport_taken_def sport_consts)
next
  case (Some kf)
  obtain i f where kf: "kf = (i, f)" by (cases kf)
  let ?p = "of_nat (49152 + i * 64 + f) :: u16"
  have s: "i < 256" "f < 64" "\<not> bit (occ ! i) f" "\<forall>g < f. bit (occ ! i) g" "\<forall>j < i. \<forall>g < 64. bit (occ ! j) g"
    using sport_scan_Some[of 0 occ i f] Some kf inv by (auto simp: sport_inv_def sport_consts)
  note p = port_index[OF s(1,2)]
  have b: "bit (occ ! i OR push_bit f 1) g = (if g = f then True else bit (occ ! i) g)" if "g < 64" for g
    using that by (auto simp: bit_simps)
  have t: "sport_taken (occ[i := occ ! i OR push_bit f 1]) = insert ?p (sport_taken occ)"
    using taken_update[OF inv s(1,2) b refl] by (simp only: if_True)
  have low: "q \<in> sport_taken occ" if q: "49152 \<le> unat q" "q < ?p" for q
  proof -
    let ?j = "(unat q - 49152) div 64" and ?g = "(unat q - 49152) mod 64"
    have "unat q < 49152 + i * 64 + f" using q(2) p(1) by (simp add: word_less_nat_alt)
    then have "?j * 64 + ?g < i * 64 + f" using port_split(2)[OF q(1)] by linarith
    then have "?j < i \<or> ?j = i \<and> ?g < f" using s(2) by (rule index_less)
    then show ?thesis using s q(1) by (auto simp: sport_taken_def sport_consts)
  qed
  have "?p \<notin> sport_taken occ" using s(3) p by (simp add: sport_taken_def sport_consts)
  then show ?thesis
    using Some kf t low inv p(1) by (simp add: bbdd_d_sport_get_def sport_inv_def sport_consts)
qed

lemma sport_put_ok:
  assumes inv: "sport_inv occ" and lo: "bbdd_d_sport_lo \<le> unat p"
  shows "\<exists>occ'. bbdd_d_sport_put occ p = Some occ' \<and> sport_inv occ' \<and> sport_taken occ' = sport_taken occ - {p}"
proof -
  let ?i = "(unat p - 49152) div 64" and ?f = "(unat p - 49152) mod 64"
  have lo': "49152 \<le> unat p" using lo by (simp add: sport_consts)
  have s: "?i < 256" "?f < 64" using port_split(1)[OF lo'] by simp_all
  have "of_nat (49152 + ?i * 64 + ?f) = (of_nat (unat p) :: u16)"
    using port_split(2)[OF lo'] by (rule arg_cong[OF sym])
  then have p: "of_nat (49152 + ?i * 64 + ?f) = p" by simp
  have b: "bit (occ ! ?i AND NOT (push_bit ?f 1)) g = (if g = ?f then False else bit (occ ! ?i) g)" if "g < 64" for g
    using that by (auto simp: bit_simps)
  have "sport_taken (occ[?i := occ ! ?i AND NOT (push_bit ?f 1)]) = sport_taken occ - {p}"
    using taken_update[OF inv s b p[symmetric]] by (simp only: if_False)
  then show ?thesis using lo' inv by (simp add: bbdd_d_sport_put_def sport_consts sport_inv_def Let_def)
qed

subsection \<open>The contract of the allocator\<close>

text \<open>\<open>owned taken valid p ports\<close>: the owners' ports are pairwise different, valid, and
  exactly the ports the pool has given out.\<close>

definition owned :: "('p \<Rightarrow> u16 set) \<Rightarrow> (u16 \<Rightarrow> bool) \<Rightarrow> 'p \<Rightarrow> u16 list \<Rightarrow> bool" where
  "owned taken valid p ports \<longleftrightarrow> distinct ports \<and> set ports = taken p \<and> (\<forall>x \<in> set ports. valid x)"

locale port_pool =
  fixes inv :: "'p \<Rightarrow> bool" and taken :: "'p \<Rightarrow> u16 set" and valid :: "u16 \<Rightarrow> bool"
    and get :: "'p \<Rightarrow> (u16 \<times> 'p) option" and put :: "'p \<Rightarrow> u16 \<Rightarrow> 'p option"
  assumes get_law: "inv p \<Longrightarrow> get p = Some (x, p') \<Longrightarrow>
      inv p' \<and> valid x \<and> x \<notin> taken p \<and> taken p' = insert x (taken p)"
    and put_law: "inv p \<Longrightarrow> valid x \<Longrightarrow> \<exists>p'. put p x = Some p' \<and> inv p' \<and> taken p' = taken p - {x}"
begin

lemma claim:
  assumes "inv p" and "owned taken valid p ports" and "get p = Some (x, p')"
  shows "inv p' \<and> owned taken valid p' (ports @ [x])"
  using get_law[OF assms(1,3)] assms(2) by (auto simp: owned_def)

lemma release:
  assumes "inv p" and "owned taken valid p (xs @ x # ys)"
  shows "\<exists>p'. put p x = Some p' \<and> inv p' \<and> owned taken valid p' (xs @ ys)"
proof -
  have "valid x" using assms(2) by (simp add: owned_def)
  then obtain p' where "put p x = Some p'" "inv p'" "taken p' = taken p - {x}"
    using put_law[OF assms(1)] by blast
  then show ?thesis using assms(2) by (auto simp: owned_def)
qed

text \<open>A port that was claimed and given back leaves the pool as it was.\<close>

lemma claim_release:
  assumes "inv p" and "get p = Some (x, p')"
  shows "\<exists>p''. put p' x = Some p'' \<and> inv p'' \<and> taken p'' = taken p"
proof -
  have g: "inv p'" "valid x" "x \<notin> taken p" "taken p' = insert x (taken p)" using get_law[OF assms] by auto
  then obtain p'' where "put p' x = Some p''" "inv p''" "taken p'' = taken p' - {x}"
    using put_law by blast
  then show ?thesis using g by auto
qed

end

definition sport_valid :: "u16 \<Rightarrow> bool" where
  "sport_valid p \<longleftrightarrow> bbdd_d_sport_lo \<le> unat p"

interpretation spa: port_pool sport_inv sport_taken sport_valid bbdd_d_sport_get bbdd_d_sport_put
proof
  show "sport_inv p' \<and> sport_valid x \<and> x \<notin> sport_taken p \<and> sport_taken p' = insert x (sport_taken p)"
    if "sport_inv p" "bbdd_d_sport_get p = Some (x, p')" for p x p'
    using sport_get_ok[OF that(1)] that(2) by (simp add: sport_valid_def)
  show "\<exists>p'. bbdd_d_sport_put p x = Some p' \<and> sport_inv p' \<and> sport_taken p' = sport_taken p - {x}"
    if "sport_inv p" "sport_valid x" for p x
    using sport_put_ok[of p x] that by (simp add: sport_valid_def)
qed

abbreviation ports_ok :: "bbdd_d_sport_alloc \<Rightarrow> u16 list \<Rightarrow> bool" where
  "ports_ok \<equiv> owned sport_taken sport_valid"

lemma zero_spa_owned: "ports_ok zero_spa []"
proof -
  have "sport_taken zero_spa = {}"
    using port_split(1) by (auto simp: sport_taken_def zero_spa_def sport_consts)
  then show ?thesis by (simp add: owned_def)
qed

text \<open>C39. The port allocator gives out the lowest free port of the dynamic range, never one
  that is taken, and fails only when all 16384 ports are taken; giving a port back
  frees exactly that port.\<close>

theorem sport_alloc_spec:
  assumes "sport_inv occ" and "sport_valid q"
  shows "(case bbdd_d_sport_get occ of
        None \<Rightarrow> sport_taken occ = {p. sport_valid p}
      | Some (p, occ') \<Rightarrow> sport_inv occ' \<and> sport_valid p \<and> p \<notin> sport_taken occ
          \<and> sport_taken occ' = insert p (sport_taken occ)
          \<and> (\<forall>r. sport_valid r \<and> r < p \<longrightarrow> r \<in> sport_taken occ))
    \<and> (\<exists>occ'. bbdd_d_sport_put occ q = Some occ' \<and> sport_inv occ' \<and> sport_taken occ' = sport_taken occ - {q})"
  using sport_get_ok[OF assms(1)] sport_put_ok[OF assms(1), of q] assms(2)
  unfolding sport_valid_def by blast

theorem sport_alloc_spec_witness:
  "\<exists>occ'. bbdd_d_sport_put zero_spa 50000 = Some occ' \<and> sport_taken occ' = sport_taken zero_spa - {50000}"
  using sport_alloc_spec[OF zero_spa_inv, of 50000] by (auto simp: sport_valid_def sport_consts)

end
