(* ===== verification/Tx_Queue.thy ===== *)
theory Tx_Queue
  imports Base
begin

text \<open>
  The queue of deferred transmissions (\<open>bbdd-tx.c\<close>, \<open>bbdd-tx.h\<close>).  Slots are
  owned by the sessions and linked into one of two intrusive lists; here a slot
  is named by a reference of type \<open>'k\<close>, the slot memory is a function from
  references to slots, and the two doubly linked lists are lists of references
  in link order.  The theory shows that the linked flags, the two lists and the
  two depth counters always agree, that enqueueing coalesces, that Finals leave
  before Periodics, and that the structure implements a FIFO interface.
\<close>

record bbdd_tx_slot =
  sl_discr :: u32
  sl_tx_ifindex :: u32
  sl_bfd_flags :: u8
  linked :: bool
  is_final :: bool

record 'k bbdd_tx =
  finals :: "'k list"
  periodics :: "'k list"
  nfinals :: u32
  nperiodics :: u32

type_synonym 'k slots = "'k \<Rightarrow> bbdd_tx_slot"

definition bbdd_tx_create :: "'k bbdd_tx" where
  "bbdd_tx_create = \<lparr>finals = [], periodics = [], nfinals = 0, nperiodics = 0\<rparr>"

definition bbdd_tx_enqueue ::
  "'k bbdd_tx \<Rightarrow> 'k slots \<Rightarrow> 'k \<Rightarrow> bool \<Rightarrow> u32 \<Rightarrow> u32 \<Rightarrow> u8 \<Rightarrow> bool \<times> 'k bbdd_tx \<times> 'k slots"
where
  "bbdd_tx_enqueue tx ss slot fin d ifx fl =
     (if linked (ss slot) then (False, tx, ss)
      else
        let ss' = ss(slot := (ss slot)\<lparr>sl_discr := d, sl_tx_ifindex := ifx, sl_bfd_flags := fl,
                                        is_final := fin, linked := True\<rparr>)
        in if fin
           then (True, tx\<lparr>finals := finals tx @ [slot], nfinals := nfinals tx + 1\<rparr>, ss')
           else (True, tx\<lparr>periodics := periodics tx @ [slot],
                          nperiodics := nperiodics tx + 1\<rparr>, ss'))"

definition bbdd_tx_peek :: "'k bbdd_tx \<Rightarrow> 'k option" where
  "bbdd_tx_peek tx =
     (case finals tx of
        f # _ \<Rightarrow> Some f
      | [] \<Rightarrow> (case periodics tx of p # _ \<Rightarrow> Some p | [] \<Rightarrow> None))"

definition bbdd_tx_unlink :: "'k bbdd_tx \<Rightarrow> 'k slots \<Rightarrow> 'k \<Rightarrow> 'k bbdd_tx \<times> 'k slots" where
  "bbdd_tx_unlink tx ss slot =
     (if \<not> linked (ss slot) then (tx, ss)
      else
        let tx' = (if is_final (ss slot)
                   then tx\<lparr>finals := remove1 slot (finals tx), nfinals := nfinals tx - 1\<rparr>
                   else tx\<lparr>periodics := remove1 slot (periodics tx),
                           nperiodics := nperiodics tx - 1\<rparr>)
        in (tx', ss(slot := (ss slot)\<lparr>linked := False\<rparr>)))"

definition bbdd_tx_nfinals :: "'k bbdd_tx \<Rightarrow> u32" where
  "bbdd_tx_nfinals tx = nfinals tx"

definition bbdd_tx_nperiodics :: "'k bbdd_tx \<Rightarrow> u32" where
  "bbdd_tx_nperiodics tx = nperiodics tx"

definition bbdd_tx_pending :: "'k bbdd_tx \<Rightarrow> bool" where
  "bbdd_tx_pending tx \<longleftrightarrow> finals tx \<noteq> [] \<or> periodics tx \<noteq> []"

text \<open>What the two lists stand for: the order in which slots will be served.\<close>

definition tx_order :: "'k bbdd_tx \<Rightarrow> 'k list" where
  "tx_order tx = finals tx @ periodics tx"

definition tx_inv :: "'k bbdd_tx \<Rightarrow> 'k slots \<Rightarrow> bool" where
  "tx_inv tx ss \<longleftrightarrow>
     distinct (tx_order tx) \<and>
     (\<forall>k. linked (ss k) = (k \<in> set (tx_order tx))) \<and>
     list_all (\<lambda>k. is_final (ss k)) (finals tx) \<and>
     list_all (\<lambda>k. \<not> is_final (ss k)) (periodics tx) \<and>
     nfinals tx = of_nat (length (finals tx)) \<and>
     nperiodics tx = of_nat (length (periodics tx))"

text \<open>Slot memory in which nothing is linked, for the examples.\<close>

definition sample_slots :: "nat slots" where
  "sample_slots = (\<lambda>_. \<lparr>sl_discr = 0, sl_tx_ifindex = 0, sl_bfd_flags = 0, linked = False,
                        is_final = False\<rparr>)"

lemmas tx_op_defs [tx_simps] =
  bbdd_tx_create_def bbdd_tx_enqueue_def bbdd_tx_peek_def bbdd_tx_unlink_def
  bbdd_tx_nfinals_def bbdd_tx_nperiodics_def bbdd_tx_pending_def

lemma tx_inv_create: "(\<And>k. \<not> linked (ss k)) \<Longrightarrow> tx_inv bbdd_tx_create ss"
  by (simp add: tx_inv_def tx_order_def tx_simps)

lemma tx_inv_linked: "tx_inv tx ss \<Longrightarrow> linked (ss k) \<longleftrightarrow> k \<in> set (tx_order tx)"
  by (simp add: tx_inv_def)

lemma tx_inv_kind:
  assumes "tx_inv tx ss" "linked (ss k)"
  shows "is_final (ss k) \<longleftrightarrow> k \<in> set (finals tx)"
  using assms by (auto simp: tx_inv_def tx_order_def list_all_iff)

lemma tx_inv_enqueue:
  assumes inv: "tx_inv tx ss"
    and res: "bbdd_tx_enqueue tx ss k fin d ifx fl = (r, tx', ss')"
  shows "tx_inv tx' ss'"
proof (cases "linked (ss k)")
  case True
  with assms show ?thesis by (simp add: tx_simps)
next
  case False
  with inv have "k \<notin> set (finals tx)" "k \<notin> set (periodics tx)"
    by (auto simp: tx_inv_def tx_order_def)
  with inv res False show ?thesis
    by (auto simp: tx_inv_def tx_order_def tx_simps Let_def list_all_iff split: if_splits)
qed

lemma tx_inv_unlink:
  assumes inv: "tx_inv tx ss"
    and res: "bbdd_tx_unlink tx ss k = (tx', ss')"
  shows "tx_inv tx' ss'"
proof (cases "linked (ss k)")
  case False
  with assms show ?thesis by (simp add: tx_simps)
next
  case True
  have d: "distinct (finals tx)" "distinct (periodics tx)"
    using inv by (auto simp: tx_inv_def tx_order_def)
  have fin: "is_final (ss k) \<longleftrightarrow> k \<in> set (finals tx)"
    using tx_inv_kind[OF inv True] .
  have mem: "k \<in> set (finals tx) \<or> k \<in> set (periodics tx)"
    using inv True by (auto simp: tx_inv_def tx_order_def)
  show ?thesis
    using inv res True fin mem d
    by (auto simp: tx_inv_def tx_order_def tx_simps Let_def list_all_iff
        distinct_remove1_set of_nat_length_remove1 distinct_remove1 split: if_splits)
qed

lemma tx_peek_order: "bbdd_tx_peek tx = (case tx_order tx of [] \<Rightarrow> None | k # _ \<Rightarrow> Some k)"
  by (auto simp: tx_simps tx_order_def split: list.splits)

lemma tx_pending_order: "bbdd_tx_pending tx \<longleftrightarrow> tx_order tx \<noteq> []"
  by (auto simp: tx_simps tx_order_def)

lemma tx_unlink_order:
  assumes "tx_inv tx ss" "bbdd_tx_unlink tx ss k = (tx', ss')"
  shows "tx_order tx' = remove1 k (tx_order tx)"
proof (cases "linked (ss k)")
  case False
  with assms have "k \<notin> set (tx_order tx)" by (simp add: tx_inv_def)
  with False assms show ?thesis by (simp add: tx_simps remove1_idem)
next
  case True
  with assms tx_inv_kind[OF assms(1) True] show ?thesis
    by (auto simp: tx_simps tx_order_def Let_def remove1_append split: if_splits)
qed

lemma tx_enqueue_order:
  assumes "bbdd_tx_enqueue tx ss k fin d ifx fl = (r, tx', ss')"
  shows "r = (\<not> linked (ss k))"
    and "tx_order tx' = (if linked (ss k) then tx_order tx
           else if fin then finals tx @ [k] @ periodics tx else tx_order tx @ [k])"
    and "k' \<noteq> k \<Longrightarrow> ss' k' = ss k'"
  using assms by (auto simp: tx_simps tx_order_def Let_def split: if_splits)

lemma tx_unlink_slot:
  assumes "bbdd_tx_unlink tx ss k = (tx', ss')"
  shows "ss' k' = (if k' = k then (ss k)\<lparr>linked := False\<rparr> else ss k')"
  using assms by (cases "ss k") (auto simp: tx_simps Let_def split: if_splits)

subsection \<open>The queue as its clients see it\<close>

text \<open>A client takes the next slot, removes it and serves it; new work is added at
  the end of its class.\<close>

locale deferred_queue =
  fixes inv :: "'q \<Rightarrow> bool"
    and queued :: "'q \<Rightarrow> 'k list"
    and peek :: "'q \<Rightarrow> 'k option"
    and remove :: "'k \<Rightarrow> 'q \<Rightarrow> 'q"
  assumes peek_queued: "inv q \<Longrightarrow> peek q = (case queued q of [] \<Rightarrow> None | k # _ \<Rightarrow> Some k)"
    and remove_queued: "inv q \<Longrightarrow> queued (remove k q) = remove1 k (queued q)"
    and remove_inv: "inv q \<Longrightarrow> inv (remove k q)"
begin

lemma serve_one:
  assumes "inv q" "peek q = Some k"
  shows "queued q = k # queued (remove k q)"
  using assms peek_queued[of q] remove_queued[of q k] by (cases "queued q") auto

lemma serve_shorter:
  assumes "inv q" "peek q = Some k"
  shows "length (queued (remove k q)) < length (queued q)"
  using serve_one[OF assms] by simp

lemma peek_none: "inv q \<Longrightarrow> peek q = None \<longleftrightarrow> queued q = []"
  using peek_queued[of q] by (cases "queued q") auto

end

interpretation dq: deferred_queue "\<lambda>(tx, ss). tx_inv tx ss" "\<lambda>(tx, ss). tx_order tx"
  "\<lambda>(tx, ss). bbdd_tx_peek tx" "\<lambda>k (tx, ss). bbdd_tx_unlink tx ss k"
proof
  fix q :: "'k bbdd_tx \<times> 'k slots" and k
  assume i: "case q of (tx, ss) \<Rightarrow> tx_inv tx ss"
  obtain tx ss where q: "q = (tx, ss)" by force
  obtain tx' ss' where u: "bbdd_tx_unlink tx ss k = (tx', ss')" by force
  show "(case case q of (tx, ss) \<Rightarrow> bbdd_tx_unlink tx ss k of (tx, ss) \<Rightarrow> tx_order tx)
      = remove1 k (case q of (tx, ss) \<Rightarrow> tx_order tx)"
    using i q u tx_unlink_order[of tx ss k] by simp
  show "case case q of (tx, ss) \<Rightarrow> bbdd_tx_unlink tx ss k of (tx, ss) \<Rightarrow> tx_inv tx ss"
    using i q u tx_inv_unlink[of tx ss k] by simp
  show "(case q of (tx, ss) \<Rightarrow> bbdd_tx_peek tx)
      = (case (case q of (tx, ss) \<Rightarrow> tx_order tx) of [] \<Rightarrow> None | k # _ \<Rightarrow> Some k)"
    using q tx_peek_order[of tx] by simp
qed

lemma tx_serve_one:
  assumes "tx_inv tx ss" "bbdd_tx_peek tx = Some k" "bbdd_tx_unlink tx ss k = (tx', ss')"
  shows "tx_order tx = k # tx_order tx'"
  using dq.serve_one[of "(tx, ss)" k] assms by simp

subsection \<open>Properties\<close>

text \<open>C28. Every operation keeps the transmission queue consistent: a slot is marked
  linked exactly when it is in one of the two lists, in the list its kind names
  and only once, and the two depth counters are the lengths of the lists.\<close>

theorem tx_ops_keep_invariant:
  assumes "tx_inv tx ss"
  shows "(case bbdd_tx_enqueue tx ss k fin d ifx fl of (_, tx', ss') \<Rightarrow> tx_inv tx' ss')
    \<and> (case bbdd_tx_unlink tx ss k of (tx', ss') \<Rightarrow> tx_inv tx' ss')"
  using tx_inv_enqueue[OF assms] tx_inv_unlink[OF assms] by (simp split: prod.splits)

theorem tx_ops_keep_invariant_witness:
  "case bbdd_tx_enqueue bbdd_tx_create sample_slots 1 True 9 2 16 of
     (_, tx', ss') \<Rightarrow> tx_inv tx' ss' \<and> nfinals tx' = 1"
  using tx_ops_keep_invariant[of bbdd_tx_create sample_slots 1 True 9 2 16]
    tx_inv_create[of sample_slots]
  by (simp add: sample_slots_def bbdd_tx_enqueue_def bbdd_tx_create_def)

text \<open>Enqueueing a slot that is already linked changes nothing and says so;
  a fresh slot goes behind all Finals when it is a Final and to the very end
  otherwise, so that Finals are always served before Periodics and each class in
  the order of arrival.\<close>

theorem tx_enqueue_spec:
  assumes "bbdd_tx_enqueue tx ss k fin d ifx fl = (r, tx', ss')"
  shows "(if linked (ss k) then r = False \<and> tx' = tx \<and> ss' = ss
          else r = True \<and> sl_discr (ss' k) = d \<and> sl_tx_ifindex (ss' k) = ifx
            \<and> sl_bfd_flags (ss' k) = fl \<and> is_final (ss' k) = fin \<and> linked (ss' k)
            \<and> tx_order tx' = (if fin then finals tx @ [k] @ periodics tx else tx_order tx @ [k]))"
  using assms by (auto simp: tx_simps tx_order_def Let_def split: if_splits)

theorem tx_enqueue_spec_witness:
  "\<exists>r tx' ss'. bbdd_tx_enqueue bbdd_tx_create sample_slots 1 False 9 2 16 = (r, tx', ss')
     \<and> r \<and> tx_order tx' = [1]"
proof -
  obtain r tx' ss' where e: "bbdd_tx_enqueue bbdd_tx_create sample_slots 1 False 9 2 16 = (r, tx', ss')"
    by (metis surj_pair)
  from tx_enqueue_spec[OF e] e show ?thesis
    by (auto simp: sample_slots_def bbdd_tx_create_def tx_order_def)
qed

end
