(* ===== verification/Timers.thy ===== *)
theory Timers
  imports Base
begin

text \<open>
  The timer list (\<open>bbdd-timer.c\<close>).  Timers are list cells named by a pointer
  \<open>tm_ptr\<close>, kept in order of their deadlines, and share one timerfd.  The callback
  and its data are one value of type \<open>'d\<close>.  What the C library and the kernel
  decide is an argument: whether \<open>malloc\<close> gives a pointer, the clock, whether
  \<open>timerfd_settime\<close> succeeds, and utlist's ordered insertion, whose documented
  laws are the locale \<open>inorder_insert\<close>.  The theory shows that the list stays
  sorted, that the timerfd is armed for the earliest deadline, and that the
  two-pass expiry runs every due callback once and in order even when callbacks
  cancel their own timer and add new ones.
\<close>

record 'd bbdd_timer =
  tm_ptr :: nat
  deadline_ns :: u64
  tm_data :: 'd

text \<open>\<open>armed\<close> is the absolute expiry time the timerfd holds, \<open>None\<close> when it is
  disarmed; an all-zero \<open>itimerspec\<close> disarms it.\<close>

record 'd bbdd_timers =
  head :: "'d bbdd_timer list"
  armed :: "u64 option"

type_synonym 'd inserter = "'d bbdd_timer \<Rightarrow> 'd bbdd_timer list \<Rightarrow> 'd bbdd_timer list"

definition bbdd_timer_cmp :: "'d bbdd_timer \<Rightarrow> 'd bbdd_timer \<Rightarrow> int" where
  "bbdd_timer_cmp a b =
     (if deadline_ns a < deadline_ns b then - 1
      else if deadline_ns a > deadline_ns b then 1 else 0)"

definition bbdd_timers_rearm :: "bool \<Rightarrow> 'd bbdd_timers \<Rightarrow> bool \<times> 'd bbdd_timers" where
  "bbdd_timers_rearm settime_ok ts =
     (let its = (case head ts of [] \<Rightarrow> 0 | t # _ \<Rightarrow> deadline_ns t)
      in if settime_ok then (True, ts\<lparr>armed := (if its = 0 then None else Some its)\<rparr>)
         else (False, ts))"

definition dl_delete :: "nat \<Rightarrow> 'd bbdd_timer list \<Rightarrow> 'd bbdd_timer list" where
  "dl_delete ptr ts = filter (\<lambda>t. tm_ptr t \<noteq> ptr) ts"

definition is_head :: "nat \<Rightarrow> 'd bbdd_timer list \<Rightarrow> bool" where
  "is_head ptr ts = (case ts of [] \<Rightarrow> False | t # _ \<Rightarrow> tm_ptr t = ptr)"

definition bbdd_timer_set ::
  "'d inserter \<Rightarrow> nat option \<Rightarrow> u64 \<Rightarrow> bool \<Rightarrow> 'd bbdd_timers \<Rightarrow> u64 \<Rightarrow> 'd
   \<Rightarrow> nat option \<times> 'd bbdd_timers"
where
  "bbdd_timer_set ins mallocd now settime_ok ts delay_us dat =
     (case mallocd of
        None \<Rightarrow> (None, ts)
      | Some ptr \<Rightarrow>
          let t = \<lparr>tm_ptr = ptr, deadline_ns = now + delay_us * 1000, tm_data = dat\<rparr>;
              ts1 = ts\<lparr>head := ins t (head ts)\<rparr>
          in if is_head ptr (head ts1)
             then (case bbdd_timers_rearm settime_ok ts1 of
                     (True, ts2) \<Rightarrow> (Some ptr, ts2)
                   | (False, ts2) \<Rightarrow> (None, ts2\<lparr>head := dl_delete ptr (head ts2)\<rparr>))
             else (Some ptr, ts1))"

definition bbdd_timer_cancel :: "bool \<Rightarrow> nat \<Rightarrow> 'd bbdd_timers \<Rightarrow> bool \<times> 'd bbdd_timers" where
  "bbdd_timer_cancel settime_ok ptr ts =
     (let was_earliest = is_head ptr (head ts);
          ts1 = ts\<lparr>head := dl_delete ptr (head ts)\<rparr>
      in if was_earliest then bbdd_timers_rearm settime_ok ts1 else (True, ts1))"

subsection \<open>Expiry\<close>

text \<open>The first pass follows the list while it calls the callbacks, with the next
  pointer saved before each call; a saved pointer that is no longer in the list
  when it is followed is a use of freed memory.  A callback may abort the program
  (\<open>None\<close>).\<close>

datatype 'w walk = Walked "nat option" 'w | Use_after_free | Aborted

fun next_ptr :: "nat \<Rightarrow> 'd bbdd_timer list \<Rightarrow> nat option" where
  "next_ptr ptr (t # u # ts) = (if tm_ptr t = ptr then Some (tm_ptr u) else next_ptr ptr (u # ts))"
| "next_ptr ptr _ = None"

definition find_timer :: "nat \<Rightarrow> 'd bbdd_timer list \<Rightarrow> 'd bbdd_timer option" where
  "find_timer ptr ts = find (\<lambda>t. tm_ptr t = ptr) ts"

definition first_ptr :: "'d bbdd_timer list \<Rightarrow> nat option" where
  "first_ptr ts = (case ts of [] \<Rightarrow> None | t # _ \<Rightarrow> Some (tm_ptr t))"

partial_function (option) timers_walk ::
  "('w \<Rightarrow> 'd bbdd_timers) \<Rightarrow> ('d \<Rightarrow> 'w \<Rightarrow> (bool \<times> 'w) option) \<Rightarrow> u64 \<Rightarrow> nat option \<Rightarrow> 'w
   \<Rightarrow> 'w walk option"
where
  "timers_walk get call now cur w =
     (case cur of
        None \<Rightarrow> Some (Walked None w)
      | Some ptr \<Rightarrow>
          (case find_timer ptr (head (get w)) of
             None \<Rightarrow> Some Use_after_free
           | Some t \<Rightarrow>
               let tmp = next_ptr ptr (head (get w))
               in if deadline_ns t > now then Some (Walked None w)
                  else (case call (tm_data t) w of
                          None \<Rightarrow> Some Aborted
                        | Some (rc, w') \<Rightarrow>
                            if \<not> rc then Some (Walked (Some ptr) w')
                            else timers_walk get call now tmp w')))"

fun timers_reap :: "u64 \<Rightarrow> nat option \<Rightarrow> 'd bbdd_timer list \<Rightarrow> nat option \<times> 'd bbdd_timer list" where
  "timers_reap now failed [] = (failed, [])"
| "timers_reap now failed (t # ts) =
     (if deadline_ns t \<le> now
      then if Some (tm_ptr t) = failed then (None, ts) else timers_reap now failed ts
      else (failed, t # ts))"

datatype 'w fired = Fired bool 'w | Fire_crash

definition bbdd_timers_fd_cb ::
  "('w \<Rightarrow> 'd bbdd_timers) \<Rightarrow> ('d bbdd_timers \<Rightarrow> 'w \<Rightarrow> 'w) \<Rightarrow> ('d \<Rightarrow> 'w \<Rightarrow> (bool \<times> 'w) option)
   \<Rightarrow> u64 \<Rightarrow> bool \<Rightarrow> 'w \<Rightarrow> 'w fired option"
where
  "bbdd_timers_fd_cb get put call now settime_ok w =
     (let w = put ((get w)\<lparr>armed := None\<rparr>) w
      in case timers_walk get call now (first_ptr (head (get w))) w of
           None \<Rightarrow> None
         | Some (Walked failed w') \<Rightarrow>
             (case timers_reap now failed (head (get w')) of
                (Some _, _) \<Rightarrow> Some Fire_crash
              | (None, hd') \<Rightarrow>
                  let ts = (get w')\<lparr>head := hd'\<rparr>
                  in if failed \<noteq> None then Some (Fired False (put ts w'))
                     else case bbdd_timers_rearm settime_ok ts of
                            (ok, ts') \<Rightarrow> Some (Fired ok (put ts' w')))
         | Some _ \<Rightarrow> Some Fire_crash)"

definition timers_ok :: "'d bbdd_timers \<Rightarrow> bool" where
  "timers_ok ts \<longleftrightarrow> sorted (map deadline_ns (head ts)) \<and> distinct (map tm_ptr (head ts))"

text \<open>When no expiry is pending, the timerfd is set for the head of the list.\<close>

definition timers_armed :: "'d bbdd_timers \<Rightarrow> bool" where
  "timers_armed ts \<longleftrightarrow>
     armed ts = (case head ts of [] \<Rightarrow> None
                 | t # _ \<Rightarrow> if deadline_ns t = 0 then None else Some (deadline_ns t))"

text \<open>Reference notions for expiry: the due timers of the list, and running their
  callbacks one after the other.\<close>

definition due :: "u64 \<Rightarrow> 'd bbdd_timer \<Rightarrow> bool" where
  "due now t \<longleftrightarrow> deadline_ns t \<le> now"

definition due_list :: "u64 \<Rightarrow> 'd bbdd_timers \<Rightarrow> 'd bbdd_timer list" where
  "due_list now ts = filter (due now) (head ts)"

fun run_all :: "('d \<Rightarrow> 'w \<Rightarrow> (bool \<times> 'w) option) \<Rightarrow> 'd bbdd_timer list \<Rightarrow> 'w \<Rightarrow> 'w" where
  "run_all call [] w = w"
| "run_all call (t # ts) w = run_all call ts (snd (the (call (tm_data t) w)))"

text \<open>The reading of the contract that inserts before the first element that is
  not earlier.\<close>

definition dl_insert_inorder :: "'d inserter" where
  "dl_insert_inorder = insort_key deadline_ns"

subsection \<open>The documented contract of the ordered insertion\<close>

locale inorder_insert =
  fixes ins :: "'d inserter"
  assumes ins_mset: "mset (ins t ts) = add_mset t (mset ts)"
    and ins_sorted: "sorted (map deadline_ns ts) \<Longrightarrow> sorted (map deadline_ns (ins t ts))"
begin

lemma ins_set: "set (ins t ts) = insert t (set ts)"
  using ins_mset[of t ts] by (metis set_mset_add_mset_insert set_mset_mset)

lemma ins_distinct:
  assumes "distinct (map tm_ptr ts)" "tm_ptr t \<notin> tm_ptr ` set ts"
  shows "distinct (map tm_ptr (ins t ts))"
proof -
  have "mset (map tm_ptr (ins t ts)) = mset (map tm_ptr (t # ts))"
    by (simp add: ins_mset)
  then show ?thesis using assms by (metis distinct.simps(2) list.set_map list.simps(9) mset_eq_imp_distinct_iff)
qed

lemma ins_keeps_ok:
  assumes "timers_ok ts" "tm_ptr t \<notin> tm_ptr ` set (head ts)"
  shows "timers_ok (ts\<lparr>head := ins t (head ts)\<rparr>)"
  using assms by (simp add: timers_ok_def ins_sorted ins_distinct)

end

interpretation dl: inorder_insert dl_insert_inorder
  by unfold_locales (simp_all add: dl_insert_inorder_def sorted_insort_key)

lemma ok_delete: "timers_ok ts \<Longrightarrow> timers_ok (ts\<lparr>head := dl_delete p (head ts)\<rparr>)"
  by (auto simp: timers_ok_def dl_delete_def sorted_filter distinct_map_filter)

lemma rearm_head [simp]: "head (snd (bbdd_timers_rearm ok ts)) = head ts"
  by (simp add: bbdd_timers_rearm_def Let_def)

lemma rearm_armed: "bbdd_timers_rearm True ts = (True, ts') \<Longrightarrow> timers_armed ts'"
  by (auto simp: bbdd_timers_rearm_def timers_armed_def Let_def split: list.splits)

lemma ok_rearm: "timers_ok ts \<Longrightarrow> timers_ok (snd (bbdd_timers_rearm ok ts))"
  by (simp add: timers_ok_def)

lemma armed_not_head:
  assumes "timers_armed ts" "head ts' = dl_delete p (head ts)" "armed ts' = armed ts" "\<not> is_head p (head ts)"
  shows "timers_armed ts'"
  using assms by (auto simp: timers_armed_def dl_delete_def is_head_def split: list.splits)

lemma cancel_ok:
  assumes "timers_ok ts" "bbdd_timer_cancel ok p ts = (r, ts')"
  shows "timers_ok ts'" "set (head ts') = {t \<in> set (head ts). tm_ptr t \<noteq> p}"
  using assms ok_delete[OF assms(1), of p]
  by (auto simp: bbdd_timer_cancel_def Let_def timers_ok_def bbdd_timers_rearm_def dl_delete_def split: if_splits)

lemma cancel_armed:
  assumes "timers_armed ts" "bbdd_timer_cancel True p ts = (r, ts')"
  shows "r \<and> timers_armed ts'"
proof (cases "is_head p (head ts)")
  case True
  with assms show ?thesis
    using rearm_armed[of "ts\<lparr>head := dl_delete p (head ts)\<rparr>" ts']
    by (auto simp: bbdd_timer_cancel_def Let_def bbdd_timers_rearm_def)
next
  case False
  with assms show ?thesis
    using armed_not_head[OF assms(1), of ts' p]
    by (auto simp: bbdd_timer_cancel_def Let_def)
qed

lemma armed_mset:
  assumes "timers_ok ts'" "timers_ok ts" "mset (head ts') = mset (head ts)" "armed ts' = armed ts"
  shows "timers_armed ts' = timers_armed ts"
proof -
  have "map deadline_ns (head ts') = map deadline_ns (head ts)"
  proof -
    have "mset (map deadline_ns (head ts')) = mset (map deadline_ns (head ts))"
      using assms(3) by simp
    from properties_for_sort[OF this] assms(1,2) show ?thesis
      by (simp add: timers_ok_def sorted_sort_id)
  qed
  then show ?thesis
    using assms(4) by (auto simp: timers_armed_def split: list.splits)
qed

context inorder_insert
begin

lemma is_head_ins_armed:
  assumes "timers_armed ts" "\<not> is_head (tm_ptr t) (ins t (head ts))" "timers_ok ts"
    "tm_ptr t \<notin> tm_ptr ` set (head ts)"
  shows "timers_armed (ts\<lparr>head := ins t (head ts)\<rparr>)"
proof (cases "ins t (head ts)")
  case Nil
  then show ?thesis using ins_set[of t "head ts"] by simp
next
  case (Cons u us)
  then have u: "u \<noteq> t" using assms(2) by (auto simp: is_head_def)
  have "u \<in> set (head ts)" using Cons u ins_set[of t "head ts"] by auto
  then obtain v vs where v: "head ts = v # vs" by (cases "head ts") auto
  have "sorted (map deadline_ns (u # us))"
    using ins_sorted[of "head ts" t] assms(3) Cons by (simp add: timers_ok_def)
  moreover have "v \<in> set (u # us)" using Cons v ins_set[of t "head ts"] by auto
  ultimately have "deadline_ns u \<le> deadline_ns v" by auto
  moreover have "deadline_ns v \<le> deadline_ns u"
    using \<open>u \<in> set (head ts)\<close> assms(3) v by (auto simp: timers_ok_def)
  ultimately show ?thesis using assms(1) Cons v by (simp add: timers_armed_def)
qed


lemma delete_ins_mset:
  assumes "tm_ptr t \<notin> tm_ptr ` set ts"
  shows "mset (dl_delete (tm_ptr t) (ins t ts)) = mset ts"
proof -
  have "mset (dl_delete (tm_ptr t) (ins t ts)) = filter_mset (\<lambda>u. tm_ptr u \<noteq> tm_ptr t) (mset ts)"
    by (simp add: dl_delete_def ins_mset)
  also have "\<dots> = mset ts"
    using assms by (simp add: filter_mset_eq_conv) (auto simp: image_iff)
  finally show ?thesis .
qed

lemma timer_set_spec:
  assumes ok: "timers_ok ts" and ar: "timers_armed ts" and fresh: "ptr \<notin> tm_ptr ` set (head ts)"
    and res: "bbdd_timer_set ins (Some ptr) now sok ts delay dat = (r, ts')"
  shows "timers_ok ts' \<and> timers_armed ts'
    \<and> (case r of None \<Rightarrow> \<not> sok \<and> mset (head ts') = mset (head ts)
       | Some p \<Rightarrow> p = ptr \<and> mset (head ts') =
           add_mset \<lparr>tm_ptr = ptr, deadline_ns = now + delay * 1000, tm_data = dat\<rparr> (mset (head ts)))"
proof -
  let ?t = "\<lparr>tm_ptr = ptr, deadline_ns = now + delay * 1000, tm_data = dat\<rparr>"
  let ?ts1 = "ts\<lparr>head := ins ?t (head ts)\<rparr>"
  have ok1: "timers_ok ?ts1" using ins_keeps_ok[OF ok, of ?t] fresh by simp
  show ?thesis
  proof (cases "is_head ptr (head ?ts1)")
    case False
    with res have "r = Some ptr" "ts' = ?ts1" by (auto simp: bbdd_timer_set_def Let_def)
    moreover have "timers_armed ?ts1"
      using is_head_ins_armed[OF ar _ ok, of ?t] False fresh by simp
    ultimately show ?thesis using ok1 by (simp add: ins_mset)
  next
    case head: True
    show ?thesis
    proof (cases sok)
      case True
      with head res have "r = Some ptr" "bbdd_timers_rearm True ?ts1 = (True, ts')"
        by (auto simp: bbdd_timer_set_def Let_def bbdd_timers_rearm_def)
      with rearm_armed[of ?ts1 ts'] ok_rearm[OF ok1, of True] rearm_head[of True ?ts1]
      show ?thesis by (simp add: ins_mset)
    next
      case False
      with head res have r: "r = None" "ts' = ts\<lparr>head := dl_delete ptr (ins ?t (head ts))\<rparr>"
        by (auto simp: bbdd_timer_set_def Let_def bbdd_timers_rearm_def)
      have m: "mset (head ts') = mset (head ts)"
        using delete_ins_mset[of ?t "head ts"] fresh r by simp
      moreover have "timers_ok ts'" using ok_delete[OF ok1, of ptr] r by simp
      ultimately show ?thesis
        using armed_mset[OF _ ok m] ar r False by simp
    qed
  qed
qed

end


subsection \<open>Expiry\<close>

text \<open>What the expiry relies on: a callback succeeds, may cancel its own timer and
  no other, and may add only timers that are not due yet.\<close>

lemma sorted_partition:
  "sorted (map deadline_ns xs) \<Longrightarrow> filter (due now) xs @ filter (\<lambda>t. \<not> due now t) xs = xs"
proof (induction xs)
  case (Cons x xs)
  show ?case
  proof (cases "due now x")
    case False
    then have "\<not> due now y" if "y \<in> set xs" for y
      using Cons.prems that by (auto simp: due_def not_le intro: less_le_trans)
    then have "filter (due now) xs = []" by (simp add: filter_empty_conv)
    with Cons False show ?thesis by simp
  qed (use Cons in auto)
qed simp

lemma find_timer_ok:
  assumes "timers_ok ts" "t \<in> set (head ts)"
  shows "find_timer (tm_ptr t) (head ts) = Some t"
proof -
  have "distinct (map tm_ptr xs) \<Longrightarrow> t \<in> set xs \<Longrightarrow> find (\<lambda>u. tm_ptr u = tm_ptr t) xs = Some t" for xs
    by (induction xs) auto
  then show ?thesis using assms by (simp add: find_timer_def timers_ok_def)
qed

lemma next_ptr_split:
  "distinct (map tm_ptr (xs @ t # ys)) \<Longrightarrow> next_ptr (tm_ptr t) (xs @ t # ys) = first_ptr ys"
proof (induction xs)
  case Nil
  then show ?case by (cases ys) (auto simp: first_ptr_def)
next
  case (Cons x xs)
  then have "tm_ptr x \<noteq> tm_ptr t" by auto
  with Cons show ?case by (cases "xs @ t # ys") auto
qed

lemma first_ptr_append:
  "first_ptr (xs @ ys) = (case xs of [] \<Rightarrow> first_ptr ys | t # _ \<Rightarrow> Some (tm_ptr t))"
  by (simp add: first_ptr_def split: list.splits)

lemma first_ptr_filter:
  "first_ptr (filter P xs) = Some p \<Longrightarrow> \<exists>u \<in> set xs. tm_ptr u = p \<and> P u"
  by (induction xs) (auto simp: first_ptr_def split: if_splits list.splits)

lemma reap_none:
  "sorted (map deadline_ns xs) \<Longrightarrow> timers_reap now None xs = (None, filter (\<lambda>t. \<not> due now t) xs)"
proof (induction xs)
  case (Cons x xs)
  show ?case
  proof (cases "due now x")
    case False
    then have "filter (\<lambda>t. \<not> due now t) (x # xs) = x # xs"
      using Cons.prems by (auto simp: due_def not_le filter_id_conv intro: less_le_trans)
    with False show ?thesis by (simp add: due_def)
  qed (use Cons in \<open>auto simp: due_def\<close>)
qed simp

locale timer_client =
  fixes get :: "'w \<Rightarrow> 'd bbdd_timers"
    and put :: "'d bbdd_timers \<Rightarrow> 'w \<Rightarrow> 'w"
    and call :: "'d \<Rightarrow> 'w \<Rightarrow> (bool \<times> 'w) option"
    and now :: u64
    and inv :: "'w \<Rightarrow> bool"
  assumes get_put: "get (put ts w) = ts"
    and inv_ok: "inv w \<Longrightarrow> timers_ok (get w)"
    and inv_armed: "inv w \<Longrightarrow> inv (put ((get w)\<lparr>armed := a\<rparr>) w)"
    and call_ok: "\<lbrakk>inv w; t \<in> set (head (get w)); due now t\<rbrakk> \<Longrightarrow>
      \<exists>w'. call (tm_data t) w = Some (True, w') \<and> inv w'
        \<and> due_list now (get w') \<in> {due_list now (get w), remove1 t (due_list now (get w))}
        \<and> set (head (get w)) - {t} \<subseteq> set (head (get w'))"
begin


lemma walk_due:
  assumes "inv w" and "due_list now (get w) = pre @ rest"
    and "\<And>p. nxt = Some p \<Longrightarrow> \<exists>u \<in> set (head (get w)). tm_ptr u = p \<and> \<not> due now u"
    and "cur = (case rest of [] \<Rightarrow> nxt | t # _ \<Rightarrow> Some (tm_ptr t))"
  shows "timers_walk get call now cur w = Some (Walked None (run_all call rest w))
    \<and> inv (run_all call rest w)"
  using assms
proof (induction rest arbitrary: w pre nxt cur)
  case Nil
  show ?case
  proof (cases nxt)
    case None
    with Nil show ?thesis by (simp add: timers_walk.simps)
  next
    case (Some p)
    then obtain u where u: "u \<in> set (head (get w))" "tm_ptr u = p" "\<not> due now u"
      using Nil.prems(3) by blast
    then have "find_timer p (head (get w)) = Some u"
      using find_timer_ok[OF inv_ok[OF Nil.prems(1)]] by blast
    with Some Nil u show ?thesis by (simp add: timers_walk.simps due_def Let_def not_le)
  qed
next
  case (Cons t rs)
  let ?nd = "filter (\<lambda>t. \<not> due now t) (head (get w))"
  have split: "head (get w) = pre @ t # rs @ ?nd"
    using sorted_partition[of "head (get w)" now] inv_ok[OF Cons.prems(1)] Cons.prems(2)
    by (simp add: timers_ok_def due_list_def)
  have t: "t \<in> set (head (get w))" "due now t"
    using Cons.prems(2) by (auto simp: due_list_def dest!: arg_cong[where f = set])
  obtain w' where w': "call (tm_data t) w = Some (True, w')" "inv w'"
    "due_list now (get w') \<in> {due_list now (get w), remove1 t (due_list now (get w))}"
    "set (head (get w)) - {t} \<subseteq> set (head (get w'))"
    using call_ok[OF Cons.prems(1) t] by blast
  have dist: "distinct (map tm_ptr (pre @ t # rs @ ?nd))"
    using inv_ok[OF Cons.prems(1)] split by (simp add: timers_ok_def)
  have fnd: "find_timer (tm_ptr t) (head (get w)) = Some t"
    using find_timer_ok[OF inv_ok[OF Cons.prems(1)] t(1)] .
  have tmp: "next_ptr (tm_ptr t) (head (get w)) = first_ptr (rs @ ?nd)"
    using dist split by (metis next_ptr_split)
  have step: "timers_walk get call now cur w = timers_walk get call now (first_ptr (rs @ ?nd)) w'"
    using Cons.prems(4) fnd t(2)[unfolded due_def, folded not_less] w'(1) tmp
    by (subst timers_walk.simps) (simp add: Let_def)
  have "t \<notin> set pre" using dist by auto
  then have "remove1 t (pre @ t # rs) = pre @ rs" by (simp add: remove1_append)
  then obtain pre' where pre': "due_list now (get w') = pre' @ rs"
    using w'(3) Cons.prems(2) by (metis append.assoc append_Cons append_Nil insertE singletonD)
  have nd: "\<exists>u \<in> set (head (get w')). tm_ptr u = p \<and> \<not> due now u" if "first_ptr ?nd = Some p" for p
  proof -
    from first_ptr_filter[OF that] obtain u
      where "u \<in> set (head (get w))" "tm_ptr u = p" "\<not> due now u" by blast
    then show ?thesis using w'(4) t(2) by blast
  qed
  have "first_ptr (rs @ ?nd) = (case rs of [] \<Rightarrow> first_ptr ?nd | t # _ \<Rightarrow> Some (tm_ptr t))"
    by (rule first_ptr_append)
  from Cons.IH[OF w'(2) pre' nd this] show ?case
    using step w'(1) by simp
qed

lemma fd_cb_runs_due:
  assumes ok: "inv w"
  defines "w0 \<equiv> put ((get w)\<lparr>armed := None\<rparr>) w"
  defines "w1 \<equiv> run_all call (due_list now (get w)) w0"
  defines "ts \<equiv> (get w1)\<lparr>head := filter (\<lambda>t. \<not> due now t) (head (get w1))\<rparr>"
  shows "bbdd_timers_fd_cb get put call now sok w =
    Some (Fired sok (put (snd (bbdd_timers_rearm sok ts)) w1))"
proof -
  have ok0: "inv w0" using ok by (simp add: w0_def inv_armed)
  have due0: "due_list now (get w0) = [] @ due_list now (get w)"
    by (simp add: w0_def get_put due_list_def)
  let ?nd = "filter (\<lambda>t. \<not> due now t) (head (get w0))"
  have nd: "\<exists>u \<in> set (head (get w0)). tm_ptr u = p \<and> \<not> due now u" if "first_ptr ?nd = Some p" for p
    using first_ptr_filter[OF that] .
  have "head (get w0) = due_list now (get w) @ ?nd"
    using sorted_partition[of "head (get w0)" now] inv_ok[OF ok0] due0 by (simp add: timers_ok_def due_list_def)
  then have "first_ptr (head (get w0)) =
      (case due_list now (get w) of [] \<Rightarrow> first_ptr ?nd | t # _ \<Rightarrow> Some (tm_ptr t))"
    by (metis first_ptr_append)
  from walk_due[OF ok0 due0 nd this]
  have walk: "timers_walk get call now (first_ptr (head (get w0))) w0 = Some (Walked None w1)"
    and ok1: "inv w1"
    by (simp_all add: w1_def)
  have "timers_reap now None (head (get w1)) = (None, head ts)"
    using reap_none[of "head (get w1)" now] inv_ok[OF ok1] by (simp add: timers_ok_def ts_def)
  with walk show ?thesis
    by (simp add: bbdd_timers_fd_cb_def Let_def w0_def[symmetric] ts_def bbdd_timers_rearm_def)
qed

end

subsection \<open>A failing callback\<close>

lemma fd_cb_failure:
  assumes put: "\<And>ts w. get (put ts w) = ts"
    and ts: "head (get w) = t # ts" "deadline_ns t \<le> now"
    and fails: "\<And>w. call (tm_data t) w = Some (False, w)"
  shows "\<exists>w'. bbdd_timers_fd_cb get put call now sok w = Some (Fired False w')
    \<and> head (get w') = ts \<and> armed (get w') = None"
proof -
  let ?w0 = "put ((get w)\<lparr>armed := None\<rparr>) w"
  have h: "head (get ?w0) = t # ts" "armed (get ?w0) = None" by (simp_all add: put ts)
  have "timers_walk get call now (Some (tm_ptr t)) ?w0 = Some (Walked (Some (tm_ptr t)) ?w0)"
    using ts(2)[folded not_less]
    by (subst timers_walk.simps) (simp add: h find_timer_def fails Let_def)
  then show ?thesis
    using ts(2) h by (simp add: bbdd_timers_fd_cb_def Let_def first_ptr_def put)
qed

subsection \<open>Properties\<close>

text \<open>C27. Setting a timer keeps the list sorted by deadline and the timerfd armed for the
  earliest deadline; on success exactly the new timer is added, with the deadline
  the given number of microseconds from now, and when the timerfd cannot be armed
  nothing is added.  This holds for every insertion that obeys the list contract.\<close>

theorem timer_set_keeps_order:
  assumes "\<And>t ts. mset (ins t ts) = add_mset t (mset ts)"
    and "\<And>t ts. sorted (map deadline_ns ts) \<Longrightarrow> sorted (map deadline_ns (ins t ts))"
    and "timers_ok ts" and "timers_armed ts" and "ptr \<notin> tm_ptr ` set (head ts)"
    and "bbdd_timer_set ins (Some ptr) now sok ts delay dat = (r, ts')"
  shows "timers_ok ts' \<and> timers_armed ts'
    \<and> (case r of None \<Rightarrow> \<not> sok \<and> mset (head ts') = mset (head ts)
       | Some p \<Rightarrow> p = ptr \<and> mset (head ts') =
           add_mset \<lparr>tm_ptr = ptr, deadline_ns = now + delay * 1000, tm_data = dat\<rparr> (mset (head ts)))"
  by (rule inorder_insert.timer_set_spec[OF inorder_insert.intro[OF assms(1,2)] assms(3-6)])

theorem timer_set_keeps_order_witness:
  "\<exists>r ts'. bbdd_timer_set dl_insert_inorder (Some 1) 5 True \<lparr>head = [], armed = None\<rparr> 2 True = (r, ts')
     \<and> timers_ok ts' \<and> timers_armed ts'"
proof -
  obtain r ts' where r: "bbdd_timer_set dl_insert_inorder (Some 1) 5 True \<lparr>head = [], armed = None\<rparr> 2 True = (r, ts')"
    by force
  from timer_set_keeps_order[OF dl.ins_mset dl.ins_sorted _ _ _ r] r show ?thesis
    by (simp add: timers_ok_def timers_armed_def)
qed

text \<open>A callback that fails leaves the timerfd disarmed although timers are pending:
  its own timer is removed, the others stay in the list, and none of them will fire
  until another timer is set or cancelled.\<close>

theorem failing_callback_stops_timers:
  assumes "\<And>ts w. get (put ts w) = ts"
    and "head (get w) = t # ts" and "deadline_ns t \<le> now"
    and "\<And>w. call (tm_data t) w = Some (False, w)"
  shows "\<exists>w'. bbdd_timers_fd_cb get put call now sok w = Some (Fired False w')
    \<and> head (get w') = ts \<and> armed (get w') = None"
  using fd_cb_failure[of get put w t ts now call sok] assms by blast

theorem failing_callback_stops_timers_witness:
  "\<exists>w'. bbdd_timers_fd_cb (\<lambda>w. w) (\<lambda>ts w. ts) (\<lambda>d w. Some (d, w)) 5 True
       \<lparr>head = [\<lparr>tm_ptr = 1, deadline_ns = 3, tm_data = False\<rparr>, \<lparr>tm_ptr = 2, deadline_ns = 9, tm_data = True\<rparr>],
        armed = Some 3\<rparr> = Some (Fired False w')
     \<and> armed w' = None \<and> head w' \<noteq> []"
  using failing_callback_stops_timers[of "\<lambda>w. w" "\<lambda>ts w. ts"
      "\<lparr>head = [\<lparr>tm_ptr = 1, deadline_ns = 3, tm_data = False\<rparr>, \<lparr>tm_ptr = 2, deadline_ns = 9, tm_data = True\<rparr>],
        armed = Some 3\<rparr>" "\<lparr>tm_ptr = 1, deadline_ns = 3, tm_data = False\<rparr>"
      "[\<lparr>tm_ptr = 2, deadline_ns = 9, tm_data = True\<rparr>]" 5 "\<lambda>d w. Some (d, w)" True]
  by auto

end
