(* ===== verification/Bpf_State.thy ===== *)
theory Bpf_State
  imports Bfd_Codec Tx_Queue Timers Sess_Dir "HOL-Library.Monad_Syntax"
begin

text \<open>
  The state of the kernel-facing half of the daemon (\<open>bbdd-bpf.c\<close>, lines 62--182)
  and what the kernel decides for it.  \<open>bbdd_bpf\<close> holds the structure of the same
  name together with what it points to: the session table, the two BPF hash
  maps, the counters on both sides, the timers, the deferred-transmission queue
  with the slot memory of all sessions, the frames handed to the kernel and the
  notifications emitted.  Every call into the kernel or the allocator takes its
  outcome from \<open>bpf_env\<close>, indexed by the number of such calls made so far, so a
  statement for all environments covers every behaviour of the kernel.
\<close>

datatype bpf_err =
    E_sendmsg | E_af_mismatch | E_af_unsupported nat | E_map_update | E_malloc | E_timer
  | E_setsockopt | E_capacity u32 | E_no_session u32 | E_poll | E_ethtype u16 | E_netlink

datatype bpf_note =
    Mon_err bpf_err
  | Mon_debug string u32
  | State_changed u32 bbdd_bfd_pkt_state
  | Refresh_neigh u32 bbdd_sockaddr

text \<open>A slot is named by its session and its field, a timer callback by its
  function and the session its data points to.\<close>

datatype slot_ref = Final_slot u32 | Periodic_slot u32
datatype timer_fn = Shwait_cb u32 | Hold_cb u32

datatype bbdd_bpf_session_state = ON_HOLD | STABLE | AWAIT_FINAL | AWAIT_NON_FINAL | SHUTTING_DOWN

record bbdd_bpf_session_data =
  bd_timing :: bbdd_d_session_data_timing
  bd_shutdown :: bool

text \<open>\<open>bs_shwait\<close> and \<open>bs_hold\<close> hold the pointer of the timer that the structure
  of that name owns.\<close>

record bbdd_bpf_session =
  bs_discr :: u32
  bs_gen_id :: u32
  bstate :: bbdd_bpf_session_state
  eff_data :: bbdd_bpf_session_data
  dfr_data :: bbdd_bpf_session_data
  qd_change :: bool
  bs_shwait :: "nat option"
  bs_hold :: "nat option"
  timer_period_us :: u32
  bs_stats :: session_stats
  bs_diag_stats :: session_diag_stats

record frame =
  fr_ifindex :: u32
  fr_proto :: be16
  fr_mark :: u32
  fr_bytes :: "u8 list"

record bbdd_bpf =
  veth_rx_ifindex :: u32
  veth_tx_ifindex :: u32
  bsdir :: "bbdd_bpf_session list"
  config_hash :: "u32 \<Rightarrow> bbdd_prog_session_config option"
  data_hash :: "u32 \<Rightarrow> bbdd_prog_session_data option"
  user_diag :: global_diag_stats
  prog_diag :: global_diag_stats
  btimers :: "timer_fn bbdd_timers"
  txq :: "slot_ref bbdd_tx"
  slotmem :: "slot_ref slots"
  tx_capacity :: u32
  tx_pollout_registered :: bool
  tick :: nat
  wire :: "frame list"
  mon_log :: "bpf_note list"

record bpf_env =
  e_sendmsg_ok :: "nat \<Rightarrow> bool"
  e_map_update_ok :: "nat \<Rightarrow> bool"
  e_poll_set_ok :: "nat \<Rightarrow> bool"
  e_setsockopt_ok :: "nat \<Rightarrow> bool"
  e_settime_ok :: "nat \<Rightarrow> bool"
  e_now_ns :: "nat \<Rightarrow> u64"
  e_malloc :: "nat \<Rightarrow> nat option"
  e_insert :: "timer_fn inserter"
  e_tx_capacity :: u32

definition bbdd_bpf_sdir_get_session :: "bbdd_bpf \<Rightarrow> u32 \<Rightarrow> bbdd_bpf_session option" where
  "bbdd_bpf_sdir_get_session bpf d = kget bs_discr (bsdir bpf) d"

text \<open>A write through a pointer to a session of the table.\<close>

definition put_bsess :: "bbdd_bpf_session \<Rightarrow> bbdd_bpf \<Rightarrow> bbdd_bpf" where
  "put_bsess bs bpf = bpf\<lparr>bsdir := kset bs_discr bs (bsdir bpf)\<rparr>"

definition emit :: "bpf_note \<Rightarrow> bbdd_bpf \<Rightarrow> bbdd_bpf" where
  "emit n bpf = bpf\<lparr>mon_log := mon_log bpf @ [n]\<rparr>"

definition tock :: "bbdd_bpf \<Rightarrow> bbdd_bpf" where
  "tock bpf = bpf\<lparr>tick := Suc (tick bpf)\<rparr>"

lemma emit_sel [simp]:
  "veth_rx_ifindex (emit n b) = veth_rx_ifindex b" "veth_tx_ifindex (emit n b) = veth_tx_ifindex b"
  "bsdir (emit n b) = bsdir b" "config_hash (emit n b) = config_hash b"
  "data_hash (emit n b) = data_hash b" "user_diag (emit n b) = user_diag b"
  "prog_diag (emit n b) = prog_diag b" "btimers (emit n b) = btimers b" "txq (emit n b) = txq b"
  "slotmem (emit n b) = slotmem b" "tx_capacity (emit n b) = tx_capacity b"
  "tx_pollout_registered (emit n b) = tx_pollout_registered b" "tick (emit n b) = tick b"
  "wire (emit n b) = wire b"
  by (simp_all add: emit_def)

lemma tock_sel [simp]:
  "veth_rx_ifindex (tock b) = veth_rx_ifindex b" "veth_tx_ifindex (tock b) = veth_tx_ifindex b"
  "bsdir (tock b) = bsdir b" "config_hash (tock b) = config_hash b"
  "data_hash (tock b) = data_hash b" "user_diag (tock b) = user_diag b"
  "prog_diag (tock b) = prog_diag b" "btimers (tock b) = btimers b" "txq (tock b) = txq b"
  "slotmem (tock b) = slotmem b" "tx_capacity (tock b) = tx_capacity b"
  "tx_pollout_registered (tock b) = tx_pollout_registered b" "wire (tock b) = wire b"
  "mon_log (tock b) = mon_log b"
  by (simp_all add: tock_def)

interpretation bst: session_table bs_discr "kget bs_discr" kadd "kdel bs_discr" "kset bs_discr"
  "kwf bs_discr"
  by unfold_locales
    (auto simp: kget_add kget_del kget_set kwf_add kwf_del kwf_set dest: kget_key split: option.splits)

end
