(* ===== verification/Bpf_Tx.thy ===== *)
theory Bpf_Tx
  imports Bpf_State
begin

text \<open>
  Transmission and configuration of one session (\<open>bbdd-bpf.c\<close>, lines 285--878):
  the accounting of the shared transmit socket, injecting a packet, the flag
  bits a session sends and expects, and the kernel-side configuration records.
  \<open>None\<close> is an abort: a failed assertion or \<open>invalid_on_hold_abort\<close>.
\<close>

definition bbdd_bpf_tx_pinned :: "bbdd_bpf \<Rightarrow> u32" where
  "bbdd_bpf_tx_pinned bpf =
     ucast (user_diag bpf Sk_sent_count - prog_diag bpf Sk_released_count)"

definition bbdd_bpf_tx_have_capacity :: "bbdd_bpf \<Rightarrow> bool" where
  "bbdd_bpf_tx_have_capacity bpf \<longleftrightarrow> bbdd_bpf_tx_pinned bpf < tx_capacity bpf"

definition bbdd_bpf_tx_pollout_disarm :: "bbdd_bpf \<Rightarrow> bbdd_bpf" where
  "bbdd_bpf_tx_pollout_disarm bpf =
     (if \<not> tx_pollout_registered bpf then bpf else bpf\<lparr>tx_pollout_registered := False\<rparr>)"

definition bbdd_bpf_tx_pollout_arm :: "bpf_env \<Rightarrow> bbdd_bpf \<Rightarrow> bbdd_bpf" where
  "bbdd_bpf_tx_pollout_arm env bpf =
     (if tx_pollout_registered bpf then bpf
      else if \<not> e_poll_set_ok env (tick bpf) then emit (Mon_err E_poll) (tock bpf)
      else (tock bpf)\<lparr>tx_pollout_registered := True\<rparr>)"

definition bbdd_bpf_session_send ::
  "bpf_env \<Rightarrow> bbdd_bpf \<Rightarrow> frame \<Rightarrow> bbdd_bpf \<times> (bpf_err, unit) res"
where
  "bbdd_bpf_session_send env bpf fr =
     (if \<not> e_sendmsg_ok env (tick bpf) then (tock bpf, Inl E_sendmsg)
      else ((tock bpf)\<lparr>user_diag := bump Sk_sent_count (user_diag bpf), wire := wire bpf @ [fr]\<rparr>,
            Inr ()))"

text \<open>The data the packets of a session carry: the polled data during a poll
  sequence and during shutdown, else the effective data.\<close>

definition current_bdata :: "bbdd_bpf_session \<Rightarrow> bbdd_bpf_session_data option" where
  "current_bdata bs =
     (case bstate bs of
        ON_HOLD \<Rightarrow> None
      | STABLE \<Rightarrow> Some (eff_data bs)
      | AWAIT_FINAL \<Rightarrow> Some (dfr_data bs)
      | AWAIT_NON_FINAL \<Rightarrow> Some (dfr_data bs)
      | SHUTTING_DOWN \<Rightarrow> Some (dfr_data bs))"

definition bbdd_bpf_session_inject_pkt ::
  "bpf_env \<Rightarrow> bbdd_bpf \<Rightarrow> bbdd_d_session \<Rightarrow> bbdd_bpf_session \<Rightarrow> u32 \<Rightarrow> u8
   \<Rightarrow> (bbdd_bpf \<times> (bpf_err, unit) res) option"
where
  "bbdd_bpf_session_inject_pkt env bpf dsess bs ifx fl =
     do {
       bdata \<leftarrow> current_bdata bs;
       if detect_mult (bd_timing bdata) = 0 then None
       else
         let bfd = bbdd_bpf_make_packet (discr (sess_local dsess)) (bd_timing bdata)
                     (sstate (sess_local dsess)) (discr (sess_remote dsess)) fl
         in if sa_family (dst dsess) = AF_INET
            then Some (bbdd_bpf_session_send env bpf
                   \<lparr>fr_ifindex = ifx, fr_proto = hton16 0x0800, fr_mark = bs_gen_id bs,
                    fr_bytes = inject_frame_ipv4 dsess bfd\<rparr>)
            else Some (bbdd_bpf_session_send env bpf
                   \<lparr>fr_ifindex = ifx, fr_proto = hton16 0x86DD, fr_mark = bs_gen_id bs,
                    fr_bytes = inject_frame_ipv6 dsess bfd\<rparr>)
     }"

fun bbdd_bpf_get_rx_expect_bfd_flags_bstate :: "bbdd_bpf_session_state \<Rightarrow> u8" where
  "bbdd_bpf_get_rx_expect_bfd_flags_bstate ON_HOLD = 0"
| "bbdd_bpf_get_rx_expect_bfd_flags_bstate STABLE = 0"
| "bbdd_bpf_get_rx_expect_bfd_flags_bstate AWAIT_FINAL = 0"
| "bbdd_bpf_get_rx_expect_bfd_flags_bstate SHUTTING_DOWN = 0"
| "bbdd_bpf_get_rx_expect_bfd_flags_bstate AWAIT_NON_FINAL = BIT_FINAL"

definition bbdd_bpf_get_bfd_session_flags :: "bbdd_d_session_data \<Rightarrow> u8" where
  "bbdd_bpf_get_bfd_session_flags dat = (if cpi (sflags dat) then BIT_CPI else 0)"

definition bbdd_bpf_get_rx_expect_bfd_flags :: "bbdd_d_session \<Rightarrow> bbdd_bpf_session \<Rightarrow> u8" where
  "bbdd_bpf_get_rx_expect_bfd_flags dsess bs =
     bbdd_bpf_get_rx_expect_bfd_flags_bstate (bstate bs)
     OR bbdd_bpf_get_bfd_session_flags (sess_remote dsess)"

fun bbdd_bpf_get_inject_bfd_flags_bstate :: "bbdd_bpf_session_state \<Rightarrow> u8 option" where
  "bbdd_bpf_get_inject_bfd_flags_bstate ON_HOLD = None"
| "bbdd_bpf_get_inject_bfd_flags_bstate STABLE = Some 0"
| "bbdd_bpf_get_inject_bfd_flags_bstate SHUTTING_DOWN = Some 0"
| "bbdd_bpf_get_inject_bfd_flags_bstate AWAIT_FINAL = Some BIT_POLL"
| "bbdd_bpf_get_inject_bfd_flags_bstate AWAIT_NON_FINAL = Some 0"

definition bbdd_bpf_get_inject_bfd_flags :: "bbdd_d_session \<Rightarrow> bbdd_bpf_session \<Rightarrow> u8 option" where
  "bbdd_bpf_get_inject_bfd_flags dsess bs =
     map_option (\<lambda>f. f OR bbdd_bpf_get_bfd_session_flags (sess_local dsess))
       (bbdd_bpf_get_inject_bfd_flags_bstate (bstate bs))"

subsection \<open>Kernel-side configuration\<close>

text \<open>The arguments of a configuration update.\<close>

record conf_args =
  ca_ifindex :: u32
  ca_tbid :: u32
  ca_fib_flags :: u32
  ca_min_interval_us :: u32
  ca_max_interval_us :: u32
  ca_detect_time_us :: u32
  ca_rearm_timer :: bool

definition make_config :: "bbdd_d_session \<Rightarrow> bbdd_bpf_session \<Rightarrow> conf_args \<Rightarrow> bbdd_prog_session_config"
where
  "make_config dsess bs ca =
     (let af = (if sa_family (src dsess) \<noteq> 0 then sa_family (src dsess) else sa_family (dst dsess))
      in \<lparr>fib_lookup =
            \<lparr>fib_family = of_nat af, l4_protocol = 17,
             fib_sport = sa_port (src dsess), fib_dport = sa_port (dst dsess), fib_tot_len = 0,
             fib_ifindex = ca_ifindex ca,
             ipv4_src = (if af = AF_INET then sin_addr (src dsess) else 0),
             ipv4_dst = (if af = AF_INET then sin_addr (dst dsess) else 0),
             ipv6_src = (if af = AF_INET6 then sin6_addr (src dsess) else (0, 0, 0, 0)),
             ipv6_dst = (if af = AF_INET6 then sin6_addr (dst dsess) else (0, 0, 0, 0)),
             fib_tbid = ca_tbid ca, fib_mark = bs_gen_id bs, smac = [], dmac = []\<rparr>,
          bpf_fib_lookup_flags = ca_fib_flags ca,
          min_interval_us = ca_min_interval_us ca,
          max_interval_us = ca_max_interval_us ca,
          detect_time_us = ca_detect_time_us ca,
          cfg_gen_id = bs_gen_id bs,
          admin_down = (state (sstate (sess_local dsess)) = ADMINDOWN),
          rearm_timer = ca_rearm_timer ca,
          cfg_ttl = sttl dsess,
          rx_expect = bbdd_bpf_make_packet (discr (sess_remote dsess))
            (timing (sess_remote dsess)) (sstate (sess_remote dsess))
            (discr (sess_local dsess)) (bbdd_bpf_get_rx_expect_bfd_flags dsess bs)\<rparr>)"

definition bbdd_bpf_session_conf_update ::
  "bpf_env \<Rightarrow> bbdd_bpf \<Rightarrow> bbdd_d_session \<Rightarrow> bbdd_bpf_session \<Rightarrow> conf_args
   \<Rightarrow> bbdd_bpf \<times> (bpf_err, unit) res"
where
  "bbdd_bpf_session_conf_update env bpf dsess bs ca =
     (let af = (if sa_family (src dsess) \<noteq> 0 then sa_family (src dsess) else sa_family (dst dsess))
      in if af \<noteq> sa_family (dst dsess) then (bpf, Inl E_af_mismatch)
         else if af \<noteq> AF_INET \<and> af \<noteq> AF_INET6 then (bpf, Inl (E_af_unsupported af))
         else if \<not> e_map_update_ok env (tick bpf) then (tock bpf, Inl E_map_update)
         else ((tock bpf)\<lparr>config_hash :=
                 (config_hash bpf)(discr (sess_local dsess) \<mapsto> make_config dsess bs ca)\<rparr>, Inr ()))"

definition zero_session_stats :: session_stats where
  "zero_session_stats = (\<lambda>_. 0)"

definition zero_data :: bbdd_prog_session_data where
  "zero_data = \<lparr>timer_armed_ns = None, data_stats = zero_session_stats,
                data_diag_stats = (\<lambda>_. 0), timer_initd = False\<rparr>"

definition bbdd_bpf_session_conf_add ::
  "bpf_env \<Rightarrow> bbdd_bpf \<Rightarrow> bbdd_d_session \<Rightarrow> bbdd_bpf_session \<Rightarrow> bbdd_bpf \<times> (bpf_err, unit) res"
where
  "bbdd_bpf_session_conf_add env bpf dsess bs =
     (let d = discr (sess_local dsess)
      in case bbdd_bpf_session_conf_update env bpf dsess bs
                \<lparr>ca_ifindex = 0, ca_tbid = 0, ca_fib_flags = 0, ca_min_interval_us = 0,
                 ca_max_interval_us = 0, ca_detect_time_us = 0, ca_rearm_timer = False\<rparr> of
           (bpf1, Inl e) \<Rightarrow> (bpf1, Inl e)
         | (bpf1, Inr _) \<Rightarrow>
             if e_map_update_ok env (tick bpf1)
             then ((tock bpf1)\<lparr>data_hash := (data_hash bpf1)(d \<mapsto> zero_data)\<rparr>, Inr ())
             else ((tock bpf1)\<lparr>config_hash := (config_hash bpf1)(d := None)\<rparr>, Inl E_map_update))"

definition bbdd_bpf_session_conf_delete :: "bbdd_bpf \<Rightarrow> u32 \<Rightarrow> bbdd_bpf" where
  "bbdd_bpf_session_conf_delete bpf d =
     bpf\<lparr>config_hash := (config_hash bpf)(d := None), data_hash := (data_hash bpf)(d := None)\<rparr>"

definition bbdd_bpf_session_detect_time_us ::
  "bbdd_bpf_session_data \<Rightarrow> bbdd_d_session_data \<Rightarrow> u32 option"
where
  "bbdd_bpf_session_detect_time_us eff rd =
     (if detect_mult (timing rd) = 0 then None
      else
        let t = max (min_rx_us (bd_timing eff)) (min_tx_us (timing rd));
            m = ucast (detect_mult (timing rd))
        in Some (if t > - 1 div m then - 1 else t * m))"

definition bbdd_bpf_inject_rearm_packet ::
  "bpf_env \<Rightarrow> bbdd_bpf \<Rightarrow> bbdd_d_session \<Rightarrow> bbdd_bpf_session
   \<Rightarrow> (bbdd_bpf \<times> (bpf_err, unit) res) option"
where
  "bbdd_bpf_inject_rearm_packet env bpf dsess bs =
     bbdd_bpf_session_inject_pkt env
       (emit (Mon_debug ''Arming timer'' (discr (sess_local dsess))) bpf)
       dsess bs (veth_rx_ifindex bpf) 0"

subsection \<open>Socket capacity\<close>

definition bbdd_bpf_tx_dyn_capacity :: "bbdd_bpf \<Rightarrow> bool \<Rightarrow> u32" where
  "bbdd_bpf_tx_dyn_capacity bpf add =
     (of_nat (length (bsdir bpf)) + (if add then 1 else 0)) * 2"

definition bbdd_bpf_tx_apply_capacity :: "bpf_env \<Rightarrow> bbdd_bpf \<Rightarrow> u32 \<Rightarrow> bbdd_bpf \<times> (bpf_err, unit) res"
where
  "bbdd_bpf_tx_apply_capacity env bpf cap =
     (let sndbuf = (ucast cap :: u64) * 2048
      in if sndbuf > 0x3FFFFFFF then (bpf, Inl (E_capacity cap))
         else if \<not> e_setsockopt_ok env (tick bpf) then (tock bpf, Inl E_setsockopt)
         else ((tock bpf)\<lparr>tx_capacity := cap\<rparr>, Inr ()))"

definition bbdd_bpf_tx_resize :: "bpf_env \<Rightarrow> bbdd_bpf \<Rightarrow> bool \<Rightarrow> bbdd_bpf \<times> (bpf_err, unit) res" where
  "bbdd_bpf_tx_resize env bpf add =
     (let cap = (if e_tx_capacity env \<noteq> 0 then e_tx_capacity env
                 else bbdd_bpf_tx_dyn_capacity bpf add)
      in if tx_capacity bpf = cap then (bpf, Inr ())
         else bbdd_bpf_tx_apply_capacity env bpf cap)"

end
