(* ===== verification/Bpf_Session.thy ===== *)
theory Bpf_Session
  imports Bpf_Tx
begin

text \<open>
  The life of a session in \<open>bbdd-bpf.c\<close>: propagating a configuration to the
  kernel (\<open>__bbdd_bpf_session_update\<close>), the poll-sequence machine
  (\<open>bbdd_bpf_handle_session_update\<close> and the Final/non-Final handlers), the hold and
  shutdown timers, and creating and deleting sessions.  Functions that take
  \<open>dsess\<close> and \<open>bsess\<close> pointers take the two structures and return those they
  write.  \<open>None\<close> is an abort of the program.
\<close>

text \<open>\<open>__bbdd_bpf_session_update\<close> in four parts: whether the session sends at all, the
  deferral when the socket is full, the arguments of the configuration, and the
  update proper.\<close>

definition should_inject :: "bbdd_d_session \<Rightarrow> bbdd_bpf_session \<Rightarrow> bool" where
  "should_inject dsess bs =
     (\<not> (state (sstate (sess_local dsess)) = ADMINDOWN \<and> bstate bs = STABLE)
      \<and> \<not> (discr (sess_remote dsess) = 0 \<and> passive_role (sflags (sess_local dsess))))"

definition defer_update ::
  "bpf_env \<Rightarrow> bbdd_bpf \<Rightarrow> bbdd_d_session \<Rightarrow> bbdd_bpf_session \<Rightarrow> bbdd_bpf option"
where
  "defer_update env bpf dsess bs =
     do {
       fl \<leftarrow> bbdd_bpf_get_inject_bfd_flags dsess bs;
       let is_fin = (fl AND BIT_FINAL \<noteq> 0);
       let slot = (if is_fin then Final_slot (bs_discr bs) else Periodic_slot (bs_discr bs));
       (case bbdd_tx_enqueue (txq bpf) (slotmem bpf) slot is_fin (discr (sess_local dsess))
               (veth_tx_ifindex bpf) fl of
          (fresh, tx', ss') \<Rightarrow>
            Some (bbdd_bpf_tx_pollout_arm env
              (bpf\<lparr>txq := tx', slotmem := ss',
                   user_diag := (if fresh then bump Sk_enq_count (user_diag bpf)
                                 else user_diag bpf)\<rparr>)))
     }"

definition rearms :: "bbdd_d_session \<Rightarrow> bool" where
  "rearms dsess =
     (\<not> (state (sstate (sess_local dsess)) = DOWN \<or> state (sstate (sess_local dsess)) = ADMINDOWN))"

definition update_interval_us :: "bbdd_d_session \<Rightarrow> bbdd_bpf_session \<Rightarrow> u32" where
  "update_interval_us dsess bs =
     (if state (sstate (sess_local dsess)) = DOWN then bbdd_prog_slow_interval_us
      else max (min_tx_us (bd_timing (eff_data bs))) (min_rx_us (timing (sess_remote dsess))))"

definition update_args ::
  "bbdd_bpf \<Rightarrow> bbdd_d_session \<Rightarrow> bbdd_bpf_session \<Rightarrow> u32 \<Rightarrow> conf_args"
where
  "update_args bpf dsess bs detect =
     (let down = (state (sstate (sess_local dsess)) = DOWN);
          interval_us = update_interval_us dsess bs;
          tbid = vrf_table dsess;
          flags1 = (if tbid \<noteq> 0 then 1 OR 8 else 0);
          (fwd, flags2) = (if sifindex dsess \<noteq> 0 then (sifindex dsess, flags1 OR 2)
                           else (veth_tx_ifindex bpf, flags1))
      in \<lparr>ca_ifindex = fwd, ca_tbid = tbid,
          ca_fib_flags = (if sa_family (src dsess) = 0 then flags2 OR 16 else flags2),
          ca_min_interval_us = (if down then interval_us else interval_us * 75 div 100),
          ca_max_interval_us = (if down then interval_us
             else if detect_mult (bd_timing (eff_data bs)) = 1 then interval_us * 90 div 100
             else interval_us),
          ca_detect_time_us = detect, ca_rearm_timer = rearms dsess\<rparr>)"

definition rearm_update ::
  "bpf_env \<Rightarrow> bbdd_bpf \<Rightarrow> bbdd_d_session \<Rightarrow> bbdd_bpf_session \<Rightarrow> u32
   \<Rightarrow> (bbdd_bpf \<times> bbdd_bpf_session \<times> (bpf_err, unit) res) option"
where
  "rearm_update env bpf dsess bs detect =
     (if rearms dsess \<and> timer_period_us bs \<noteq> detect
      then do {
        (bpf1, r) \<leftarrow> bbdd_bpf_inject_rearm_packet env bpf dsess bs;
        (case r of
           Inl e \<Rightarrow> Some (bpf1, bs, Inl e)
         | Inr _ \<Rightarrow> Some (bpf1, bs\<lparr>timer_period_us := detect\<rparr>, Inr ()))
      }
      else Some (bpf, bs\<lparr>timer_period_us := 0\<rparr>, Inr ()))"

definition inject_update ::
  "bpf_env \<Rightarrow> bbdd_bpf \<Rightarrow> bbdd_d_session \<Rightarrow> bbdd_bpf_session
   \<Rightarrow> (bbdd_bpf \<times> (bpf_err, unit) res) option"
where
  "inject_update env bpf dsess bs =
     (if should_inject dsess bs
      then do {
        fl \<leftarrow> bbdd_bpf_get_inject_bfd_flags dsess bs;
        bbdd_bpf_session_inject_pkt env bpf dsess bs (veth_tx_ifindex bpf) fl
      }
      else Some (bpf, Inr ()))"

definition session_update ::
  "bpf_env \<Rightarrow> bbdd_bpf \<Rightarrow> bbdd_d_session \<Rightarrow> bbdd_bpf_session
   \<Rightarrow> (bbdd_bpf \<times> bbdd_bpf_session \<times> (bpf_err, unit) res) option"
where
  "session_update env bpf dsess bs =
     (if should_inject dsess bs \<and> \<not> bbdd_bpf_tx_have_capacity bpf
      then do {
        bpf1 \<leftarrow> defer_update env bpf dsess bs;
        Some (bpf1, bs, Inr ())
      }
      else do {
        let bs1 = bs\<lparr>bs_gen_id := bs_gen_id bs + 1\<rparr>;
        detect \<leftarrow> bbdd_bpf_session_detect_time_us (eff_data bs) (sess_remote dsess);
        (case bbdd_bpf_session_conf_update env bpf dsess bs1 (update_args bpf dsess bs1 detect) of
           (bpf1, Inl e) \<Rightarrow> Some (bpf1, bs1, Inl e)
         | (bpf1, Inr _) \<Rightarrow> do {
             (bpf2, r2) \<leftarrow> inject_update env
               (emit (Mon_debug ''Injecting packet'' (discr (sess_local dsess))) bpf1) dsess bs1;
             (case r2 of
                Inl e \<Rightarrow> Some (bpf2, bs1, Inl e)
              | Inr _ \<Rightarrow> rearm_update env bpf2 dsess bs1 detect)
           })
      })"

definition bbdd_bpf_session_call_update ::
  "bpf_env \<Rightarrow> bbdd_bpf \<Rightarrow> bbdd_d_session \<Rightarrow> bbdd_bpf_session \<Rightarrow> (bbdd_bpf \<times> bbdd_bpf_session) option"
where
  "bbdd_bpf_session_call_update env bpf dsess bs =
     do {
       (bpf1, bs1, r) \<leftarrow> session_update env bpf dsess bs;
       (case r of
          Inl e \<Rightarrow> Some (emit (Mon_err e) bpf1, bs1)
        | Inr _ \<Rightarrow> Some (bpf1, bs1))
     }"

definition bbdd_bpf_session_state_changed ::
  "bpf_env \<Rightarrow> bbdd_bpf \<Rightarrow> bbdd_d_session \<Rightarrow> bbdd_bpf_session \<Rightarrow> (bbdd_bpf \<times> bbdd_bpf_session) option"
where
  "bbdd_bpf_session_state_changed env bpf dsess bs =
     do {
       (bpf1, bs1) \<leftarrow> bbdd_bpf_session_call_update env bpf dsess bs;
       Some (emit (State_changed (discr (sess_local dsess)) (state (sstate (sess_local dsess)))) bpf1,
             bs1)
     }"

definition bbdd_bpf_handle_packet_got_final ::
  "bpf_env \<Rightarrow> bbdd_bpf \<Rightarrow> bbdd_d_session \<Rightarrow> bbdd_bpf_session \<Rightarrow> (bbdd_bpf \<times> bbdd_bpf_session) option"
where
  "bbdd_bpf_handle_packet_got_final env bpf dsess bs =
     bbdd_bpf_session_call_update env
       (emit (Mon_debug ''await non-final'' (discr (sess_local dsess))) bpf)
       dsess (bs\<lparr>bstate := AWAIT_NON_FINAL\<rparr>)"

subsection \<open>Timers of a session\<close>

text \<open>Cancelling a timer reports a failure to rearm the timerfd on the monitor.\<close>

definition timer_cancel :: "bpf_env \<Rightarrow> nat \<Rightarrow> bbdd_bpf \<Rightarrow> bbdd_bpf" where
  "timer_cancel env ptr bpf =
     (case bbdd_timer_cancel (e_settime_ok env (tick bpf)) ptr (btimers bpf) of
        (True, ts) \<Rightarrow> (tock bpf)\<lparr>btimers := ts\<rparr>
      | (False, ts) \<Rightarrow> emit (Mon_err E_timer) ((tock bpf)\<lparr>btimers := ts\<rparr>))"

definition timer_set :: "bpf_env \<Rightarrow> u64 \<Rightarrow> timer_fn \<Rightarrow> bbdd_bpf \<Rightarrow> nat option \<times> bbdd_bpf" where
  "timer_set env delay_us fn bpf =
     (case bbdd_timer_set (e_insert env) (e_malloc env (tick bpf)) (e_now_ns env (tick bpf))
             (e_settime_ok env (tick bpf)) (btimers bpf) delay_us fn of
        (r, ts) \<Rightarrow> (r, (tock bpf)\<lparr>btimers := ts\<rparr>))"

definition bbdd_bpf_shwait_stop ::
  "bpf_env \<Rightarrow> bbdd_bpf \<Rightarrow> bbdd_bpf_session \<Rightarrow> (bbdd_bpf \<times> bbdd_bpf_session) option"
where
  "bbdd_bpf_shwait_stop env bpf bs =
     do {
       ptr \<leftarrow> bs_shwait bs;
       Some (timer_cancel env ptr (emit (Mon_debug ''shwait stop'' (bs_discr bs)) bpf),
             bs\<lparr>bs_shwait := None\<rparr>)
     }"

definition bbdd_bpf_shwait_create ::
  "bpf_env \<Rightarrow> bbdd_bpf \<Rightarrow> bbdd_d_session \<Rightarrow> bbdd_bpf_session
   \<Rightarrow> (bbdd_bpf \<times> (bpf_err, nat) res) option"
where
  "bbdd_bpf_shwait_create env bpf dsess bs =
     do {
       detect \<leftarrow> bbdd_bpf_session_detect_time_us (eff_data bs) (sess_remote dsess);
       if e_malloc env (tick bpf) = None then Some (tock bpf, Inl E_malloc)
       else (case timer_set env (ucast detect) (Shwait_cb (bs_discr bs)) (tock bpf) of
               (None, bpf1) \<Rightarrow> Some (bpf1, Inl E_timer)
             | (Some ptr, bpf1) \<Rightarrow> Some (bpf1, Inr ptr))
     }"

definition bbdd_bpf_shwait_start ::
  "bpf_env \<Rightarrow> bbdd_bpf \<Rightarrow> bbdd_d_session \<Rightarrow> bbdd_bpf_session
   \<Rightarrow> (bbdd_bpf \<times> bbdd_bpf_session \<times> (bpf_err, unit) res) option"
where
  "bbdd_bpf_shwait_start env bpf dsess bs =
     do {
       (bpf1, r) \<leftarrow> bbdd_bpf_shwait_create env
                     (emit (Mon_debug ''shwait start'' (discr (sess_local dsess))) bpf) dsess bs;
       (case r of
          Inl e \<Rightarrow> Some (bpf1, bs, Inl e)
        | Inr ptr \<Rightarrow> Some (bpf1, bs\<lparr>bs_shwait := Some ptr\<rparr>, Inr ()))
     }"

definition bbdd_bpf_user_bdata :: "bbdd_d_session \<Rightarrow> bbdd_bpf_session_data" where
  "bbdd_bpf_user_bdata dsess =
     \<lparr>bd_timing = timing (sess_local dsess), bd_shutdown = shutdown (sflags (sess_local dsess))\<rparr>"

definition bbdd_bpf_hold_stop ::
  "bpf_env \<Rightarrow> bbdd_bpf \<Rightarrow> bbdd_bpf_session \<Rightarrow> (bbdd_bpf \<times> bbdd_bpf_session) option"
where
  "bbdd_bpf_hold_stop env bpf bs =
     do {
       ptr \<leftarrow> bs_hold bs;
       Some (timer_cancel env ptr bpf, bs\<lparr>bs_hold := None\<rparr>)
     }"

definition bbdd_bpf_hold_create ::
  "bpf_env \<Rightarrow> bbdd_bpf \<Rightarrow> bbdd_d_session \<Rightarrow> bbdd_bpf_session \<Rightarrow> bbdd_bpf \<times> (bpf_err, nat) res"
where
  "bbdd_bpf_hold_create env bpf dsess bs =
     (if e_malloc env (tick bpf) = None then (tock bpf, Inl E_malloc)
      else case timer_set env (ucast (hold_time_us dsess)) (Hold_cb (bs_discr bs)) (tock bpf) of
             (None, bpf1) \<Rightarrow> (bpf1, Inl E_timer)
           | (Some ptr, bpf1) \<Rightarrow> (bpf1, Inr ptr))"

definition bbdd_bpf_hold_start ::
  "bpf_env \<Rightarrow> bbdd_bpf \<Rightarrow> bbdd_d_session \<Rightarrow> bbdd_bpf_session
   \<Rightarrow> bbdd_bpf \<times> bbdd_bpf_session \<times> (bpf_err, unit) res"
where
  "bbdd_bpf_hold_start env bpf dsess bs =
     (case bbdd_bpf_hold_create env bpf dsess bs of
        (bpf1, Inl e) \<Rightarrow> (bpf1, bs, Inl e)
      | (bpf1, Inr ptr) \<Rightarrow> (bpf1, bs\<lparr>bs_hold := Some ptr\<rparr>, Inr ()))"

subsection \<open>The poll sequence\<close>

definition local_down :: "bbdd_bfd_pkt_state \<Rightarrow> u8 \<Rightarrow> bbdd_d_session \<Rightarrow> bbdd_d_session" where
  "local_down st dg dsess =
     dsess\<lparr>sess_local := (sess_local dsess)\<lparr>sstate := \<lparr>state = st, diag = dg\<rparr>\<rparr>\<rparr>"

definition remote_down :: "u8 \<Rightarrow> bbdd_d_session \<Rightarrow> bbdd_d_session" where
  "remote_down dg dsess =
     dsess\<lparr>sess_remote := (sess_remote dsess)\<lparr>sstate := \<lparr>state = DOWN, diag = dg\<rparr>\<rparr>\<rparr>"

text \<open>The assignment \<open>*bdata = udata\<close> writes the structure that \<open>bdata\<close> selects.\<close>

definition set_current_bdata :: "bbdd_bpf_session_data \<Rightarrow> bbdd_bpf_session \<Rightarrow> bbdd_bpf_session" where
  "set_current_bdata u bs =
     (if bstate bs = STABLE then bs\<lparr>eff_data := u\<rparr> else bs\<lparr>dfr_data := u\<rparr>)"

text \<open>The decisions of the first half of \<open>bbdd_bpf_handle_session_update\<close>.\<close>

record update_plan =
  need_shwait :: bool
  stop_shwait :: bool
  need_poll :: bool
  apply_imm :: bool

definition plan_update ::
  "bbdd_bfd_pkt_state \<Rightarrow> bbdd_bpf_session_data \<Rightarrow> bbdd_bpf_session_data \<Rightarrow> update_plan"
where
  "plan_update st udata bdata =
     (if bd_shutdown udata > bd_shutdown bdata
      then \<lparr>need_shwait = True, stop_shwait = False, need_poll = False, apply_imm = False\<rparr>
      else
        let utm = bd_timing udata; btm = bd_timing bdata
        in \<lparr>need_shwait = False,
            stop_shwait = (bd_shutdown udata < bd_shutdown bdata),
            need_poll = (min_tx_us utm \<noteq> min_tx_us btm \<or> min_rx_us utm \<noteq> min_rx_us btm),
            apply_imm = \<not> (st = UP \<and> min_tx_us utm > min_tx_us btm)
                        \<and> \<not> (st = UP \<and> min_rx_us utm < min_rx_us btm)\<rparr>)"

text \<open>The \<open>STABLE\<close> case of the second switch, into which \<open>SHUTTING_DOWN\<close> falls
  through.\<close>

definition apply_stable ::
  "bpf_env \<Rightarrow> bbdd_bpf \<Rightarrow> bbdd_d_session \<Rightarrow> bbdd_bpf_session \<Rightarrow> bbdd_bpf_session_data \<Rightarrow> update_plan
   \<Rightarrow> (bbdd_bpf \<times> bbdd_d_session \<times> bbdd_bpf_session \<times> (bpf_err, unit) res) option"
where
  "apply_stable env bpf dsess bs udata pl =
     (let dsess1 = (if stop_shwait pl then local_down DOWN DIAG_DOWN dsess else dsess);
          d = discr (sess_local dsess)
      in if need_poll pl
         then Some (emit (Mon_debug ''timing change, await final'' d) bpf, dsess1,
                    bs\<lparr>dfr_data := udata, bstate := AWAIT_FINAL\<rparr>, Inr ())
         else if need_shwait pl
         then do {
           (bpf1, bs1, r) \<leftarrow> bbdd_bpf_shwait_start env bpf dsess1 bs;
           (case r of
              Inl e \<Rightarrow> Some (bpf1, dsess1, bs1, Inl e)
            | Inr _ \<Rightarrow>
                Some (emit (Mon_debug ''shutdown change, await timer'' d) bpf1,
                      remote_down DIAG_DOWN (local_down ADMINDOWN DIAG_ADMIN_DOWN dsess1),
                      bs1\<lparr>dfr_data := udata, bstate := SHUTTING_DOWN\<rparr>, Inr ()))
         }
         else Some (bpf, dsess1, bs, Inr ()))"

definition bbdd_bpf_handle_session_update ::
  "bpf_env \<Rightarrow> bbdd_bpf \<Rightarrow> bbdd_d_session \<Rightarrow> bbdd_bpf_session
   \<Rightarrow> (bbdd_bpf \<times> bbdd_d_session \<times> bbdd_bpf_session \<times> (bpf_err, unit) res) option"
where
  "bbdd_bpf_handle_session_update env bpf dsess bs =
     do {
       let udata = bbdd_bpf_user_bdata dsess;
       bdata \<leftarrow> current_bdata bs;
       let pl = plan_update (state (sstate (sess_local dsess))) udata bdata;
       let bs1 = (if apply_imm pl then set_current_bdata udata bs else bs);
       (case bstate bs1 of
          ON_HOLD \<Rightarrow> None
        | SHUTTING_DOWN \<Rightarrow>
            if stop_shwait pl
            then do {
              (bpf2, bs2) \<leftarrow> bbdd_bpf_shwait_stop env bpf bs1;
              apply_stable env bpf2 dsess (bs2\<lparr>bstate := AWAIT_FINAL\<rparr>) udata pl
            }
            else apply_stable env bpf dsess bs1 udata pl
        | STABLE \<Rightarrow> apply_stable env bpf dsess bs1 udata pl
        | _ \<Rightarrow>
            if need_poll pl \<or> need_shwait pl \<or> stop_shwait pl
            then Some (emit (Mon_debug ''queueing change'' (discr (sess_local dsess))) bpf, dsess,
                       bs1\<lparr>qd_change := True\<rparr>, Inr ())
            else Some (bpf, dsess, bs1, Inr ()))
     }"

definition bbdd_bpf_handle_packet_got_non_final ::
  "bpf_env \<Rightarrow> bbdd_bpf \<Rightarrow> bbdd_d_session \<Rightarrow> bbdd_bpf_session
   \<Rightarrow> (bbdd_bpf \<times> bbdd_d_session \<times> bbdd_bpf_session) option"
where
  "bbdd_bpf_handle_packet_got_non_final env bpf dsess bs =
     do {
       let bs1 = bs\<lparr>eff_data := dfr_data bs, bstate := STABLE\<rparr>;
       let d = discr (sess_local dsess);
       (bpf2, dsess2, bs2) \<leftarrow>
         (if qd_change bs1
          then do {
            (bpf', dsess', bs', r) \<leftarrow>
              bbdd_bpf_handle_session_update env (emit (Mon_debug ''queued change'' d) bpf) dsess
                (bs1\<lparr>qd_change := False\<rparr>);
            (case r of
               Inl e \<Rightarrow> Some (emit (Mon_err e) bpf', dsess', bs')
             | Inr _ \<Rightarrow> Some (bpf', dsess', bs'))
          }
          else Some (emit (Mon_debug ''stable'' d) bpf, dsess, bs1));
       (bpf3, bs3) \<leftarrow> bbdd_bpf_session_call_update env bpf2 dsess2 bs2;
       Some (bpf3, dsess2, bs3)
     }"

end
