(* ===== verification/Bpf_Handlers.thy ===== *)
theory Bpf_Handlers
  imports Bpf_Session
begin

text \<open>
  The event handlers of \<open>bbdd-bpf.c\<close>: packets and timeouts reported by the kernel
  programs through the ring buffer, expired hold and shutdown timers, the drain
  of the deferred-transmission queue, and the calls of the daemon that create,
  update and delete sessions.  \<open>world\<close> adds the daemon's session directory,
  which the handlers reach through \<open>bbdd_bpf_cbs\<close>.
\<close>

record world =
  wbpf :: bbdd_bpf
  wsdir :: bbdd_sess_dir

definition put_dsess :: "bbdd_d_session \<Rightarrow> bbdd_sess_dir \<Rightarrow> bbdd_sess_dir" where
  "put_dsess ds sdir = kset skey ds sdir"

subsection \<open>Received packets\<close>

text \<open>The state transition of a received packet (lines 1507--1557).\<close>

definition fsm_step :: "bbdd_d_session \<Rightarrow> bbdd_d_session" where
  "fsm_step dsess =
     (let lst = state (sstate (sess_local dsess));
          rst = state (sstate (sess_remote dsess))
      in if rst = ADMINDOWN
         then (if lst \<noteq> DOWN then local_down DOWN DIAG_DOWN dsess else dsess)
         else
           (case lst of
              ADMINDOWN \<Rightarrow> dsess
            | DOWN \<Rightarrow> if rst = DOWN then local_down INIT DIAG_NOTHING dsess
                      else if rst = INIT then local_down UP DIAG_NOTHING dsess
                      else dsess
            | INIT \<Rightarrow> if rst = INIT \<or> rst = UP then local_down UP DIAG_NOTHING dsess
                      else dsess
            | UP \<Rightarrow> if rst = DOWN then local_down DOWN DIAG_DOWN dsess else dsess))"

text \<open>The answer to a packet with the Poll bit (lines 1563--1588).\<close>

definition answer_poll ::
  "bpf_env \<Rightarrow> bbdd_bpf \<Rightarrow> bbdd_d_session \<Rightarrow> bbdd_bpf_session \<Rightarrow> bbdd_bpf option"
where
  "answer_poll env bpf dsess bs =
     (let d = discr (sess_local dsess)
      in if \<not> bbdd_bpf_tx_have_capacity bpf
         then let bpf1 = emit (Mon_debug ''Queueing final packet'' d) bpf
              in case bbdd_tx_enqueue (txq bpf1) (slotmem bpf1) (Final_slot (bs_discr bs)) True d
                        (veth_tx_ifindex bpf1) BIT_FINAL of
                   (fresh, tx', ss') \<Rightarrow>
                     Some (bbdd_bpf_tx_pollout_arm env
                       (bpf1\<lparr>txq := tx', slotmem := ss',
                             user_diag := (if fresh then bump Sk_enq_count (user_diag bpf1)
                                           else user_diag bpf1)\<rparr>))
         else do {
           (bpf1, r) \<leftarrow> bbdd_bpf_session_inject_pkt env
                          (emit (Mon_debug ''Injecting final packet'' d) bpf) dsess bs
                          (veth_tx_ifindex bpf) BIT_FINAL;
           (case r of Inl e \<Rightarrow> Some (emit (Mon_err e) bpf1) | Inr _ \<Rightarrow> Some bpf1)
         })"

text \<open>The end of the handler: the poll-sequence machine (lines 1590--1608).\<close>

definition packet_poll ::
  "bpf_env \<Rightarrow> bbdd_bpf \<Rightarrow> bbdd_d_session \<Rightarrow> bbdd_bpf_session \<Rightarrow> bool
   \<Rightarrow> (bbdd_bpf \<times> bbdd_d_session \<times> bbdd_bpf_session) option"
where
  "packet_poll env bpf dsess bs final_recvd =
     (case bstate bs of
        ON_HOLD \<Rightarrow> None
      | STABLE \<Rightarrow> Some (bpf, dsess, bs)
      | SHUTTING_DOWN \<Rightarrow> Some (bpf, dsess, bs)
      | AWAIT_FINAL \<Rightarrow>
          if final_recvd
          then do {
            (bpf1, bs1) \<leftarrow> bbdd_bpf_handle_packet_got_final env bpf dsess bs;
            Some (bpf1, dsess, bs1)
          }
          else Some (bpf, dsess, bs)
      | AWAIT_NON_FINAL \<Rightarrow>
          if \<not> final_recvd then bbdd_bpf_handle_packet_got_non_final env bpf dsess bs
          else Some (bpf, dsess, bs))"

text \<open>What happens to a packet that parsed: \<open>old\<close> is the session before the packet,
  \<open>dsess\<close> has the remote data of the packet (lines 1501--1608).\<close>

definition packet_accepted ::
  "bpf_env \<Rightarrow> bbdd_bpf \<Rightarrow> bbdd_d_session \<Rightarrow> bbdd_d_session \<Rightarrow> bbdd_bpf_session \<Rightarrow> bool \<Rightarrow> bool
   \<Rightarrow> (bbdd_bpf \<times> bbdd_d_session \<times> bbdd_bpf_session) option"
where
  "packet_accepted env bpf old dsess bs poll_recvd final_recvd =
     do {
       (bpf1, r) \<leftarrow> bbdd_bpf_inject_rearm_packet env bpf dsess bs;
       let bpf2 = (case r of Inl e \<Rightarrow> emit (Mon_err e) bpf1 | Inr _ \<Rightarrow> bpf1);
       let dsess2 = fsm_step dsess;
       (bpf3, bs3) \<leftarrow>
         (if sess_local dsess2 \<noteq> sess_local old \<or> sess_remote dsess2 \<noteq> sess_remote old
          then bbdd_bpf_session_state_changed env bpf2 dsess2 bs
          else Some (bpf2, bs));
       bpf4 \<leftarrow> (if poll_recvd then answer_poll env bpf3 dsess2 bs3 else Some bpf3);
       packet_poll env bpf4 dsess2 bs3 final_recvd
     }"

definition count_rx :: "u32 \<Rightarrow> bbdd_bpf_session \<Rightarrow> bbdd_bpf_session" where
  "count_rx wire_len bs =
     (let st = bump Rx_packets (bs_stats bs)
      in bs\<lparr>bs_stats := st(Rx_bytes := st Rx_bytes + ucast wire_len)\<rparr>)"

definition count_diag :: "session_diag \<Rightarrow> bbdd_bpf_session \<Rightarrow> bbdd_bpf_session" where
  "count_diag c bs = bs\<lparr>bs_diag_stats := bump c (bs_diag_stats bs)\<rparr>"

definition handle_packet_sess ::
  "bpf_env \<Rightarrow> bbdd_bpf \<Rightarrow> bbdd_d_session \<Rightarrow> bbdd_bpf_session \<Rightarrow> bbdd_bfd_pkt \<Rightarrow> u32 \<Rightarrow> u8
   \<Rightarrow> (bbdd_bpf \<times> bbdd_d_session \<times> bbdd_bpf_session) option"
where
  "handle_packet_sess env bpf dsess bs pkt wire_len ttl =
     (if bstate bs = ON_HOLD \<or> bstate bs = SHUTTING_DOWN then Some (bpf, dsess, bs)
      else
        let bs1 = count_rx wire_len bs
        in if state (sstate (sess_local dsess)) = ADMINDOWN
           then Some (bpf, dsess, count_diag Rx_admin_down bs1)
           else if sttl dsess > ttl
           then Some (bpf, dsess, count_diag Rx_ttl_low bs1)
           else
             (case bbdd_bpf_parse_packet (bs_diag_stats bs1) pkt (sess_remote dsess) of
                (st, Inl _) \<Rightarrow> Some (bpf, dsess, bs1\<lparr>bs_diag_stats := st\<rparr>)
              | (st, Inr (remote', poll_recvd, final_recvd)) \<Rightarrow>
                  packet_accepted env bpf dsess (dsess\<lparr>sess_remote := remote'\<rparr>)
                    (bs1\<lparr>bs_diag_stats := st\<rparr>) poll_recvd final_recvd))"

definition bbdd_bpf_handle_packet ::
  "bpf_env \<Rightarrow> world \<Rightarrow> bbdd_d_session option \<Rightarrow> bbdd_bfd_pkt \<Rightarrow> u32 \<Rightarrow> u8 \<Rightarrow> world option"
where
  "bbdd_bpf_handle_packet env w mdsess pkt wire_len ttl =
     (case mdsess of
        None \<Rightarrow> Some w
      | Some dsess \<Rightarrow> do {
          bs \<leftarrow> bbdd_bpf_sdir_get_session (wbpf w) (discr (sess_local dsess));
          (bpf', dsess', bs') \<leftarrow> handle_packet_sess env (wbpf w) dsess bs pkt wire_len ttl;
          Some (w\<lparr>wbpf := put_bsess bs' bpf', wsdir := put_dsess dsess' (wsdir w)\<rparr>)
        })"

definition bbdd_bpf_rb_handle_unx_pkt ::
  "bpf_env \<Rightarrow> world \<Rightarrow> u32 \<Rightarrow> u8 \<Rightarrow> bbdd_bfd_pkt \<Rightarrow> world option"
where
  "bbdd_bpf_rb_handle_unx_pkt env w wire_len ttl pkt =
     bbdd_bpf_handle_packet env w
       (bbdd_sess_dir_get_session (wsdir w) (ntoh32 (your_disc pkt))) pkt wire_len ttl"

subsection \<open>Packets without a discriminator\<close>

record bbdd_bpf_match_digest =
  dg_ifindex :: u32
  dg_table :: u32
  dg_ttl :: u8
  dg_multihop :: bool
  dg_my_disc :: u32
  dg_src :: bbdd_sockaddr
  dg_dst :: bbdd_sockaddr

definition bbdd_bpf_addr_to_sockaddr :: "u16 \<Rightarrow> bbdd_bpf_addr \<Rightarrow> (bpf_err, bbdd_sockaddr) res" where
  "bbdd_bpf_addr_to_sockaddr ethtype a =
     (if ethtype = 0x0800
      then Inr (zero_sockaddr\<lparr>sa_family := AF_INET, sin_addr := fst a\<rparr>)
      else if ethtype = 0x86DD
      then Inr (zero_sockaddr\<lparr>sa_family := AF_INET6, sin6_addr := a\<rparr>)
      else Inl (E_ethtype ethtype))"

text \<open>\<open>get_ifinfo\<close> is the netlink query for the VRF table of an interface (0 when
  the interface is no VRF), \<open>match_session\<close> the callback of the daemon.\<close>

type_synonym ifinfo_fn = "u32 \<Rightarrow> u32 option"
type_synonym match_fn =
  "bbdd_sess_dir \<Rightarrow> bbdd_bpf_match_digest \<Rightarrow> (bpf_err, nat \<times> bbdd_d_session option) res"

definition bbdd_bpf_rb_handle_discr_0 ::
  "bpf_env \<Rightarrow> ifinfo_fn \<Rightarrow> match_fn \<Rightarrow> world \<Rightarrow> bbdd_bpf_rb_elem_rx_discr_0 \<Rightarrow> world option"
where
  "bbdd_bpf_rb_handle_discr_0 env get_ifinfo match_session w el =
     (let bail = (\<lambda>e. Some (w\<lparr>wbpf := emit (Mon_err e) (wbpf w)\<rparr>))
      in case get_ifinfo (el_ifindex el) of
           None \<Rightarrow> bail E_netlink
         | Some table \<Rightarrow>
             (case bbdd_bpf_addr_to_sockaddr (el_ethtype el) (el_saddr el) of
                Inl e \<Rightarrow> bail e
              | Inr sa \<Rightarrow>
                  (case bbdd_bpf_addr_to_sockaddr (el_ethtype el) (el_daddr el) of
                     Inl e \<Rightarrow> bail e
                   | Inr da \<Rightarrow>
                       (case match_session (wsdir w)
                               \<lparr>dg_ifindex = (if table \<noteq> 0 then 0 else el_ifindex el),
                                dg_table = table, dg_ttl = el_ttl el,
                                dg_multihop = el_multihop el,
                                dg_my_disc = ntoh32 (my_disc (el_packet el)),
                                dg_src = sa, dg_dst = da\<rparr> of
                          Inl e \<Rightarrow> bail e
                        | Inr (nmatch, mdsess) \<Rightarrow>
                            if nmatch \<noteq> 1
                            then Some (w\<lparr>wbpf := (wbpf w)\<lparr>user_diag :=
                                   bump Rx_no_unique_session (user_diag (wbpf w))\<rparr>\<rparr>)
                            else if mdsess = None then None
                            else bbdd_bpf_handle_packet env w mdsess (el_packet el)
                                   (el_wire_len el) (el_ttl el)))))"

subsection \<open>Timeouts\<close>

definition timeout_sess ::
  "bpf_env \<Rightarrow> bbdd_bpf \<Rightarrow> bbdd_d_session \<Rightarrow> bbdd_bpf_session
   \<Rightarrow> (bbdd_bpf \<times> bbdd_d_session \<times> bbdd_bpf_session) option"
where
  "timeout_sess env bpf dsess bs =
     do {
       (bpf1, dsess1, bs1) \<leftarrow>
         (case bstate bs of
            ON_HOLD \<Rightarrow> None
          | STABLE \<Rightarrow> Some (bpf, dsess, bs)
          | SHUTTING_DOWN \<Rightarrow> do {
              (bpf', bs') \<leftarrow> bbdd_bpf_shwait_stop env bpf bs;
              bbdd_bpf_handle_packet_got_non_final env bpf' dsess bs'
            }
          | _ \<Rightarrow> bbdd_bpf_handle_packet_got_non_final env bpf dsess bs);
       let st = state (sstate (sess_local dsess1));
       if st = INIT \<or> st = UP
       then do {
         let dsess2 = remote_down DIAG_TIME_EXPIRED (local_down DOWN DIAG_TIME_EXPIRED dsess1);
         let dsess3 = dsess2\<lparr>sess_remote :=
                        (sess_remote dsess2)\<lparr>discr := user_remote_discr dsess2\<rparr>\<rparr>;
         (bpf2, bs2) \<leftarrow> bbdd_bpf_session_state_changed env bpf1 dsess3 bs1;
         Some (bpf2, dsess3, bs2)
       }
       else Some (bpf1, dsess1, bs1)
     }"

definition bbdd_bpf_rb_handle_timeout :: "bpf_env \<Rightarrow> world \<Rightarrow> u32 \<Rightarrow> world option" where
  "bbdd_bpf_rb_handle_timeout env w d =
     (case bbdd_sess_dir_get_session (wsdir w) d of
        None \<Rightarrow> Some w
      | Some dsess \<Rightarrow> do {
          bs \<leftarrow> bbdd_bpf_sdir_get_session (wbpf w) d;
          (bpf', dsess', bs') \<leftarrow> timeout_sess env (wbpf w) dsess bs;
          Some (w\<lparr>wbpf := put_bsess bs' bpf', wsdir := put_dsess dsess' (wsdir w)\<rparr>)
        })"

definition bbdd_bpf_rb_handle_no_neigh :: "bbdd_bpf \<Rightarrow> u32 \<Rightarrow> u16 \<Rightarrow> bbdd_bpf_addr \<Rightarrow> bbdd_bpf" where
  "bbdd_bpf_rb_handle_no_neigh bpf ifx ethtype a =
     (case bbdd_bpf_addr_to_sockaddr ethtype a of
        Inl e \<Rightarrow> emit (Mon_err e) bpf
      | Inr sa \<Rightarrow> emit (Refresh_neigh ifx sa) bpf)"

fun bbdd_bpf_rb_handle ::
  "bpf_env \<Rightarrow> ifinfo_fn \<Rightarrow> match_fn \<Rightarrow> world \<Rightarrow> bbdd_bpf_rb_elem \<Rightarrow> world option"
where
  "bbdd_bpf_rb_handle env gi ms w (RB_TX_NO_NEIGH ifx et a) =
     Some (w\<lparr>wbpf := bbdd_bpf_rb_handle_no_neigh (wbpf w) ifx et a\<rparr>)"
| "bbdd_bpf_rb_handle env gi ms w (RB_RX_DISCR_0 el) = bbdd_bpf_rb_handle_discr_0 env gi ms w el"
| "bbdd_bpf_rb_handle env gi ms w (RB_RX_UNX_PKT wl ttl p) = bbdd_bpf_rb_handle_unx_pkt env w wl ttl p"
| "bbdd_bpf_rb_handle env gi ms w (RB_RX_TIMEOUT d) = bbdd_bpf_rb_handle_timeout env w d"

subsection \<open>Expired timers\<close>

text \<open>The callbacks dereference the session that their data points to; a session
  that is no longer there is a use of freed memory (\<open>None\<close>).\<close>

definition bbdd_bpf_shwait_timer_cb :: "bpf_env \<Rightarrow> u32 \<Rightarrow> world \<Rightarrow> (bool \<times> world) option" where
  "bbdd_bpf_shwait_timer_cb env d w =
     do {
       dsess \<leftarrow> bbdd_sess_dir_get_session (wsdir w) d;
       bs \<leftarrow> bbdd_bpf_sdir_get_session (wbpf w) d;
       (bpf1, bs1) \<leftarrow> bbdd_bpf_shwait_stop env (wbpf w) bs;
       (bpf2, dsess2, bs2) \<leftarrow> bbdd_bpf_handle_packet_got_non_final env bpf1 dsess bs1;
       Some (True, w\<lparr>wbpf := put_bsess bs2 bpf2, wsdir := put_dsess dsess2 (wsdir w)\<rparr>)
     }"

definition bbdd_bpf_hold_timer_cb :: "bpf_env \<Rightarrow> u32 \<Rightarrow> world \<Rightarrow> (bool \<times> world) option" where
  "bbdd_bpf_hold_timer_cb env d w =
     do {
       dsess \<leftarrow> bbdd_sess_dir_get_session (wsdir w) d;
       bs \<leftarrow> bbdd_bpf_sdir_get_session (wbpf w) d;
       let bs1 = bs\<lparr>eff_data := bbdd_bpf_user_bdata dsess, bstate := STABLE\<rparr>;
       let dsess1 = dsess\<lparr>hold_time_us := 0\<rparr>;
       (bpf2, bs2) \<leftarrow> bbdd_bpf_session_state_changed env (wbpf w) dsess1 bs1;
       (bpf3, bs3) \<leftarrow> bbdd_bpf_hold_stop env bpf2 bs2;
       Some (True, w\<lparr>wbpf := put_bsess bs3 bpf3, wsdir := put_dsess dsess1 (wsdir w)\<rparr>)
     }"

fun run_timer :: "bpf_env \<Rightarrow> timer_fn \<Rightarrow> world \<Rightarrow> (bool \<times> world) option" where
  "run_timer env (Shwait_cb d) w = bbdd_bpf_shwait_timer_cb env d w"
| "run_timer env (Hold_cb d) w = bbdd_bpf_hold_timer_cb env d w"

subsection \<open>Draining the queue\<close>

definition drain_slot :: "bpf_env \<Rightarrow> world \<Rightarrow> slot_ref \<Rightarrow> world option" where
  "drain_slot env w k =
     (let bpf = wbpf w; slot = slotmem bpf k
      in case bbdd_tx_unlink (txq bpf) (slotmem bpf) k of
           (tx1, ss1) \<Rightarrow> do {
             let bpf1 = bpf\<lparr>txq := tx1, slotmem := ss1\<rparr>;
             dsess \<leftarrow> bbdd_sess_dir_get_session (wsdir w) (sl_discr slot);
             bs \<leftarrow> bbdd_bpf_sdir_get_session bpf1 (sl_discr slot);
             (bpf2, bs2, r) \<leftarrow>
               (if is_final slot
                then do {
                  (b, r) \<leftarrow> bbdd_bpf_session_inject_pkt env bpf1 dsess bs (sl_tx_ifindex slot)
                              (sl_bfd_flags slot);
                  Some (b, bs, r)
                }
                else session_update env bpf1 dsess bs);
             let bpf3 = (case r of Inl e \<Rightarrow> emit (Mon_err e) bpf2 | Inr _ \<Rightarrow> bpf2);
             let bpf4 = bpf3\<lparr>user_diag := bump Sk_deq_count (user_diag bpf3)\<rparr>;
             Some (w\<lparr>wbpf := put_bsess bs2 bpf4\<rparr>)
           })"

partial_function (option) drain_loop :: "bpf_env \<Rightarrow> world \<Rightarrow> world option" where
  "drain_loop env w =
     (case bbdd_tx_peek (txq (wbpf w)) of
        None \<Rightarrow> Some w
      | Some k \<Rightarrow>
          if \<not> bbdd_bpf_tx_have_capacity (wbpf w) then Some w
          else (case drain_slot env w k of None \<Rightarrow> None | Some w' \<Rightarrow> drain_loop env w'))"

definition bbdd_bpf_tx_drain :: "bpf_env \<Rightarrow> world \<Rightarrow> world option" where
  "bbdd_bpf_tx_drain env w =
     do {
       w1 \<leftarrow> drain_loop env w;
       Some (if \<not> bbdd_tx_pending (txq (wbpf w1))
             then w1\<lparr>wbpf := bbdd_bpf_tx_pollout_disarm (wbpf w1)\<rparr> else w1)
     }"

subsection \<open>Calls of the daemon\<close>

definition zero_bdata :: bbdd_bpf_session_data where
  "zero_bdata = \<lparr>bd_timing = \<lparr>detect_mult = 0, min_tx_us = 0, min_rx_us = 0\<rparr>, bd_shutdown = False\<rparr>"

definition zero_bsession :: "u32 \<Rightarrow> bbdd_bpf_session" where
  "zero_bsession d =
     \<lparr>bs_discr = d, bs_gen_id = 0, bstate = ON_HOLD, eff_data = zero_bdata, dfr_data = zero_bdata,
      qd_change = False, bs_shwait = None, bs_hold = None, timer_period_us = 0,
      bs_stats = zero_session_stats, bs_diag_stats = (\<lambda>_. 0)\<rparr>"

definition zero_slot :: bbdd_tx_slot where
  "zero_slot = \<lparr>sl_discr = 0, sl_tx_ifindex = 0, sl_bfd_flags = 0, linked = False, is_final = False\<rparr>"

definition bbdd_bpf_session_add ::
  "bpf_env \<Rightarrow> bbdd_bpf \<Rightarrow> bbdd_d_session \<Rightarrow> (bbdd_bpf \<times> (bpf_err, unit) res) option"
where
  "bbdd_bpf_session_add env bpf dsess =
     (if e_malloc env (tick bpf) = None then Some (tock bpf, Inl E_malloc)
      else
        let d = discr (sess_local dsess);
            bpf0 = (tock bpf)\<lparr>slotmem := (slotmem bpf)(Final_slot d := zero_slot,
                                                       Periodic_slot d := zero_slot)\<rparr>
        in case bbdd_bpf_hold_start env bpf0 dsess (zero_bsession d) of
             (bpf1, bs1, Inl e) \<Rightarrow> Some (bpf1, Inl e)
           | (bpf1, bs1, Inr _) \<Rightarrow>
               (case bbdd_bpf_tx_resize env bpf1 True of
                  (bpf2, Inl e) \<Rightarrow> do {
                    (bpf3, _) \<leftarrow> bbdd_bpf_hold_stop env bpf2 bs1;
                    Some (bpf3, Inl e)
                  }
                | (bpf2, Inr _) \<Rightarrow>
                    (case bbdd_bpf_session_conf_add env bpf2 dsess bs1 of
                       (bpf3, Inl e) \<Rightarrow> do {
                         (bpf4, _) \<leftarrow> bbdd_bpf_hold_stop env bpf3 bs1;
                         Some (bpf4, Inl e)
                       }
                     | (bpf3, Inr _) \<Rightarrow> Some (bpf3\<lparr>bsdir := kadd bs1 (bsdir bpf3)\<rparr>, Inr ()))))"

definition bbdd_bpf_session_is_on_hold :: "bbdd_bpf \<Rightarrow> bbdd_d_session \<Rightarrow> bool" where
  "bbdd_bpf_session_is_on_hold bpf dsess =
     (case bbdd_bpf_sdir_get_session bpf (discr (sess_local dsess)) of
        None \<Rightarrow> False
      | Some bs \<Rightarrow> bstate bs = ON_HOLD)"

definition bbdd_bpf_session_update ::
  "bpf_env \<Rightarrow> bbdd_bpf \<Rightarrow> bbdd_d_session
   \<Rightarrow> (bbdd_bpf \<times> bbdd_d_session \<times> (bpf_err, unit) res) option"
where
  "bbdd_bpf_session_update env bpf dsess =
     (case bbdd_bpf_sdir_get_session bpf (discr (sess_local dsess)) of
        None \<Rightarrow> Some (bpf, dsess, Inl (E_no_session (discr (sess_local dsess))))
      | Some bs \<Rightarrow>
          if bstate bs = ON_HOLD then Some (bpf, dsess, Inr ())
          else do {
            (bpf1, dsess1, bs1, r) \<leftarrow> bbdd_bpf_handle_session_update env bpf dsess bs;
            (case r of
               Inl e \<Rightarrow> Some (put_bsess bs1 bpf1, dsess1, Inl e)
             | Inr _ \<Rightarrow> do {
                 (bpf2, bs2, r2) \<leftarrow> session_update env bpf1 dsess1 bs1;
                 Some (put_bsess bs2 bpf2, dsess1, r2)
               })
          })"

definition session_del :: "bpf_env \<Rightarrow> bbdd_bpf \<Rightarrow> bbdd_bpf_session \<Rightarrow> bbdd_bpf option" where
  "session_del env bpf bs =
     do {
       (bpf1, bs1) \<leftarrow> (if bs_hold bs \<noteq> None then bbdd_bpf_hold_stop env bpf bs else Some (bpf, bs));
       (bpf2, bs2) \<leftarrow> (if bs_shwait bs1 \<noteq> None then bbdd_bpf_shwait_stop env bpf1 bs1
                       else Some (bpf1, bs1));
       let d = bs_discr bs;
       let (tx3, ss3) = bbdd_tx_unlink (txq bpf2) (slotmem bpf2) (Final_slot d);
       let (tx4, ss4) = bbdd_tx_unlink tx3 ss3 (Periodic_slot d);
       let bpf4 = bpf2\<lparr>txq := tx4, slotmem := ss4, bsdir := kdel bs_discr d (bsdir bpf2)\<rparr>;
       let bpf5 = bbdd_bpf_session_conf_delete bpf4 d;
       (case bbdd_bpf_tx_resize env bpf5 False of
          (bpf6, Inl e) \<Rightarrow> Some (emit (Mon_err e) bpf6)
        | (bpf6, Inr _) \<Rightarrow> Some bpf6)
     }"

definition bbdd_bpf_session_del :: "bpf_env \<Rightarrow> bbdd_bpf \<Rightarrow> bbdd_d_session \<Rightarrow> bbdd_bpf option" where
  "bbdd_bpf_session_del env bpf dsess =
     (case bbdd_bpf_sdir_get_session bpf (discr (sess_local dsess)) of
        None \<Rightarrow> Some bpf
      | Some bs \<Rightarrow> session_del env bpf bs)"

text \<open>The loop of \<open>bbdd_bpf_destroy\<close> over the sessions.\<close>

fun destroy_sessions :: "bpf_env \<Rightarrow> bbdd_bpf \<Rightarrow> bbdd_bpf_session list \<Rightarrow> bbdd_bpf option" where
  "destroy_sessions env bpf [] = Some bpf"
| "destroy_sessions env bpf (bs # rest) =
     do {
       bpf1 \<leftarrow> session_del env bpf bs;
       destroy_sessions env bpf1 rest
     }"

end
