(* ===== verification/Bpf_Safety.thy ===== *)
theory Bpf_Safety
  imports Bpf_Handlers
begin

text \<open>
  The handlers of \<open>bbdd-bpf.c\<close> never abort.  \<open>sess_ok\<close> is the invariant of one
  session, \<open>world_ok\<close> that of all sessions, their slots in the deferred queue and
  the two session tables; the lemmas show that every handler returns from a state
  with the invariant to a state with the invariant, and what it leaves alone
  (\<open>core_eq\<close>, \<open>upd_frame\<close>, \<open>sess_frame\<close>).
\<close>

subsection \<open>One session\<close>

text \<open>What transmission and configuration leave alone.\<close>

definition core_eq :: "bbdd_bpf \<Rightarrow> bbdd_bpf \<Rightarrow> bool" where
  "core_eq b b' \<longleftrightarrow> txq b' = txq b \<and> slotmem b' = slotmem b \<and> bsdir b' = bsdir b
     \<and> btimers b' = btimers b \<and> tx_capacity b' = tx_capacity b \<and> prog_diag b' = prog_diag b
     \<and> veth_rx_ifindex b' = veth_rx_ifindex b \<and> veth_tx_ifindex b' = veth_tx_ifindex b
     \<and> data_hash b' = data_hash b \<and> tx_pollout_registered b' = tx_pollout_registered b
     \<and> (\<forall>c. c \<noteq> Sk_sent_count \<longrightarrow> user_diag b' c = user_diag b c)"

lemma core_eq_refl [simp, intro!]: "core_eq b b"
  by (simp add: core_eq_def)

lemma core_eq_trans [trans]: "core_eq a b \<Longrightarrow> core_eq b c \<Longrightarrow> core_eq a c"
  by (simp add: core_eq_def)

lemma core_eq_emit [simp]: "core_eq a (emit n b) = core_eq a b" "core_eq (emit n a) b = core_eq a b"
  by (simp_all add: core_eq_def)

lemma send_core: "bbdd_bpf_session_send env b fr = (b', r) \<Longrightarrow> core_eq b b'"
  by (auto simp: bbdd_bpf_session_send_def core_eq_def bump_def split: if_splits)

lemma inject_core: "bbdd_bpf_session_inject_pkt env b ds bs i f = Some (b', r) \<Longrightarrow> core_eq b b'"
  by (auto simp: bbdd_bpf_session_inject_pkt_def Let_def bind_eq_Some_conv dest: send_core
      split: if_splits)

lemma rearm_core: "bbdd_bpf_inject_rearm_packet env b ds bs = Some (b', r) \<Longrightarrow> core_eq b b'"
  unfolding bbdd_bpf_inject_rearm_packet_def by (drule inject_core) simp

lemma conf_update_core: "bbdd_bpf_session_conf_update env b ds bs ca = (b', r) \<Longrightarrow> core_eq b b'"
  by (auto simp: bbdd_bpf_session_conf_update_def Let_def core_eq_def split: if_splits)

definition mult_ok :: "bbdd_bpf_session_data \<Rightarrow> bool" where
  "mult_ok d \<longleftrightarrow> detect_mult (bd_timing d) \<noteq> 0"

definition sess_ok :: "bbdd_d_session \<Rightarrow> bbdd_bpf_session \<Rightarrow> bool" where
  "sess_ok ds bs \<longleftrightarrow>
     discr (sess_local ds) = bs_discr bs
     \<and> detect_mult (timing (sess_local ds)) \<noteq> 0
     \<and> detect_mult (timing (sess_remote ds)) \<noteq> 0
     \<and> (bstate bs \<noteq> ON_HOLD \<longrightarrow> mult_ok (eff_data bs))
     \<and> (bstate bs \<in> {AWAIT_FINAL, AWAIT_NON_FINAL, SHUTTING_DOWN} \<longrightarrow> mult_ok (dfr_data bs))
     \<and> (bstate bs = SHUTTING_DOWN \<longrightarrow> bs_shwait bs \<noteq> None)
     \<and> (bstate bs = ON_HOLD \<longrightarrow> bs_hold bs \<noteq> None)"

lemma current_bdata_ok:
  assumes "sess_ok ds bs" "bstate bs \<noteq> ON_HOLD"
  obtains bd where "current_bdata bs = Some bd" "mult_ok bd"
  using assms by (cases "bstate bs") (auto simp: sess_ok_def current_bdata_def)

lemma inject_total:
  assumes "current_bdata bs = Some bd" "mult_ok bd"
  shows "\<exists>b' r. bbdd_bpf_session_inject_pkt env b ds bs i f = Some (b', r)"
  using assms by (simp add: bbdd_bpf_session_inject_pkt_def Let_def mult_ok_def)

lemma rearm_total:
  assumes "current_bdata bs = Some bd" "mult_ok bd"
  shows "\<exists>b' r. bbdd_bpf_inject_rearm_packet env b ds bs = Some (b', r)"
  using inject_total[OF assms] by (simp add: bbdd_bpf_inject_rearm_packet_def)

lemma current_bdata_upd [simp]:
  "current_bdata (bs\<lparr>bs_gen_id := g\<rparr>) = current_bdata bs"
  "current_bdata (bs\<lparr>timer_period_us := t\<rparr>) = current_bdata bs"
  "current_bdata (bs\<lparr>bs_stats := st\<rparr>) = current_bdata bs"
  "current_bdata (bs\<lparr>bs_diag_stats := dgs\<rparr>) = current_bdata bs"
  by (simp_all add: current_bdata_def split: bbdd_bpf_session_state.split)

lemma inject_flags_total: "bstate bs \<noteq> ON_HOLD \<Longrightarrow> \<exists>fl. bbdd_bpf_get_inject_bfd_flags ds bs = Some fl"
  by (cases "bstate bs") (simp_all add: bbdd_bpf_get_inject_bfd_flags_def)

text \<open>An update changes of the session only the generation and the timer period.\<close>

definition same_conf :: "bbdd_bpf_session \<Rightarrow> bbdd_bpf_session \<Rightarrow> bool" where
  "same_conf bs bs' \<longleftrightarrow> (\<exists>g t. bs' = bs\<lparr>bs_gen_id := g, timer_period_us := t\<rparr>)"

lemma same_conf_sel:
  assumes "same_conf bs bs'"
  shows "bs_discr bs' = bs_discr bs" "bstate bs' = bstate bs" "eff_data bs' = eff_data bs"
    "dfr_data bs' = dfr_data bs" "qd_change bs' = qd_change bs" "bs_shwait bs' = bs_shwait bs"
    "bs_hold bs' = bs_hold bs"
  using assms by (auto simp: same_conf_def)

lemma same_conf_intros [simp]:
  "same_conf bs bs" "same_conf bs (bs\<lparr>bs_gen_id := g\<rparr>)" "same_conf bs (bs\<lparr>bs_gen_id := g, timer_period_us := t\<rparr>)"
  unfolding same_conf_def
  by (rule exI[of _ "bs_gen_id bs"], rule exI[of _ "timer_period_us bs"], simp)
     (rule exI[of _ g], rule exI[of _ "timer_period_us bs"], simp, blast)

lemma same_conf_ok: "same_conf bs bs' \<Longrightarrow> sess_ok ds bs' = sess_ok ds bs"
  by (auto simp: sess_ok_def same_conf_sel)


text \<open>What an update leaves alone when it may also defer.\<close>

definition upd_frame :: "bbdd_bpf \<Rightarrow> bbdd_bpf \<Rightarrow> bool" where
  "upd_frame b b' \<longleftrightarrow> bsdir b' = bsdir b
     \<and> btimers b' = btimers b \<and> tx_capacity b' = tx_capacity b \<and> prog_diag b' = prog_diag b
     \<and> veth_rx_ifindex b' = veth_rx_ifindex b \<and> veth_tx_ifindex b' = veth_tx_ifindex b
     \<and> data_hash b' = data_hash b"

lemma upd_frame_refl [simp, intro!]: "upd_frame b b"
  by (simp add: upd_frame_def)

lemma upd_frame_trans [trans]: "upd_frame a b \<Longrightarrow> upd_frame b c \<Longrightarrow> upd_frame a c"
  by (simp add: upd_frame_def)

lemma core_upd: "core_eq a b \<Longrightarrow> upd_frame a b"
  by (simp add: core_eq_def upd_frame_def)

lemma pollout_arm_frame [simp]:
  "upd_frame b (bbdd_bpf_tx_pollout_arm env b)" "txq (bbdd_bpf_tx_pollout_arm env b) = txq b"
  "slotmem (bbdd_bpf_tx_pollout_arm env b) = slotmem b" "user_diag (bbdd_bpf_tx_pollout_arm env b) = user_diag b"
  "wire (bbdd_bpf_tx_pollout_arm env b) = wire b" "config_hash (bbdd_bpf_tx_pollout_arm env b) = config_hash b"
  by (simp_all add: bbdd_bpf_tx_pollout_arm_def upd_frame_def)


text \<open>How a call for session \<open>d\<close> may change the deferred queue: it stays consistent,
  and what it adds is a slot of that session.\<close>

fun slot_sess :: "slot_ref \<Rightarrow> u32" where
  "slot_sess (Final_slot d) = d"
| "slot_sess (Periodic_slot d) = d"

definition tx_step :: "u32 \<Rightarrow> bbdd_bpf \<Rightarrow> bbdd_bpf \<Rightarrow> bool" where
  "tx_step d b b' \<longleftrightarrow>
     (tx_inv (txq b) (slotmem b) \<longrightarrow> tx_inv (txq b') (slotmem b'))
     \<and> (\<forall>k. linked (slotmem b' k) \<longrightarrow>
          slotmem b' k = slotmem b k \<or> (sl_discr (slotmem b' k) = d \<and> slot_sess k = d))"

lemma tx_step_trans [trans]: "tx_step d a b \<Longrightarrow> tx_step d b c \<Longrightarrow> tx_step d a c"
  unfolding tx_step_def by metis

lemma core_tx_step: "core_eq a b \<Longrightarrow> tx_step d a b"
  by (simp add: core_eq_def tx_step_def)

lemma enqueue_tx_step:
  assumes e: "bbdd_tx_enqueue (txq b) (slotmem b) k fin d ifx fl = (fr, txq b', slotmem b')"
    and k: "slot_sess k = d"
  shows "tx_step d b b'"
proof -
  have "slotmem b' j = slotmem b j \<or> sl_discr (slotmem b' j) = d \<and> slot_sess j = d" for j
  proof (cases "j = k")
    case True
    then show ?thesis using arg_cong[OF e, of "\<lambda>(_, _, ss). ss k"] k
      by (auto simp: bbdd_tx_enqueue_def Let_def split: if_splits dest: sym)
  qed (simp add: tx_enqueue_order(3)[OF e])
  then show ?thesis unfolding tx_step_def using tx_inv_enqueue[OF _ e] by blast
qed

text \<open>The slot a deferred update takes and the enqueueing it makes.\<close>

definition defer_slot :: "bbdd_bpf_session \<Rightarrow> u8 \<Rightarrow> slot_ref" where
  "defer_slot bs fl = (if fl AND BIT_FINAL \<noteq> 0 then Final_slot (bs_discr bs) else Periodic_slot (bs_discr bs))"

lemma defer_slot_sess [simp]: "slot_sess (defer_slot bs fl) = bs_discr bs"
  by (simp add: defer_slot_def)

lemma defer_update_enqueue:
  assumes "bbdd_bpf_get_inject_bfd_flags ds bs = Some fl"
    and "bbdd_tx_enqueue (txq b) (slotmem b) (defer_slot bs fl) (fl AND BIT_FINAL \<noteq> 0)
           (discr (sess_local ds)) (veth_tx_ifindex b) fl = (fr, tx', ss')"
  shows "defer_update env b ds bs = Some (bbdd_bpf_tx_pollout_arm env
           (b\<lparr>txq := tx', slotmem := ss',
              user_diag := (if fr then bump Sk_enq_count (user_diag b) else user_diag b)\<rparr>))"
  using assms by (simp add: defer_update_def defer_slot_def cong: if_cong)

lemma defer_update_ok:
  assumes "bstate bs \<noteq> ON_HOLD" "discr (sess_local ds) = bs_discr bs"
  shows "\<exists>b'. defer_update env b ds bs = Some b' \<and> upd_frame b b' \<and> tx_step (bs_discr bs) b b'"
proof -
  obtain fl where fl: "bbdd_bpf_get_inject_bfd_flags ds bs = Some fl"
    using inject_flags_total assms(1) by blast
  obtain fr tx' ss' where e: "bbdd_tx_enqueue (txq b) (slotmem b) (defer_slot bs fl) (fl AND BIT_FINAL \<noteq> 0)
           (discr (sess_local ds)) (veth_tx_ifindex b) fl = (fr, tx', ss')"
    by (metis surj_pair)
  define b1 where "b1 = b\<lparr>txq := tx', slotmem := ss',
              user_diag := (if fr then bump Sk_enq_count (user_diag b) else user_diag b)\<rparr>"
  have "upd_frame b b1" by (simp add: b1_def upd_frame_def)
  moreover have "tx_step (bs_discr bs) b b1"
    using e assms(2) by (intro enqueue_tx_step) (auto simp: b1_def)
  moreover have "tx_step (bs_discr bs) b1 (bbdd_bpf_tx_pollout_arm env b1)"
    by (simp add: tx_step_def)
  ultimately show ?thesis
    using defer_update_enqueue[OF fl e, of env, folded b1_def] pollout_arm_frame(1)[of b1 env]
      upd_frame_trans tx_step_trans by blast
qed

lemma inject_update_total:
  assumes "current_bdata bs = Some bd" "mult_ok bd"
  shows "\<exists>b' r. inject_update env b ds bs = Some (b', r)"
proof -
  have "bstate bs \<noteq> ON_HOLD" using assms(1) by (auto simp: current_bdata_def)
  then obtain fl where "bbdd_bpf_get_inject_bfd_flags ds bs = Some fl" using inject_flags_total by blast
  then show ?thesis
    using inject_total[OF assms, of env b ds] by (simp add: inject_update_def)
qed

lemma inject_update_core: "inject_update env b ds bs = Some (b', r) \<Longrightarrow> core_eq b b'"
  by (auto simp: inject_update_def bind_eq_Some_conv dest: inject_core split: if_splits)

lemma rearm_update_total:
  assumes "current_bdata bs = Some bd" "mult_ok bd"
  shows "\<exists>b' bs' r. rearm_update env b ds bs t = Some (b', bs', r)"
  using rearm_total[OF assms, of env b ds] by (auto simp: rearm_update_def split: sum.split)

lemma rearm_update_frame:
  assumes "rearm_update env b ds bs t = Some (b', bs', r)"
  shows "core_eq b b' \<and> (bs' = bs \<or> (\<exists>p. bs' = bs\<lparr>timer_period_us := p\<rparr>))"
  using assms unfolding rearm_update_def
  by (auto dest: rearm_core split: if_splits sum.splits bind_splits)

lemma session_update_total:
  assumes ok: "sess_ok ds bs" and nh: "bstate bs \<noteq> ON_HOLD"
  shows "\<exists>b' bs' r. session_update env b ds bs = Some (b', bs', r)"
proof -
  define bs1 where "bs1 = bs\<lparr>bs_gen_id := bs_gen_id bs + 1\<rparr>"
  have d: "discr (sess_local ds) = bs_discr bs" using ok by (simp add: sess_ok_def)
  obtain bd where "current_bdata bs = Some bd" and m: "mult_ok bd"
    using current_bdata_ok[OF ok nh] .
  then have bd: "current_bdata bs1 = Some bd" by (simp add: bs1_def)
  obtain t where t: "bbdd_bpf_session_detect_time_us (eff_data bs) (sess_remote ds) = Some t"
    using ok by (simp add: bbdd_bpf_session_detect_time_us_def sess_ok_def Let_def)
  obtain b1 r1 where c: "bbdd_bpf_session_conf_update env b ds bs1 (update_args b ds bs1 t) = (b1, r1)"
    by force
  obtain b2 r2 where i: "inject_update env (emit (Mon_debug ''Injecting packet'' (discr (sess_local ds))) b1) ds bs1
      = Some (b2, r2)"
    using inject_update_total[OF bd m] by blast
  show ?thesis
    using defer_update_ok[OF nh d, of env b] rearm_update_total[OF bd m, of env b2 ds t] t c i
    by (auto simp: session_update_def Let_def simp flip: bs1_def split: sum.split)
qed

lemma push_frame:
  assumes "\<not> (should_inject ds bs \<and> \<not> bbdd_bpf_tx_have_capacity b)"
    and "session_update env b ds bs = Some (b', bs', r)"
  shows "core_eq b b' \<and> same_conf bs bs'"
proof -
  define bs1 where "bs1 = bs\<lparr>bs_gen_id := bs_gen_id bs + 1\<rparr>"
  have sc: "same_conf bs bs1" "same_conf bs (bs1\<lparr>timer_period_us := p\<rparr>)" for p by (simp_all add: bs1_def)
  obtain t where t: "bbdd_bpf_session_detect_time_us (eff_data bs) (sess_remote ds) = Some t"
    using assms by (cases "bbdd_bpf_session_detect_time_us (eff_data bs) (sess_remote ds)")
      (auto simp: session_update_def split: if_splits)
  obtain b1 r1 where c: "bbdd_bpf_session_conf_update env b ds bs1 (update_args b ds bs1 t) = (b1, r1)"
    by force
  note c1 = conf_update_core[OF c]
  show ?thesis
  proof (cases r1)
    case (Inl e)
    then show ?thesis using assms t c c1 sc
      by (auto simp: session_update_def Let_def simp flip: bs1_def split: if_splits)
  next
    case (Inr u)
    then obtain b2 r2 where i: "inject_update env (emit (Mon_debug ''Injecting packet'' (discr (sess_local ds))) b1) ds bs1
        = Some (b2, r2)" and k: "(case r2 of Inl e \<Rightarrow> Some (b2, bs1, Inl e)
              | Inr _ \<Rightarrow> rearm_update env b2 ds bs1 t) = Some (b', bs', r)"
      using assms t c
      by (cases "inject_update env (emit (Mon_debug ''Injecting packet'' (discr (sess_local ds))) b1) ds bs1")
        (auto simp: session_update_def Let_def simp flip: bs1_def split: if_splits)
    have c2: "core_eq b b2" using core_eq_trans[OF c1] inject_update_core[OF i] by simp
    show ?thesis
      using k c2 sc core_eq_trans[OF c2] rearm_update_frame[of env b2 ds bs1 t b' bs' r]
      by (cases r2) auto
  qed
qed

lemma session_update_frame:
  assumes ok: "sess_ok ds bs" "bstate bs \<noteq> ON_HOLD"
    and res: "session_update env b ds bs = Some (b', bs', r)"
  shows "upd_frame b b' \<and> tx_step (bs_discr bs) b b' \<and> same_conf bs bs'"
proof (cases "should_inject ds bs \<and> \<not> bbdd_bpf_tx_have_capacity b")
  case True
  have d: "discr (sess_local ds) = bs_discr bs" using ok by (simp add: sess_ok_def)
  from True res defer_update_ok[OF ok(2) d, of env b] show ?thesis
    by (auto simp: session_update_def)
next
  case False
  then show ?thesis using push_frame[OF False res] core_upd core_tx_step by blast
qed

definition sess_frame :: "u32 \<Rightarrow> bbdd_bpf \<Rightarrow> bbdd_bpf \<Rightarrow> bool" where
  "sess_frame d b b' \<longleftrightarrow> bsdir b' = bsdir b \<and> tx_capacity b' = tx_capacity b
     \<and> prog_diag b' = prog_diag b \<and> data_hash b' = data_hash b
     \<and> veth_rx_ifindex b' = veth_rx_ifindex b \<and> veth_tx_ifindex b' = veth_tx_ifindex b
     \<and> tx_step d b b'"

lemma tx_step_refl [simp]: "tx_step d b b"
  by (simp add: tx_step_def)

lemma sess_frame_refl [simp, intro!]: "sess_frame d b b"
  by (simp add: sess_frame_def)

lemma sess_frame_trans [trans]: "sess_frame d a b \<Longrightarrow> sess_frame d b c \<Longrightarrow> sess_frame d a c"
  using tx_step_trans[of d a b c] by (simp add: sess_frame_def)

lemma sess_frame_emit [simp]:
  "sess_frame d a (emit n b) = sess_frame d a b" "sess_frame d (emit n a) b = sess_frame d a b"
  by (simp_all add: sess_frame_def tx_step_def)

lemma core_sess_frame: "core_eq a b \<Longrightarrow> sess_frame d a b"
  using core_tx_step[of a b d] by (simp add: sess_frame_def core_eq_def)

lemma update_ok:
  assumes "sess_ok ds bs" "bstate bs \<noteq> ON_HOLD"
  shows "\<exists>b' bs' r. session_update env b ds bs = Some (b', bs', r)
    \<and> sess_frame (bs_discr bs) b b' \<and> upd_frame b b' \<and> same_conf bs bs'"
  using session_update_total[OF assms, of env b] session_update_frame[OF assms, of env b]
  by (fastforce simp: sess_frame_def upd_frame_def)

lemma call_update_ok:
  assumes "sess_ok ds bs" "bstate bs \<noteq> ON_HOLD"
  shows "\<exists>b' bs'. bbdd_bpf_session_call_update env b ds bs = Some (b', bs')
    \<and> sess_frame (bs_discr bs) b b' \<and> same_conf bs bs' \<and> btimers b' = btimers b"
proof -
  obtain b' bs' r where "session_update env b ds bs = Some (b', bs', r)"
    "sess_frame (bs_discr bs) b b'" "upd_frame b b'" "same_conf bs bs'"
    using update_ok[OF assms] by blast
  then show ?thesis
    by (cases r) (auto simp: bbdd_bpf_session_call_update_def upd_frame_def)
qed

lemma state_changed_ok:
  assumes "sess_ok ds bs" "bstate bs \<noteq> ON_HOLD"
  shows "\<exists>b' bs'. bbdd_bpf_session_state_changed env b ds bs = Some (b', bs')
    \<and> sess_frame (bs_discr bs) b b' \<and> same_conf bs bs' \<and> btimers b' = btimers b"
  using call_update_ok[OF assms, of env b]
  by (auto simp: bbdd_bpf_session_state_changed_def)

lemma got_final_ok:
  assumes "sess_ok ds bs" "bstate bs = AWAIT_FINAL"
  shows "\<exists>b' bs'. bbdd_bpf_handle_packet_got_final env b ds bs = Some (b', bs')
    \<and> sess_frame (bs_discr bs) b b' \<and> same_conf (bs\<lparr>bstate := AWAIT_NON_FINAL\<rparr>) bs'
    \<and> btimers b' = btimers b"
proof -
  have "sess_ok ds (bs\<lparr>bstate := AWAIT_NON_FINAL\<rparr>)"
    using assms by (simp add: sess_ok_def)
  from call_update_ok[OF this] show ?thesis
    by (fastforce simp: bbdd_bpf_handle_packet_got_final_def)
qed

lemma timer_cancel_frame [simp]: "sess_frame d b (timer_cancel env p b)"
  by (auto simp: timer_cancel_def sess_frame_def tx_step_def split: prod.split bool.split)

lemma timer_set_frame: "timer_set env dly fn b = (r, b') \<Longrightarrow> sess_frame d b b'"
  by (auto simp: timer_set_def sess_frame_def tx_step_def split: prod.splits)

lemma shwait_stop_ok:
  assumes "bs_shwait bs = Some p"
  shows "\<exists>b'. bbdd_bpf_shwait_stop env b bs = Some (b', bs\<lparr>bs_shwait := None\<rparr>) \<and> sess_frame d b b'"
proof -
  have "sess_frame d b (timer_cancel env p (emit (Mon_debug ''shwait stop'' (bs_discr bs)) b))"
    using timer_cancel_frame[of d "emit (Mon_debug ''shwait stop'' (bs_discr bs)) b" env p]
    unfolding sess_frame_emit .
  with assms show ?thesis by (simp add: bbdd_bpf_shwait_stop_def)
qed

lemma sess_frame_tock [simp]: "sess_frame d a (tock b) = sess_frame d a b" "sess_frame d (tock a) b = sess_frame d a b"
  by (simp_all add: sess_frame_def tx_step_def)

lemma shwait_start_ok:
  assumes "detect_mult (timing (sess_remote ds)) \<noteq> 0"
  shows "\<exists>b' bs' r. bbdd_bpf_shwait_start env b ds bs = Some (b', bs', r) \<and> sess_frame d b b'
    \<and> (case r of Inl _ \<Rightarrow> bs' = bs | Inr _ \<Rightarrow> \<exists>p. bs' = bs\<lparr>bs_shwait := Some p\<rparr>)"
proof -
  obtain t where t: "bbdd_bpf_session_detect_time_us (eff_data bs) (sess_remote ds) = Some t"
    using assms by (simp add: bbdd_bpf_session_detect_time_us_def Let_def)
  define b0 where "b0 = tock (emit (Mon_debug ''shwait start'' (discr (sess_local ds))) b)"
  obtain r b' where s: "timer_set env (ucast t) (Shwait_cb (bs_discr bs)) b0 = (r, b')" by force
  have "sess_frame d b b0" by (simp add: b0_def)
  moreover have "sess_frame d b b'"
    using timer_set_frame[OF s, of d] by (simp add: b0_def)
  ultimately show ?thesis using t s
    by (cases r) (auto simp: bbdd_bpf_shwait_start_def bbdd_bpf_shwait_create_def simp flip: b0_def
        split: option.split)
qed


text \<open>What the user configured of a session, except the hold time, which is forgotten once
  it has expired: no handler touches it.\<close>

type_synonym session_config =
  "bbdd_sockaddr \<times> bbdd_sockaddr \<times> string \<times> u8 \<times> u32 \<times> u32 \<times> u32 \<times> u32
   \<times> u32 \<times> bbdd_d_session_flags \<times> bbdd_d_session_data_timing"

definition ucfg :: "bbdd_d_session \<Rightarrow> session_config" where
  "ucfg ds = (src ds, dst ds, sname ds, sttl ds, sifindex ds, vrf_ifindex ds, user_remote_discr ds, vrf_table ds,
     discr (sess_local ds), sflags (sess_local ds), timing (sess_local ds))"

lemma ucfg_sel [simp]:
  "ucfg (ds\<lparr>sess_remote := r\<rparr>) = ucfg ds" "ucfg (ds\<lparr>hold_time_us := h\<rparr>) = ucfg ds"
  by (simp_all add: ucfg_def)

lemma local_down_sel [simp]:
  "sess_remote (local_down s g ds) = sess_remote ds" "discr (sess_local (local_down s g ds)) = discr (sess_local ds)"
  "timing (sess_local (local_down s g ds)) = timing (sess_local ds)"
  "sstate (sess_local (local_down s g ds)) = \<lparr>state = s, diag = g\<rparr>"
  "sflags (sess_local (local_down s g ds)) = sflags (sess_local ds)"
  "skey (local_down s g ds) = skey ds" "ucfg (local_down s g ds) = ucfg ds"
  by (simp_all add: local_down_def skey_def ucfg_def)

lemma remote_down_sel [simp]:
  "sess_local (remote_down g ds) = sess_local ds" "discr (sess_remote (remote_down g ds)) = discr (sess_remote ds)"
  "timing (sess_remote (remote_down g ds)) = timing (sess_remote ds)"
  "sstate (sess_remote (remote_down g ds)) = \<lparr>state = DOWN, diag = g\<rparr>"
  "skey (remote_down g ds) = skey ds" "ucfg (remote_down g ds) = ucfg ds"
  by (simp_all add: remote_down_def skey_def ucfg_def)

lemma sess_ok_down [simp]:
  "sess_ok (local_down s g ds) bs = sess_ok ds bs" "sess_ok (remote_down g ds) bs = sess_ok ds bs"
  by (simp_all add: sess_ok_def)

text \<open>The result of a handler for one session.\<close>

definition hs_post :: "bbdd_bpf \<Rightarrow> bbdd_d_session \<Rightarrow> bbdd_bpf_session \<Rightarrow> bbdd_bpf \<Rightarrow> bbdd_d_session \<Rightarrow> bbdd_bpf_session \<Rightarrow> bool" where
  "hs_post b ds bs b' ds' bs' \<longleftrightarrow> sess_frame (bs_discr bs) b b' \<and> sess_ok ds' bs'
     \<and> bstate bs' \<noteq> ON_HOLD \<and> bs_discr bs' = bs_discr bs \<and> skey ds' = skey ds \<and> ucfg ds' = ucfg ds"

lemma user_mult_ok: "sess_ok ds bs \<Longrightarrow> mult_ok (bbdd_bpf_user_bdata ds)"
  by (simp add: sess_ok_def mult_ok_def bbdd_bpf_user_bdata_def)

lemma apply_stable_ok:
  assumes ok: "sess_ok ds bs" and nh: "bstate bs \<noteq> ON_HOLD" and u: "mult_ok u"
  shows "\<exists>b' ds' bs' r. apply_stable env b ds bs u pl = Some (b', ds', bs', r)
    \<and> hs_post b ds bs b' ds' bs'"
proof -
  let ?ds1 = "if stop_shwait pl then local_down DOWN DIAG_DOWN ds else ds"
  have m: "detect_mult (timing (sess_remote ?ds1)) \<noteq> 0" using ok by (simp add: sess_ok_def)
  obtain b' bs' r where s: "bbdd_bpf_shwait_start env b ?ds1 bs = Some (b', bs', r)"
    "sess_frame (bs_discr bs) b b'"
    "case r of Inl _ \<Rightarrow> bs' = bs | Inr _ \<Rightarrow> \<exists>p. bs' = bs\<lparr>bs_shwait := Some p\<rparr>"
    using shwait_start_ok[OF m] by metis
  have p: "sess_ok ds (bs\<lparr>dfr_data := u, bstate := AWAIT_FINAL\<rparr>)"
    using ok nh u by (simp add: sess_ok_def)
  have q: "sess_ok ds (bs\<lparr>bs_shwait := Some x, dfr_data := u, bstate := SHUTTING_DOWN\<rparr>)" for x
    using ok nh u by (simp add: sess_ok_def)
  show ?thesis
    using ok nh s p q by (cases r) (auto simp: apply_stable_def Let_def hs_post_def split: if_splits)
qed

lemma set_current_ok:
  assumes "sess_ok ds bs" "mult_ok u"
  shows "sess_ok ds (set_current_bdata u bs)" "bstate (set_current_bdata u bs) = bstate bs"
    "bs_shwait (set_current_bdata u bs) = bs_shwait bs" "bs_discr (set_current_bdata u bs) = bs_discr bs"
  using assms by (auto simp: sess_ok_def set_current_bdata_def)

lemma handle_session_update_ok:
  assumes ok: "sess_ok ds bs" and nh: "bstate bs \<noteq> ON_HOLD"
  shows "\<exists>b' ds' bs' r. bbdd_bpf_handle_session_update env b ds bs = Some (b', ds', bs', r)
    \<and> hs_post b ds bs b' ds' bs'"
proof -
  define u where "u = bbdd_bpf_user_bdata ds"
  have u: "mult_ok u" using user_mult_ok[OF ok] by (simp add: u_def)
  obtain bd where bd: "current_bdata bs = Some bd" using current_bdata_ok[OF ok nh] .
  define pl where "pl = plan_update (state (sstate (sess_local ds))) u bd"
  define bs1 where "bs1 = (if apply_imm pl then set_current_bdata u bs else bs)"
  have bs1: "sess_ok ds bs1" "bstate bs1 = bstate bs" "bs_shwait bs1 = bs_shwait bs" "bs_discr bs1 = bs_discr bs"
    using set_current_ok[OF ok u] ok by (simp_all add: bs1_def)
  have nh1: "bstate bs1 \<noteq> ON_HOLD" using nh bs1 by simp
  have eq: "bbdd_bpf_handle_session_update env b ds bs =
    (case bstate bs1 of
          ON_HOLD \<Rightarrow> None
        | SHUTTING_DOWN \<Rightarrow>
            if stop_shwait pl
            then do {
              (bpf2, bs2) \<leftarrow> bbdd_bpf_shwait_stop env b bs1;
              apply_stable env bpf2 ds (bs2\<lparr>bstate := AWAIT_FINAL\<rparr>) u pl
            }
            else apply_stable env b ds bs1 u pl
        | STABLE \<Rightarrow> apply_stable env b ds bs1 u pl
        | _ \<Rightarrow>
            if need_poll pl \<or> need_shwait pl \<or> stop_shwait pl
            then Some (emit (Mon_debug ''queueing change'' (discr (sess_local ds))) b, ds,
                       bs1\<lparr>qd_change := True\<rparr>, Inr ())
            else Some (b, ds, bs1, Inr ()))"
    unfolding bbdd_bpf_handle_session_update_def Let_def bd Option.bind.bind_lunit
    unfolding u_def[symmetric] pl_def[symmetric] bs1_def[symmetric] ..
  have as: "\<exists>b' ds' bs' r. apply_stable env b ds bs1 u pl = Some (b', ds', bs', r)
    \<and> hs_post b ds bs b' ds' bs'"
    using apply_stable_ok[OF bs1(1) nh1 u] bs1(4) by (simp add: hs_post_def)
  have q: "sess_ok ds (bs1\<lparr>qd_change := True\<rparr>)" using bs1(1) by (simp add: sess_ok_def)
  have sd: "\<exists>b' ds' bs' r. bbdd_bpf_shwait_stop env b bs1 \<bind> (\<lambda>(b2, bs2).
      apply_stable env b2 ds (bs2\<lparr>bstate := AWAIT_FINAL\<rparr>) u pl) = Some (b', ds', bs', r)
    \<and> hs_post b ds bs b' ds' bs'" if "bstate bs = SHUTTING_DOWN"
  proof -
    have "bstate bs1 = SHUTTING_DOWN" using bs1(2) that by simp
    with bs1(1) obtain p where "bs_shwait bs1 = Some p" by (auto simp: sess_ok_def)
    then obtain b2 where s: "bbdd_bpf_shwait_stop env b bs1 = Some (b2, bs1\<lparr>bs_shwait := None\<rparr>)"
      "sess_frame (bs_discr bs) b b2" using shwait_stop_ok by metis
    have "sess_ok ds (bs1\<lparr>bs_shwait := None, bstate := AWAIT_FINAL\<rparr>)"
      using bs1(1,2) that by (simp add: sess_ok_def)
    from apply_stable_ok[OF this _ u, of env b2 pl] s bs1(4) show ?thesis
      by (auto simp: hs_post_def intro: sess_frame_trans)
  qed
  show ?thesis
    unfolding eq using as sd q bs1 nh
    by (cases "bstate bs") (auto simp: hs_post_def)
qed


lemma hs_post_trans:
  assumes "hs_post b ds bs b' ds' bs'" "sess_frame (bs_discr bs) b' b''" "same_conf bs' bs''"
  shows "hs_post b ds bs b'' ds' bs''"
  using assms same_conf_ok[OF assms(3), of ds'] same_conf_sel[OF assms(3)]
  by (auto simp: hs_post_def intro: sess_frame_trans)

lemma got_non_final_ok:
  assumes ok: "sess_ok ds (bs\<lparr>bstate := STABLE\<rparr>)" and m: "mult_ok (dfr_data bs)"
  shows "\<exists>b' ds' bs'. bbdd_bpf_handle_packet_got_non_final env b ds bs = Some (b', ds', bs')
    \<and> hs_post b ds bs b' ds' bs'"
proof -
  define bs1 where "bs1 = bs\<lparr>eff_data := dfr_data bs, bstate := STABLE\<rparr>"
  define d where "d = discr (sess_local ds)"
  have ok1: "sess_ok ds bs1" "sess_ok ds (bs1\<lparr>qd_change := False\<rparr>)"
    using ok m by (simp_all add: bs1_def sess_ok_def)
  have nh1: "bstate bs1 \<noteq> ON_HOLD" "bs_discr bs1 = bs_discr bs" by (simp_all add: bs1_def)
  obtain b2 ds2 bs2 where q: "(if qd_change bs1
          then do {
            (bpf', dsess', bs', r) \<leftarrow>
              bbdd_bpf_handle_session_update env (emit (Mon_debug ''queued change'' d) b) ds
                (bs1\<lparr>qd_change := False\<rparr>);
            (case r of
               Inl e \<Rightarrow> Some (emit (Mon_err e) bpf', dsess', bs')
             | Inr _ \<Rightarrow> Some (bpf', dsess', bs'))
          }
          else Some (emit (Mon_debug ''stable'' d) b, ds, bs1)) = Some (b2, ds2, bs2)"
    and post: "hs_post b ds bs b2 ds2 bs2"
  proof (cases "qd_change bs1")
    case True
    obtain b' ds' bs' r where h: "bbdd_bpf_handle_session_update env (emit (Mon_debug ''queued change'' d) b) ds
                (bs1\<lparr>qd_change := False\<rparr>) = Some (b', ds', bs', r)"
        "hs_post (emit (Mon_debug ''queued change'' d) b) ds (bs1\<lparr>qd_change := False\<rparr>) b' ds' bs'"
      using handle_session_update_ok[OF ok1(2)] nh1 by force
    with True nh1 show ?thesis
      by (cases r) (auto simp: hs_post_def intro!: that)
  next
    case False
    with ok1 nh1 show ?thesis by (intro that) (auto simp: hs_post_def)
  qed
  have post2: "sess_ok ds2 bs2" "bstate bs2 \<noteq> ON_HOLD" "bs_discr bs2 = bs_discr bs"
    using post by (simp_all add: hs_post_def)
  obtain b3 bs3 where "bbdd_bpf_session_call_update env b2 ds2 bs2 = Some (b3, bs3)"
    "sess_frame (bs_discr bs) b2 b3" "same_conf bs2 bs3"
    using call_update_ok[OF post2(1,2)] post2(3) by metis
  with hs_post_trans[OF post] q show ?thesis
    unfolding bbdd_bpf_handle_packet_got_non_final_def Let_def bs1_def[symmetric] d_def[symmetric] by simp
qed

lemma timeout_sess_ok:
  assumes ok: "sess_ok ds bs" and nh: "bstate bs \<noteq> ON_HOLD"
  shows "\<exists>b' ds' bs'. timeout_sess env b ds bs = Some (b', ds', bs') \<and> hs_post b ds bs b' ds' bs'"
proof -
  have st: "sess_ok ds (bs\<lparr>bstate := STABLE\<rparr>)" "sess_ok ds (bs\<lparr>bs_shwait := None, bstate := STABLE\<rparr>)"
    using ok nh by (simp_all add: sess_ok_def)
  obtain b1 ds1 bs1 where c: "(case bstate bs of
            ON_HOLD \<Rightarrow> None
          | STABLE \<Rightarrow> Some (b, ds, bs)
          | SHUTTING_DOWN \<Rightarrow> do {
              (bpf', bs') \<leftarrow> bbdd_bpf_shwait_stop env b bs;
              bbdd_bpf_handle_packet_got_non_final env bpf' ds bs'
            }
          | _ \<Rightarrow> bbdd_bpf_handle_packet_got_non_final env b ds bs) = Some (b1, ds1, bs1)"
    and post: "hs_post b ds bs b1 ds1 bs1"
  proof (cases "bstate bs = SHUTTING_DOWN")
    case True
    then obtain p where "bs_shwait bs = Some p" using ok by (auto simp: sess_ok_def)
    then obtain b0 where s: "bbdd_bpf_shwait_stop env b bs = Some (b0, bs\<lparr>bs_shwait := None\<rparr>)"
      "sess_frame (bs_discr bs) b b0" using shwait_stop_ok by metis
    have "mult_ok (dfr_data (bs\<lparr>bs_shwait := None\<rparr>))" using ok True by (simp add: sess_ok_def)
    from got_non_final_ok[OF _ this, of ds env b0] st(2) s True show ?thesis
      by (auto simp: hs_post_def intro!: that intro: sess_frame_trans)
  next
    case False
    have "bstate bs \<in> {AWAIT_FINAL, AWAIT_NON_FINAL} \<Longrightarrow> mult_ok (dfr_data bs)"
      using ok by (auto simp: sess_ok_def)
    with got_non_final_ok[OF st(1), of env b] False ok nh show ?thesis
      by (cases "bstate bs") (auto simp: hs_post_def intro!: that)
  qed
  define ds3 where "ds3 = (let dsess2 = remote_down DIAG_TIME_EXPIRED (local_down DOWN DIAG_TIME_EXPIRED ds1) in
    dsess2\<lparr>sess_remote := (sess_remote dsess2)\<lparr>discr := user_remote_discr dsess2\<rparr>\<rparr>)"
  have ok3: "sess_ok ds3 bs1" "skey ds3 = skey ds1" "bstate bs1 \<noteq> ON_HOLD" "bs_discr bs1 = bs_discr bs"
    using post by (auto simp: hs_post_def ds3_def Let_def sess_ok_def skey_def)
  then obtain b2 bs2 where s: "bbdd_bpf_session_state_changed env b1 ds3 bs1 = Some (b2, bs2)"
    "sess_frame (bs_discr bs) b1 b2" "same_conf bs1 bs2"
    using state_changed_ok[OF ok3(1,3)] by metis
  have "ucfg ds3 = ucfg ds1" by (simp add: ds3_def Let_def)
  then have "hs_post b ds bs b1 ds3 bs1" using post ok3 by (simp add: hs_post_def)
  from hs_post_trans[OF this s(2,3)] s(1) post show ?thesis
    unfolding timeout_sess_def c ds3_def Let_def by simp
qed


lemma fsm_step_sel [simp]:
  "sess_remote (fsm_step ds) = sess_remote ds" "skey (fsm_step ds) = skey ds" "ucfg (fsm_step ds) = ucfg ds"
  "sess_ok (fsm_step ds) bs = sess_ok ds bs"
  by (auto simp: fsm_step_def Let_def split: bbdd_bfd_pkt_state.split)

lemma parse_mult_ok:
  "bbdd_bpf_parse_packet st p rd = (st', Inr (rd', poll, fin)) \<Longrightarrow> detect_mult (timing rd') \<noteq> 0"
  using parse_packet_accepts(6,11)[of st p rd st' rd' poll fin] by simp

lemma answer_poll_ok:
  assumes ok: "sess_ok ds bs" and nh: "bstate bs \<noteq> ON_HOLD"
  shows "\<exists>b'. answer_poll env b ds bs = Some b' \<and> sess_frame (bs_discr bs) b b'"
proof (cases "bbdd_bpf_tx_have_capacity b")
  case True
  obtain bd where bd: "current_bdata bs = Some bd" "mult_ok bd" using current_bdata_ok[OF ok nh] .
  obtain b1 r where i: "bbdd_bpf_session_inject_pkt env
      (emit (Mon_debug ''Injecting final packet'' (discr (sess_local ds))) b) ds bs (veth_tx_ifindex b) BIT_FINAL
      = Some (b1, r)" using inject_total[OF bd] by blast
  with True core_sess_frame[OF inject_core[OF i], of "bs_discr bs"] show ?thesis
    by (cases r) (simp_all add: answer_poll_def)
next
  case False
  define b1 where "b1 = emit (Mon_debug ''Queueing final packet'' (discr (sess_local ds))) b"
  obtain fr tx' ss' where e: "bbdd_tx_enqueue (txq b1) (slotmem b1) (Final_slot (bs_discr bs)) True
      (discr (sess_local ds)) (veth_tx_ifindex b1) BIT_FINAL = (fr, tx', ss')" by (metis surj_pair)
  define b2 where "b2 = b1\<lparr>txq := tx', slotmem := ss',
    user_diag := (if fr then bump Sk_enq_count (user_diag b1) else user_diag b1)\<rparr>"
  have "tx_step (bs_discr bs) b1 b2"
    using e ok by (intro enqueue_tx_step[where k = "Final_slot (bs_discr bs)"]) (auto simp: b2_def sess_ok_def)
  then have "sess_frame (bs_discr bs) b b2"
    by (simp add: sess_frame_def b1_def b2_def tx_step_def)
  moreover have "sess_frame (bs_discr bs) b2 (bbdd_bpf_tx_pollout_arm env b2)"
    by (simp add: sess_frame_def tx_step_def bbdd_bpf_tx_pollout_arm_def)
  moreover have "answer_poll env b ds bs = Some (bbdd_bpf_tx_pollout_arm env b2)"
    using False e unfolding answer_poll_def Let_def b1_def[symmetric] b2_def by simp
  ultimately show ?thesis by (blast intro: sess_frame_trans)
qed

text \<open>The end of \<open>bbdd_bpf_handle_packet\<close>: the poll-sequence machine.\<close>

lemma packet_poll_ok:
  assumes ok: "sess_ok ds bs" and st: "bstate bs \<in> {STABLE, AWAIT_FINAL, AWAIT_NON_FINAL}"
  shows "\<exists>b' ds' bs'. packet_poll env b ds bs fin = Some (b', ds', bs')
    \<and> hs_post b ds bs b' ds' bs'"
proof (cases "bstate bs = AWAIT_FINAL")
  case True
  obtain b' bs' where g: "bbdd_bpf_handle_packet_got_final env b ds bs = Some (b', bs')"
    "sess_frame (bs_discr bs) b b'" "same_conf (bs\<lparr>bstate := AWAIT_NON_FINAL\<rparr>) bs'"
    using got_final_ok[OF ok True] by metis
  have "sess_ok ds (bs\<lparr>bstate := AWAIT_NON_FINAL\<rparr>)" using ok True by (simp add: sess_ok_def)
  then have "hs_post b ds bs b' ds bs'"
    using g(2) same_conf_ok[OF g(3)] same_conf_sel[OF g(3)] by (simp add: hs_post_def)
  with True g(1) ok show ?thesis by (auto simp: hs_post_def packet_poll_def)
next
  case False
  have "sess_ok ds (bs\<lparr>bstate := STABLE\<rparr>)" using ok st by (auto simp: sess_ok_def)
  note g = got_non_final_ok[OF this]
  have "bstate bs = AWAIT_NON_FINAL \<Longrightarrow> mult_ok (dfr_data bs)" using ok by (simp add: sess_ok_def)
  with g[of env b] False st ok show ?thesis
    by (cases "bstate bs") (auto simp: hs_post_def packet_poll_def)
qed

lemma packet_accepted_ok:
  assumes ok1: "sess_ok ds1 bs2" and bs2: "bstate bs2 \<in> {STABLE, AWAIT_FINAL, AWAIT_NON_FINAL}"
  shows "\<exists>b' ds' bs'. packet_accepted env b old ds1 bs2 poll fin = Some (b', ds', bs')
    \<and> hs_post b ds1 bs2 b' ds' bs'"
proof -
  have nh: "bstate bs2 \<noteq> ON_HOLD" using bs2 by auto
  obtain bd where bd: "current_bdata bs2 = Some bd" "mult_ok bd" using current_bdata_ok[OF ok1 nh] .
  obtain b2 r where r: "bbdd_bpf_inject_rearm_packet env b ds1 bs2 = Some (b2, r)" using rearm_total[OF bd] by blast
  define b3 where "b3 = (case r of Inl e \<Rightarrow> emit (Mon_err e) b2 | Inr _ \<Rightarrow> b2)"
  have f3: "sess_frame (bs_discr bs2) b b3"
    using core_sess_frame[OF rearm_core[OF r]] by (simp add: b3_def split: sum.split)
  define ds2 where "ds2 = fsm_step ds1"
  have ok2: "sess_ok ds2 bs2" "skey ds2 = skey ds1" "ucfg ds2 = ucfg ds1" using ok1 by (simp_all add: ds2_def)
  obtain b4 bs4 where c: "(if sess_local ds2 \<noteq> sess_local old \<or> sess_remote ds2 \<noteq> sess_remote old
      then bbdd_bpf_session_state_changed env b3 ds2 bs2 else Some (b3, bs2)) = Some (b4, bs4)"
    and f4: "sess_frame (bs_discr bs2) b3 b4" and s4: "same_conf bs2 bs4"
  proof (cases "sess_local ds2 = sess_local old \<and> sess_remote ds2 = sess_remote old")
    case True
    then show ?thesis by (intro that[of b3 bs2]) auto
  next
    case False
    then show ?thesis using state_changed_ok[OF ok2(1) nh, of env b3] that by auto
  qed
  have ok4: "sess_ok ds2 bs4" "bstate bs4 = bstate bs2" "bs_discr bs4 = bs_discr bs2"
    using ok2 same_conf_ok[OF s4] same_conf_sel[OF s4] by auto
  obtain b5 where a: "(if poll then answer_poll env b4 ds2 bs4 else Some b4) = Some b5"
    and f5: "sess_frame (bs_discr bs2) b4 b5"
    using answer_poll_ok[OF ok4(1), of env b4] ok4 nh by (cases poll) auto
  have "bstate bs4 \<in> {STABLE, AWAIT_FINAL, AWAIT_NON_FINAL}" using ok4 bs2 by simp
  note pp = packet_poll_ok[OF ok4(1) this, of env b5 fin]
  have "sess_frame (bs_discr bs2) b b5" using f3 f4 f5 by (blast intro: sess_frame_trans)
  moreover have "packet_accepted env b old ds1 bs2 poll fin = packet_poll env b5 ds2 bs4 fin"
    unfolding packet_accepted_def Let_def ds2_def[symmetric] r Option.bind.bind_lunit prod.case
      b3_def[symmetric] c a ..
  ultimately show ?thesis using pp ok4(3) ok2(2,3) by (auto simp: hs_post_def intro: sess_frame_trans)
qed

lemma sess_ok_stats [simp]:
  "sess_ok ds (count_rx l bs) = sess_ok ds bs" "sess_ok ds (count_diag c bs) = sess_ok ds bs"
  "sess_ok ds (bs\<lparr>bs_diag_stats := st\<rparr>) = sess_ok ds bs"
  "bstate (count_rx l bs) = bstate bs" "bstate (count_diag c bs) = bstate bs"
  "bs_discr (count_rx l bs) = bs_discr bs" "bs_discr (count_diag c bs) = bs_discr bs"
  by (simp_all add: sess_ok_def count_rx_def count_diag_def Let_def)

lemma handle_packet_sess_ok:
  assumes ok: "sess_ok ds bs" and nh: "bstate bs \<noteq> ON_HOLD"
  shows "\<exists>b' ds' bs'. handle_packet_sess env b ds bs pkt wl ttl = Some (b', ds', bs')
    \<and> hs_post b ds bs b' ds' bs'"
proof (cases "bstate bs = SHUTTING_DOWN \<or> state (sstate (sess_local ds)) = ADMINDOWN \<or> sttl ds > ttl")
  case True
  then show ?thesis using ok nh by (auto simp: handle_packet_sess_def Let_def hs_post_def)
next
  case False
  define bs1 where "bs1 = count_rx wl bs"
  have bs1: "sess_ok ds bs1" "bstate bs1 = bstate bs" "bs_discr bs1 = bs_discr bs" using ok by (simp_all add: bs1_def)
  have st: "bstate bs \<in> {STABLE, AWAIT_FINAL, AWAIT_NON_FINAL}" using nh False by (cases "bstate bs") auto
  obtain st' pr where pp: "bbdd_bpf_parse_packet (bs_diag_stats bs1) pkt (sess_remote ds) = (st', pr)" by force
  show ?thesis
  proof (cases pr)
    case (Inl e)
    then show ?thesis using False pp bs1 nh
      by (auto simp: handle_packet_sess_def Let_def hs_post_def simp flip: bs1_def)
  next
    case (Inr q)
    obtain rd' poll fin where pr: "pr = Inr (rd', poll, fin)" using Inr by (cases q) auto
    have "sess_ok (ds\<lparr>sess_remote := rd'\<rparr>) (bs1\<lparr>bs_diag_stats := st'\<rparr>)"
      using bs1(1) parse_mult_ok pp pr by (simp add: sess_ok_def)
    from packet_accepted_ok[OF this, of env b ds poll fin] st bs1 pp pr nh False show ?thesis
      by (auto simp: handle_packet_sess_def Let_def hs_post_def skey_def simp flip: bs1_def)
  qed
qed


subsection \<open>All sessions\<close>

definition world_ok :: "world \<Rightarrow> bool" where
  "world_ok w \<longleftrightarrow>
     kwf skey (wsdir w) \<and> kwf bs_discr (bsdir (wbpf w))
     \<and> tx_inv (txq (wbpf w)) (slotmem (wbpf w))
     \<and> (\<forall>d. case (bbdd_sess_dir_get_session (wsdir w) d, bbdd_bpf_sdir_get_session (wbpf w) d) of
              (Some ds, Some bs) \<Rightarrow> sess_ok ds bs
            | (None, None) \<Rightarrow> True
            | _ \<Rightarrow> False)
     \<and> (\<forall>k. linked (slotmem (wbpf w) k) \<longrightarrow> sl_discr (slotmem (wbpf w) k) = slot_sess k
              \<and> (\<exists>bs. bbdd_bpf_sdir_get_session (wbpf w) (slot_sess k) = Some bs \<and> bstate bs \<noteq> ON_HOLD))"

lemma world_ok_sess:
  assumes "world_ok w" "bbdd_sess_dir_get_session (wsdir w) d = Some ds"
  obtains bs where "bbdd_bpf_sdir_get_session (wbpf w) d = Some bs" "sess_ok ds bs" "bs_discr bs = d" "skey ds = d"
proof -
  have "case (bbdd_sess_dir_get_session (wsdir w) d, bbdd_bpf_sdir_get_session (wbpf w) d) of
              (Some ds, Some bs) \<Rightarrow> sess_ok ds bs
            | (None, None) \<Rightarrow> True
            | _ \<Rightarrow> False"
    using assms(1) unfolding world_ok_def by blast
  with assms(2) show ?thesis
    using that kget_key[of skey "wsdir w" d ds] kget_key[of bs_discr "bsdir (wbpf w)" d]
    by (auto simp: bbdd_sess_dir_get_session_def bbdd_bpf_sdir_get_session_def split: option.splits)
qed

lemma world_ok_bsess:
  assumes "world_ok w" "bbdd_bpf_sdir_get_session (wbpf w) d = Some bs"
  obtains ds where "bbdd_sess_dir_get_session (wsdir w) d = Some ds" "sess_ok ds bs" "bs_discr bs = d" "skey ds = d"
proof -
  have "case (bbdd_sess_dir_get_session (wsdir w) d, bbdd_bpf_sdir_get_session (wbpf w) d) of
              (Some ds, Some bs) \<Rightarrow> sess_ok ds bs
            | (None, None) \<Rightarrow> True
            | _ \<Rightarrow> False"
    using assms(1) unfolding world_ok_def by blast
  with assms(2) show ?thesis
    using that kget_key[of skey "wsdir w" d] kget_key[of bs_discr "bsdir (wbpf w)" d bs]
    by (auto simp: bbdd_sess_dir_get_session_def bbdd_bpf_sdir_get_session_def split: option.splits)
qed

definition ucfgs :: "world \<Rightarrow> session_config list" where
  "ucfgs w = map ucfg (wsdir w)"

lemma ucfgs_wbpf [simp]: "ucfgs (w\<lparr>wbpf := b\<rparr>) = ucfgs w"
  by (simp add: ucfgs_def)

text \<open>Writing back the result of a handler.\<close>

lemma world_ok_put:
  assumes w: "world_ok w" and d: "bbdd_sess_dir_get_session (wsdir w) (skey ds) = Some ds"
    "bbdd_bpf_sdir_get_session (wbpf w) (bs_discr bs) = Some bs" "skey ds = bs_discr bs"
    and post: "hs_post (wbpf w) ds bs b' ds' bs'"
  shows "world_ok (w\<lparr>wbpf := put_bsess bs' b', wsdir := put_dsess ds' (wsdir w)\<rparr>)
    \<and> ucfgs (w\<lparr>wbpf := put_bsess bs' b', wsdir := put_dsess ds' (wsdir w)\<rparr>) = ucfgs w"
proof -
  have "map ucfg (kset skey ds' (wsdir w)) = map ucfg (wsdir w)"
    by (rule kset_same[of skey _ _ ds]) (use w d(1) post in \<open>simp_all add: world_ok_def hs_post_def bbdd_sess_dir_get_session_def\<close>)
  then have s: "ucfgs (w\<lparr>wbpf := put_bsess bs' b', wsdir := put_dsess ds' (wsdir w)\<rparr>) = ucfgs w"
    by (simp add: ucfgs_def put_dsess_def)
  have f: "bsdir b' = bsdir (wbpf w)" "tx_step (bs_discr bs) (wbpf w) b'" "bs_discr bs' = bs_discr bs"
    "skey ds' = skey ds" "sess_ok ds' bs'" "bstate bs' \<noteq> ON_HOLD"
    using post by (simp_all add: hs_post_def sess_frame_def)
  have g: "kget bs_discr (kset bs_discr bs' (bsdir (wbpf w))) x
      = (if x = bs_discr bs then Some bs' else kget bs_discr (bsdir (wbpf w)) x)" for x
    using d(2) f(3) by (auto simp: kget_set bbdd_bpf_sdir_get_session_def)
  have h: "kget skey (kset skey ds' (wsdir w)) x = (if x = bs_discr bs then Some ds' else kget skey (wsdir w) x)" for x
    using d(1,3) f(4) by (auto simp: kget_set bbdd_sess_dir_get_session_def)
  have l: "linked (slotmem b' k) \<Longrightarrow> sl_discr (slotmem b' k) = slot_sess k
       \<and> (slot_sess k = bs_discr bs \<or> (\<exists>bs. kget bs_discr (bsdir (wbpf w)) (slot_sess k) = Some bs \<and> bstate bs \<noteq> ON_HOLD))" for k
    using w f(2) unfolding world_ok_def tx_step_def bbdd_bpf_sdir_get_session_def by metis
  show ?thesis
    using w f s unfolding world_ok_def
    by (auto simp: put_bsess_def put_dsess_def bbdd_bpf_sdir_get_session_def bbdd_sess_dir_get_session_def
        kwf_set g h tx_step_def dest!: l)
qed

lemma world_ok_wf:
  assumes "world_ok w"
  shows "kwf skey (wsdir w)" "kwf bs_discr (bsdir (wbpf w))" "tx_inv (txq (wbpf w)) (slotmem (wbpf w))"
  using assms unfolding world_ok_def by blast+

lemma put_same_dsess:
  assumes "world_ok w" "bbdd_sess_dir_get_session (wsdir w) (skey ds) = Some ds"
  shows "put_dsess ds (wsdir w) = wsdir w"
  using kset_unchanged[OF world_ok_wf(1)[OF assms(1)]] assms(2)
  by (simp add: put_dsess_def bbdd_sess_dir_get_session_def)

lemma put_same_bsess:
  assumes "world_ok w" "bbdd_bpf_sdir_get_session (wbpf w) (bs_discr bs) = Some bs"
  shows "put_bsess bs (wbpf w) = wbpf w"
  using kset_unchanged[OF world_ok_wf(2)[OF assms(1)]] assms(2)
  by (simp add: put_bsess_def bbdd_bpf_sdir_get_session_def)

lemma handle_packet_world:
  assumes w: "world_ok w" and m: "\<And>ds. mds = Some ds \<Longrightarrow> bbdd_sess_dir_get_session (wsdir w) (skey ds) = Some ds"
  shows "\<exists>w'. bbdd_bpf_handle_packet env w mds pkt wl ttl = Some w' \<and> world_ok w' \<and> ucfgs w' = ucfgs w"
proof (cases mds)
  case None
  with w show ?thesis by (simp add: bbdd_bpf_handle_packet_def)
next
  case (Some ds)
  note get = m[OF Some]
  obtain bs where bs: "bbdd_bpf_sdir_get_session (wbpf w) (skey ds) = Some bs" "sess_ok ds bs" "bs_discr bs = skey ds"
    using world_ok_sess[OF w get] by metis
  show ?thesis
  proof (cases "bstate bs = ON_HOLD")
    case True
    have "put_bsess bs (wbpf w) = wbpf w" "put_dsess ds (wsdir w) = wsdir w"
      using put_same_bsess[OF w] put_same_dsess[OF w get] bs(1,3) by simp_all
    with True w bs(1) show ?thesis
      by (simp add: Some bbdd_bpf_handle_packet_def handle_packet_sess_def flip: skey_def)
  next
    case False
    obtain b' ds' bs' where h: "handle_packet_sess env (wbpf w) ds bs pkt wl ttl = Some (b', ds', bs')"
      "hs_post (wbpf w) ds bs b' ds' bs'" using handle_packet_sess_ok[OF bs(2) False] by metis
    have "bbdd_bpf_sdir_get_session (wbpf w) (bs_discr bs) = Some bs" using bs(1,3) by simp
    from world_ok_put[OF w get this bs(3)[symmetric] h(2)] h(1) bs(1) show ?thesis
      by (simp add: Some bbdd_bpf_handle_packet_def flip: skey_def)
  qed
qed

lemma timeout_world:
  assumes w: "world_ok w"
    and nh: "\<And>bs. bbdd_bpf_sdir_get_session (wbpf w) d = Some bs \<Longrightarrow> bstate bs \<noteq> ON_HOLD"
  shows "\<exists>w'. bbdd_bpf_rb_handle_timeout env w d = Some w' \<and> world_ok w' \<and> ucfgs w' = ucfgs w"
proof (cases "bbdd_sess_dir_get_session (wsdir w) d")
  case None
  with w show ?thesis by (simp add: bbdd_bpf_rb_handle_timeout_def)
next
  case (Some ds)
  obtain bs where bs: "bbdd_bpf_sdir_get_session (wbpf w) d = Some bs" "sess_ok ds bs" "bs_discr bs = d" "skey ds = d"
    using world_ok_sess[OF w Some] .
  obtain b' ds' bs' where h: "timeout_sess env (wbpf w) ds bs = Some (b', ds', bs')"
    "hs_post (wbpf w) ds bs b' ds' bs'" using timeout_sess_ok[OF bs(2) nh[OF bs(1)]] by metis
  have "bbdd_sess_dir_get_session (wsdir w) (skey ds) = Some ds"
    "bbdd_bpf_sdir_get_session (wbpf w) (bs_discr bs) = Some bs" "skey ds = bs_discr bs" using bs Some by simp_all
  from world_ok_put[OF w this h(2)] h(1) bs(1) Some show ?thesis
    by (simp add: bbdd_bpf_rb_handle_timeout_def)
qed

lemma world_ok_frame:
  assumes "world_ok w" "bsdir b' = bsdir (wbpf w)" "txq b' = txq (wbpf w)" "slotmem b' = slotmem (wbpf w)"
  shows "world_ok (w\<lparr>wbpf := b'\<rparr>)"
  using assms unfolding world_ok_def bbdd_bpf_sdir_get_session_def by simp

subsection \<open>Draining\<close>

lemma tx_inv_cong:
  assumes "tx_inv tx ss" "\<And>k. linked (ss' k) = linked (ss k)" "\<And>k. linked (ss k) \<Longrightarrow> ss' k = ss k"
  shows "tx_inv tx ss'"
proof -
  have "ss' k = ss k" if "k \<in> set (tx_order tx)" for k
    using assms that by (simp add: tx_inv_def)
  then show ?thesis using assms(1,2) by (auto simp: tx_inv_def tx_order_def list_all_iff)
qed

lemma world_ok_unlink:
  assumes w: "world_ok w" and u: "bbdd_tx_unlink (txq (wbpf w)) (slotmem (wbpf w)) k = (tx', ss')"
  shows "world_ok (w\<lparr>wbpf := (wbpf w)\<lparr>txq := tx', slotmem := ss'\<rparr>\<rparr>)"
proof -
  have i: "tx_inv tx' ss'" using tx_inv_unlink[OF world_ok_wf(3)[OF w] u] .
  have l: "linked (ss' j) \<Longrightarrow> ss' j = slotmem (wbpf w) j" for j
    using tx_unlink_slot[OF u, of j] by (auto split: if_splits)
  have "linked (ss' j) \<Longrightarrow> sl_discr (ss' j) = slot_sess j
      \<and> (\<exists>bs. bbdd_bpf_sdir_get_session (wbpf w) (slot_sess j) = Some bs \<and> bstate bs \<noteq> ON_HOLD)" for j
    using w l[of j] unfolding world_ok_def by metis
  then show ?thesis
    using w i unfolding world_ok_def bbdd_bpf_sdir_get_session_def by simp
qed

text \<open>Serving one slot when the socket has room: the slot leaves the queue and
  nothing is queued again.\<close>

lemma drain_send_ok:
  assumes ok: "sess_ok ds bs" and nh: "bstate bs \<noteq> ON_HOLD" and cap: "bbdd_bpf_tx_have_capacity b"
  shows "\<exists>b' bs' r. (if is_final slot
                then do {
                  (b, r) \<leftarrow> bbdd_bpf_session_inject_pkt env b ds bs (sl_tx_ifindex slot)
                              (sl_bfd_flags slot);
                  Some (b, bs, r)
                }
                else session_update env b ds bs) = Some (b', bs', r)
    \<and> core_eq b b' \<and> same_conf bs bs'"
proof (cases "is_final slot")
  case True
  obtain bd where bd: "current_bdata bs = Some bd" "mult_ok bd" using current_bdata_ok[OF ok nh] .
  obtain b' r where "bbdd_bpf_session_inject_pkt env b ds bs (sl_tx_ifindex slot) (sl_bfd_flags slot) = Some (b', r)"
    using inject_total[OF bd] by blast
  with True inject_core[OF this] show ?thesis by simp
next
  case False
  with session_update_total[OF ok nh, of env b] push_frame[of ds bs b env] cap show ?thesis by auto
qed

lemma drain_slot_ok:
  assumes w: "world_ok w" and pk: "bbdd_tx_peek (txq (wbpf w)) = Some k"
    and cap: "bbdd_bpf_tx_have_capacity (wbpf w)"
  shows "\<exists>w'. drain_slot env w k = Some w' \<and> world_ok w' \<and> wsdir w' = wsdir w
    \<and> tx_order (txq (wbpf w)) = k # tx_order (txq (wbpf w'))
    \<and> user_diag (wbpf w') Sk_deq_count = user_diag (wbpf w) Sk_deq_count + 1"
proof -
  define b where "b = wbpf w"
  obtain tx1 ss1 where u: "bbdd_tx_unlink (txq b) (slotmem b) k = (tx1, ss1)" by force
  define b1 where "b1 = b\<lparr>txq := tx1, slotmem := ss1\<rparr>"
  have inv: "tx_inv (txq b) (slotmem b)" using world_ok_wf(3)[OF w] by (simp add: b_def)
  have ord: "tx_order (txq b) = k # tx_order tx1" using tx_serve_one[OF inv _ u] pk by (simp add: b_def)
  have "linked (slotmem b k)" using tx_inv_linked[OF inv] ord by simp
  then obtain bs where sl: "sl_discr (slotmem b k) = slot_sess k"
      and bs: "bbdd_bpf_sdir_get_session b (slot_sess k) = Some bs" and nh: "bstate bs \<noteq> ON_HOLD"
    using w unfolding world_ok_def b_def by blast
  obtain ds where ds: "bbdd_sess_dir_get_session (wsdir w) (slot_sess k) = Some ds" "sess_ok ds bs"
      "bs_discr bs = slot_sess k" "skey ds = slot_sess k"
    using world_ok_bsess[OF w] bs b_def by metis
  have w1: "world_ok (w\<lparr>wbpf := b1\<rparr>)" using world_ok_unlink[OF w] u by (simp add: b_def b1_def)
  have cap1: "bbdd_bpf_tx_have_capacity b1"
    using cap by (simp add: b1_def b_def bbdd_bpf_tx_have_capacity_def bbdd_bpf_tx_pinned_def)
  obtain b2 bs2 r where s: "(if is_final (slotmem b k)
                then do {
                  (b, r) \<leftarrow> bbdd_bpf_session_inject_pkt env b1 ds bs (sl_tx_ifindex (slotmem b k))
                              (sl_bfd_flags (slotmem b k));
                  Some (b, bs, r)
                }
                else session_update env b1 ds bs) = Some (b2, bs2, r)"
    and c: "core_eq b1 b2" and sc: "same_conf bs bs2"
    using drain_send_ok[OF ds(2) nh cap1] by blast
  define b3 where "b3 = (case r of Inl e \<Rightarrow> emit (Mon_err e) b2 | Inr _ \<Rightarrow> b2)"
  define b4 where "b4 = b3\<lparr>user_diag := bump Sk_deq_count (user_diag b3)\<rparr>"
  have fr: "txq b4 = tx1" "sess_frame (bs_discr bs) b1 b4"
      "user_diag b4 Sk_deq_count = user_diag b Sk_deq_count + 1"
    using c core_sess_frame[OF c]
    by (auto simp: core_eq_def sess_frame_def tx_step_def b1_def b4_def b3_def bump_def split: sum.split)
  have post: "hs_post b1 ds bs b4 ds bs2"
    using fr same_conf_ok[OF sc] same_conf_sel[OF sc] ds(2) nh by (simp add: hs_post_def)
  have bs1: "bbdd_bpf_sdir_get_session b1 (slot_sess k) = Some bs"
    using bs by (simp add: bbdd_bpf_sdir_get_session_def b1_def)
  have pd: "put_dsess ds (wsdir w) = wsdir w"
    using put_same_dsess[OF w] ds by simp
  have "world_ok (w\<lparr>wbpf := put_bsess bs2 b4\<rparr>)"
    using world_ok_put[OF w1, of ds bs b4 ds bs2] post bs1 ds pd by simp
  moreover have "drain_slot env w k = Some (w\<lparr>wbpf := put_bsess bs2 b4\<rparr>)"
    unfolding drain_slot_def Let_def b_def[symmetric] u prod.case b1_def[symmetric] sl ds(1) bs1
      Option.bind.bind_lunit s b3_def[symmetric] b4_def[symmetric] ..
  moreover have "tx_order (txq (put_bsess bs2 b4)) = tx_order tx1" "user_diag (put_bsess bs2 b4) Sk_deq_count = user_diag b Sk_deq_count + 1"
    using fr by (simp_all add: put_bsess_def)
  ultimately show ?thesis using ord by (simp add: b_def)
qed


lemma drain_loop_ok:
  assumes "world_ok w"
  shows "\<exists>w' n. drain_loop env w = Some w' \<and> world_ok w' \<and> wsdir w' = wsdir w
    \<and> tx_order (txq (wbpf w')) = drop n (tx_order (txq (wbpf w)))
    \<and> n \<le> length (tx_order (txq (wbpf w)))
    \<and> user_diag (wbpf w') Sk_deq_count = user_diag (wbpf w) Sk_deq_count + of_nat n
    \<and> (tx_order (txq (wbpf w')) = [] \<or> \<not> bbdd_bpf_tx_have_capacity (wbpf w'))"
  using assms
proof (induction "tx_order (txq (wbpf w))" arbitrary: w)
  case Nil
  then have "bbdd_tx_peek (txq (wbpf w)) = None" by (simp add: tx_peek_order flip: Nil(1))
  with Nil show ?case by (auto simp: drain_loop.simps)
next
  case (Cons k ks)
  then have pk: "bbdd_tx_peek (txq (wbpf w)) = Some k" by (simp add: tx_peek_order flip: Cons(2))
  show ?case
  proof (cases "bbdd_bpf_tx_have_capacity (wbpf w)")
    case False
    with pk Cons.prems show ?thesis by (auto simp: drain_loop.simps intro!: exI[of _ "0::nat"])
  next
    case True
    obtain w1 where w1: "drain_slot env w k = Some w1" "world_ok w1" "wsdir w1 = wsdir w"
      "tx_order (txq (wbpf w)) = k # tx_order (txq (wbpf w1))"
      "user_diag (wbpf w1) Sk_deq_count = user_diag (wbpf w) Sk_deq_count + 1"
      using drain_slot_ok[OF Cons.prems pk True] by metis
    have "ks = tx_order (txq (wbpf w1))" using w1(4) Cons(2) by simp
    from Cons.hyps(1)[OF this w1(2)] obtain w' n where IH: "drain_loop env w1 = Some w'" "world_ok w'" "wsdir w' = wsdir w1"
      "tx_order (txq (wbpf w')) = drop n (tx_order (txq (wbpf w1)))" "n \<le> length (tx_order (txq (wbpf w1)))"
      "user_diag (wbpf w') Sk_deq_count = user_diag (wbpf w1) Sk_deq_count + of_nat n"
      "tx_order (txq (wbpf w')) = [] \<or> \<not> bbdd_bpf_tx_have_capacity (wbpf w')" by blast
    have "drain_loop env w = Some w'" using pk True w1(1) IH(1) by (subst drain_loop.simps) simp
    then show ?thesis using w1 IH
      by (intro exI[of _ w'] exI[of _ "Suc n"]) (auto simp: add_ac)
  qed
qed

end
