(* ===== verification/Bpf_Lifecycle.thy ===== *)
theory Bpf_Lifecycle
  imports Bpf_Safety
begin

text \<open>
  The life of a session from the daemon's side: \<open>bbdd_bpf_session_add\<close>,
  \<open>bbdd_bpf_session_update\<close>, \<open>bbdd_bpf_session_del\<close> and the callbacks of the hold
  and shutdown timers keep \<open>world_ok\<close>; a failed creation leaves nothing behind and
  a deletion removes every trace.  The hold timers are a client of the timer
  interface.
\<close>

subsection \<open>Creating and deleting sessions\<close>

text \<open>The part of the state that \<open>world_ok\<close> reads.\<close>

definition tab_eq :: "bbdd_bpf \<Rightarrow> bbdd_bpf \<Rightarrow> bool" where
  "tab_eq b b' \<longleftrightarrow> bsdir b' = bsdir b \<and> txq b' = txq b \<and> slotmem b' = slotmem b"

lemma tab_eq_trans [trans]: "tab_eq a b \<Longrightarrow> tab_eq b c \<Longrightarrow> tab_eq a c"
  by (simp add: tab_eq_def)

lemma tab_eq_refl [simp]: "tab_eq b b" "tab_eq b (tock b)" "tab_eq b (emit n b)"
  by (simp_all add: tab_eq_def)

lemma timer_cancel_sel [simp]:
  "bsdir (timer_cancel env p b) = bsdir b" "txq (timer_cancel env p b) = txq b"
  "slotmem (timer_cancel env p b) = slotmem b" "config_hash (timer_cancel env p b) = config_hash b"
  "data_hash (timer_cancel env p b) = data_hash b" "tx_capacity (timer_cancel env p b) = tx_capacity b"
  by (simp_all add: timer_cancel_def split: prod.split bool.split)

lemma timer_set_tab: "timer_set env dly fn b = (r, b') \<Longrightarrow> tab_eq b b' \<and> config_hash b' = config_hash b \<and> data_hash b' = data_hash b"
  by (auto simp: timer_set_def tab_eq_def split: prod.splits)

lemma resize_tab:
  "bbdd_bpf_tx_resize env b add = (b', r) \<Longrightarrow> tab_eq b b' \<and> config_hash b' = config_hash b \<and> data_hash b' = data_hash b"
  by (auto simp: bbdd_bpf_tx_resize_def bbdd_bpf_tx_apply_capacity_def Let_def tab_eq_def split: if_splits)

lemma conf_add_tab: "bbdd_bpf_session_conf_add env b ds bs = (b', r) \<Longrightarrow> tab_eq b b'"
  by (auto simp: bbdd_bpf_session_conf_add_def bbdd_bpf_session_conf_update_def Let_def tab_eq_def
      split: prod.splits sum.splits if_splits)

lemma conf_add_maps:
  assumes "bbdd_bpf_session_conf_add env b ds bs = (b', r)" "d = discr (sess_local ds)"
  shows "x \<noteq> d \<Longrightarrow> config_hash b' x = config_hash b x \<and> data_hash b' x = data_hash b x"
    and "r = Inr u \<Longrightarrow> data_hash b' d = Some zero_data \<and> config_hash b' d \<noteq> None"
    and "r = Inl e \<Longrightarrow> config_hash b d = None \<Longrightarrow> config_hash b' d = None"
    and "r = Inl e \<Longrightarrow> data_hash b' d = data_hash b d"
  using assms
  by (auto simp: bbdd_bpf_session_conf_add_def bbdd_bpf_session_conf_update_def Let_def
      split: prod.splits sum.splits if_splits)

lemma hold_start_cases:
  assumes "bbdd_bpf_hold_start env b ds bs = (b', bs', r)"
  shows "tab_eq b b' \<and> config_hash b' = config_hash b \<and> data_hash b' = data_hash b
    \<and> (case r of Inl _ \<Rightarrow> bs' = bs | Inr _ \<Rightarrow> \<exists>p. bs' = bs\<lparr>bs_hold := Some p\<rparr>)"
proof (cases "e_malloc env (tick b)")
  case None
  with assms show ?thesis by (auto simp: bbdd_bpf_hold_start_def bbdd_bpf_hold_create_def tab_eq_def)
next
  case (Some q)
  obtain r0 b0 where t: "timer_set env (ucast (hold_time_us ds)) (Hold_cb (bs_discr bs)) (tock b) = (r0, b0)" by force
  from timer_set_tab[OF t] assms Some t show ?thesis
    by (cases r0) (auto simp: bbdd_bpf_hold_start_def bbdd_bpf_hold_create_def tab_eq_def)
qed

text \<open>A new session: what is added on success and that nothing is left behind on
  failure.\<close>

definition added :: "bbdd_bpf \<Rightarrow> u32 \<Rightarrow> bbdd_bpf \<Rightarrow> bool" where
  "added b d b' \<longleftrightarrow> (\<exists>p. bsdir b' = kadd ((zero_bsession d)\<lparr>bs_hold := Some p\<rparr>) (bsdir b))
     \<and> data_hash b' d = Some zero_data \<and> config_hash b' d \<noteq> None"

definition unchanged :: "bbdd_bpf \<Rightarrow> u32 \<Rightarrow> bbdd_bpf \<Rightarrow> bool" where
  "unchanged b d b' \<longleftrightarrow> bsdir b' = bsdir b \<and> config_hash b' d = None \<and> data_hash b' d = None"

definition kept :: "bbdd_bpf \<Rightarrow> u32 \<Rightarrow> bbdd_bpf \<Rightarrow> bool" where
  "kept b d b' \<longleftrightarrow> bsdir b' = bsdir b
     \<and> (config_hash b d = None \<longrightarrow> config_hash b' d = None) \<and> data_hash b' d = data_hash b d"

lemma kept_unchanged:
  "kept b d b' \<Longrightarrow> config_hash b d = None \<Longrightarrow> data_hash b d = None \<Longrightarrow> unchanged b d b'"
  by (simp add: kept_def unchanged_def)

lemma session_add_ok:
  assumes d: "d = discr (sess_local ds)"
  shows "\<exists>b' r. bbdd_bpf_session_add env b ds = Some (b', r)
    \<and> txq b' = txq b
    \<and> (slotmem b' = slotmem b \<or> slotmem b' = (slotmem b)(Final_slot d := zero_slot, Periodic_slot d := zero_slot))
    \<and> (\<forall>x. x \<noteq> d \<longrightarrow> config_hash b' x = config_hash b x \<and> data_hash b' x = data_hash b x)
    \<and> (case r of Inl _ \<Rightarrow> kept b d b'
       | Inr _ \<Rightarrow> added b d b' \<and> slotmem b' = (slotmem b)(Final_slot d := zero_slot, Periodic_slot d := zero_slot))"
proof (cases "e_malloc env (tick b)")
  case None
  then show ?thesis by (simp add: bbdd_bpf_session_add_def kept_def)
next
  case (Some q)
  define b0 where "b0 = (tock b)\<lparr>slotmem := (slotmem b)(Final_slot d := zero_slot, Periodic_slot d := zero_slot)\<rparr>"
  have b0: "bsdir b0 = bsdir b" "txq b0 = txq b" "config_hash b0 = config_hash b" "data_hash b0 = data_hash b"
     "slotmem b0 = (slotmem b)(Final_slot d := zero_slot, Periodic_slot d := zero_slot)"
    by (simp_all add: b0_def)
  obtain b1 bs1 r1 where h: "bbdd_bpf_hold_start env b0 ds (zero_bsession d) = (b1, bs1, r1)" by (metis surj_pair)
  have h1: "tab_eq b0 b1" "config_hash b1 = config_hash b" "data_hash b1 = data_hash b"
    using hold_start_cases[OF h] b0 by auto
  have eq: "bbdd_bpf_session_add env b ds =
    (case r1 of Inl e \<Rightarrow> Some (b1, Inl e) | Inr _ \<Rightarrow>
       (case bbdd_bpf_tx_resize env b1 True of
                  (bpf2, Inl e) \<Rightarrow> do {
                    (bpf3, _) \<leftarrow> bbdd_bpf_hold_stop env bpf2 bs1;
                    Some (bpf3, Inl e)
                  }
                | (bpf2, Inr _) \<Rightarrow>
                    (case bbdd_bpf_session_conf_add env bpf2 ds bs1 of
                       (bpf3, Inl e) \<Rightarrow> do {
                         (bpf4, _) \<leftarrow> bbdd_bpf_hold_stop env bpf3 bs1;
                         Some (bpf4, Inl e)
                       }
                     | (bpf3, Inr _) \<Rightarrow> Some (bpf3\<lparr>bsdir := kadd bs1 (bsdir bpf3)\<rparr>, Inr ()))))"
    unfolding bbdd_bpf_session_add_def Let_def Some d[symmetric] b0_def[symmetric] h
    by (simp split: sum.split)
  show ?thesis
  proof (cases r1)
    case (Inl e)
    then show ?thesis using eq h1 b0 by (auto simp: tab_eq_def kept_def)
  next
    case (Inr u)
    then obtain p where bs1: "bs1 = (zero_bsession d)\<lparr>bs_hold := Some p\<rparr>" using hold_start_cases[OF h] by auto
    obtain b2 r2 where r2: "bbdd_bpf_tx_resize env b1 True = (b2, r2)" by force
    obtain b3 r3 where r3: "bbdd_bpf_session_conf_add env b2 ds bs1 = (b3, r3)" by force
    have t2: "tab_eq b0 b2" "config_hash b2 = config_hash b" "data_hash b2 = data_hash b"
      using resize_tab[OF r2] h1 tab_eq_trans by auto
    have t3: "tab_eq b0 b3" using tab_eq_trans[OF t2(1) conf_add_tab[OF r3]] .
    note m = conf_add_maps[OF r3 d]
    show ?thesis
    proof (cases r2)
      case (Inl e)
      then show ?thesis using eq Inr r2 t2 b0
        by (simp add: bs1 bbdd_bpf_hold_stop_def tab_eq_def kept_def)
    next
      case (Inr u2)
      show ?thesis
      proof (cases r3)
        case (Inl e)
        have "config_hash b d = None \<longrightarrow> config_hash b3 d = None" "data_hash b3 d = data_hash b d"
          using m(3,4)[of e] Inl t2 by simp_all
        then show ?thesis using eq \<open>r1 = Inr u\<close> Inr Inl r2 r3 t3 b0 m(1) t2(2,3)
          by (simp add: bs1 bbdd_bpf_hold_stop_def tab_eq_def kept_def)
      next
        case (Inr u3)
        then show ?thesis using eq \<open>r1 = Inr u\<close> \<open>r2 = Inr u2\<close> r2 r3 t3 b0 m(1,2) t2(2,3)
          by (auto simp: bs1 tab_eq_def added_def)
      qed
    qed
  qed
qed


lemma world_ok_unlinked:
  assumes "world_ok w" "bbdd_bpf_sdir_get_session (wbpf w) (slot_sess k) = None"
  shows "\<not> linked (slotmem (wbpf w) k)"
  using assms unfolding world_ok_def by fastforce

lemma world_ok_none:
  assumes "world_ok w"
  shows "bbdd_sess_dir_get_session (wsdir w) d = None \<longleftrightarrow> bbdd_bpf_sdir_get_session (wbpf w) d = None"
proof -
  have "case (bbdd_sess_dir_get_session (wsdir w) d, bbdd_bpf_sdir_get_session (wbpf w) d) of
              (Some ds, Some bs) \<Rightarrow> sess_ok ds bs | (None, None) \<Rightarrow> True | _ \<Rightarrow> False"
    using assms unfolding world_ok_def by blast
  then show ?thesis by (auto split: option.splits)
qed

text \<open>Clearing the slots of a session that is not there.\<close>

lemma world_ok_slots:
  assumes w: "world_ok w" and n: "bbdd_bpf_sdir_get_session (wbpf w) d = None"
    and b': "bsdir b' = bsdir (wbpf w)" "txq b' = txq (wbpf w)"
      "slotmem b' = slotmem (wbpf w)
        \<or> slotmem b' = (slotmem (wbpf w))(Final_slot d := zero_slot, Periodic_slot d := zero_slot)"
  shows "world_ok (w\<lparr>wbpf := b'\<rparr>)"
proof -
  have u: "\<not> linked (slotmem (wbpf w) (Final_slot d))" "\<not> linked (slotmem (wbpf w) (Periodic_slot d))"
    using world_ok_unlinked[OF w] n by simp_all
  have l: "linked (slotmem b' k) = linked (slotmem (wbpf w) k)"
    "linked (slotmem (wbpf w) k) \<Longrightarrow> slotmem b' k = slotmem (wbpf w) k" for k
    using b'(3) u by (auto simp: zero_slot_def split: if_splits)
  have "tx_inv (txq b') (slotmem b')" using tx_inv_cong[OF world_ok_wf(3)[OF w] l] b'(2) by simp
  moreover have "linked (slotmem b' k) \<Longrightarrow> sl_discr (slotmem b' k) = slot_sess k
      \<and> (\<exists>bs. bbdd_bpf_sdir_get_session (wbpf w) (slot_sess k) = Some bs \<and> bstate bs \<noteq> ON_HOLD)" for k
    using w l[of k] unfolding world_ok_def by metis
  ultimately show ?thesis
    using w b'(1) unfolding world_ok_def bbdd_bpf_sdir_get_session_def by simp
qed

lemma world_ok_add:
  assumes w: "world_ok w" and n: "bbdd_sess_dir_get_session (wsdir w) d = None"
    and bs: "sess_ok ds bs" "skey ds = d" "bs_discr bs = d"
    and b': "bsdir b' = kadd bs (bsdir (wbpf w))" "txq b' = txq (wbpf w)" "slotmem b' = slotmem (wbpf w)"
  shows "world_ok (w\<lparr>wbpf := b', wsdir := kadd ds (wsdir w)\<rparr>)"
proof -
  have nb: "kget bs_discr (bsdir (wbpf w)) d = None"
    using world_ok_none[OF w] n by (simp add: bbdd_bpf_sdir_get_session_def)
  have nd: "kget skey (wsdir w) d = None" using n by (simp add: bbdd_sess_dir_get_session_def)
  have g: "kget bs_discr (kadd bs (bsdir (wbpf w))) x = (if x = d then Some bs else kget bs_discr (bsdir (wbpf w)) x)"
    "kget skey (kadd ds (wsdir w)) x = (if x = d then Some ds else kget skey (wsdir w) x)" for x
    using nb nd bs by (simp_all add: kget_add split: option.split)
  have l: "linked (slotmem (wbpf w) k) \<Longrightarrow> sl_discr (slotmem (wbpf w) k) = slot_sess k \<and> slot_sess k \<noteq> d
      \<and> (\<exists>bs. kget bs_discr (bsdir (wbpf w)) (slot_sess k) = Some bs \<and> bstate bs \<noteq> ON_HOLD)" for k
    using w nb unfolding world_ok_def bbdd_bpf_sdir_get_session_def by (metis option.discI)
  have wf: "kwf skey (kadd ds (wsdir w))" "kwf bs_discr (kadd bs (bsdir (wbpf w)))"
    using world_ok_wf[OF w] kwf_add nb nd bs by metis+
  have old: "case (kget skey (wsdir w) x, kget bs_discr (bsdir (wbpf w)) x) of
              (Some ds, Some bs) \<Rightarrow> sess_ok ds bs | (None, None) \<Rightarrow> True | _ \<Rightarrow> False" for x
    using w unfolding world_ok_def bbdd_bpf_sdir_get_session_def bbdd_sess_dir_get_session_def by blast
  show ?thesis
    unfolding world_ok_def bbdd_bpf_sdir_get_session_def bbdd_sess_dir_get_session_def
    using wf world_ok_wf(3)[OF w] old l bs by (auto simp: b' g)
qed

lemma zero_bsession_ok:
  assumes "detect_mult (timing (sess_local ds)) \<noteq> 0" "detect_mult (timing (sess_remote ds)) \<noteq> 0"
  shows "sess_ok ds ((zero_bsession (skey ds))\<lparr>bs_hold := Some p\<rparr>)"
  using assms by (simp add: sess_ok_def zero_bsession_def skey_def)

lemma session_add_world:
  assumes w: "world_ok w" and n: "bbdd_sess_dir_get_session (wsdir w) (skey ds) = None"
    and m: "detect_mult (timing (sess_local ds)) \<noteq> 0" "detect_mult (timing (sess_remote ds)) \<noteq> 0"
  shows "\<exists>b' r. bbdd_bpf_session_add env (wbpf w) ds = Some (b', r)
    \<and> (case r of Inl _ \<Rightarrow> world_ok (w\<lparr>wbpf := b'\<rparr>) \<and> kept (wbpf w) (skey ds) b'
       | Inr _ \<Rightarrow> world_ok (w\<lparr>wbpf := b', wsdir := kadd ds (wsdir w)\<rparr>) \<and> added (wbpf w) (skey ds) b')"
proof -
  define d where "d = skey ds"
  have nb: "bbdd_bpf_sdir_get_session (wbpf w) d = None" using world_ok_none[OF w] n by (simp add: d_def)
  have fd: "d = discr (sess_local ds)" by (simp add: d_def skey_def)
  obtain b' r where s: "bbdd_bpf_session_add env (wbpf w) ds = Some (b', r)" "txq b' = txq (wbpf w)"
    "slotmem b' = slotmem (wbpf w)
      \<or> slotmem b' = (slotmem (wbpf w))(Final_slot d := zero_slot, Periodic_slot d := zero_slot)"
    and sr: "case r of Inl _ \<Rightarrow> kept (wbpf w) d b'
       | Inr _ \<Rightarrow> added (wbpf w) d b' \<and> slotmem b' = (slotmem (wbpf w))(Final_slot d := zero_slot, Periodic_slot d := zero_slot)"
    using session_add_ok[OF fd, of env] by blast
  show ?thesis
  proof (cases r)
    case (Inl e)
    then show ?thesis using s sr world_ok_slots[OF w nb, of b'] by (simp add: kept_def d_def)
  next
    case (Inr u)
    then obtain p where p: "bsdir b' = kadd ((zero_bsession d)\<lparr>bs_hold := Some p\<rparr>) (bsdir (wbpf w))"
      "added (wbpf w) d b'" using sr by (auto simp: added_def)
    define b0 where "b0 = b'\<lparr>bsdir := bsdir (wbpf w)\<rparr>"
    have "world_ok (w\<lparr>wbpf := b0\<rparr>)" using world_ok_slots[OF w nb, of b0] s by (simp add: b0_def)
    from world_ok_add[OF this _ zero_bsession_ok[OF m, of p] refl, of b'] show ?thesis
      using n p s Inr by (simp add: b0_def zero_bsession_def d_def)
  qed
qed


lemma world_ok_del:
  assumes w: "world_ok w" and nl: "\<And>k. slot_sess k = d \<Longrightarrow> \<not> linked (slotmem (wbpf w) k)"
    and b': "bsdir b' = kdel bs_discr d (bsdir (wbpf w))" "txq b' = txq (wbpf w)" "slotmem b' = slotmem (wbpf w)"
  shows "world_ok (w\<lparr>wbpf := b', wsdir := bbdd_sess_dir_del_session (wsdir w) d\<rparr>)"
proof -
  have wf: "kwf skey (kdel skey d (wsdir w))" "kwf bs_discr (kdel bs_discr d (bsdir (wbpf w)))"
    using world_ok_wf[OF w] kwf_del by metis+
  have old: "case (kget skey (wsdir w) x, kget bs_discr (bsdir (wbpf w)) x) of
              (Some ds, Some bs) \<Rightarrow> sess_ok ds bs | (None, None) \<Rightarrow> True | _ \<Rightarrow> False" for x
    using w unfolding world_ok_def bbdd_bpf_sdir_get_session_def bbdd_sess_dir_get_session_def by blast
  have l: "linked (slotmem (wbpf w) k) \<Longrightarrow> sl_discr (slotmem (wbpf w) k) = slot_sess k \<and> slot_sess k \<noteq> d
      \<and> (\<exists>bs. kget bs_discr (bsdir (wbpf w)) (slot_sess k) = Some bs \<and> bstate bs \<noteq> ON_HOLD)" for k
    using w nl unfolding world_ok_def bbdd_bpf_sdir_get_session_def by metis
  show ?thesis
    unfolding world_ok_def bbdd_bpf_sdir_get_session_def bbdd_sess_dir_get_session_def bbdd_sess_dir_del_session_def
    using wf world_ok_wf(3)[OF w] old l by (auto simp: b' kget_del)
qed

lemma stop_timers_ok:
  "\<exists>b1 bs1 b2 bs2. (if bs_hold bs \<noteq> None then bbdd_bpf_hold_stop env b bs else Some (b, bs)) = Some (b1, bs1)
    \<and> (if bs_shwait bs1 \<noteq> None then bbdd_bpf_shwait_stop env b1 bs1 else Some (b1, bs1)) = Some (b2, bs2)
    \<and> tab_eq b b2 \<and> config_hash b2 = config_hash b \<and> data_hash b2 = data_hash b"
  by (cases "bs_hold bs"; cases "bs_shwait bs")
    (auto simp: bbdd_bpf_hold_stop_def bbdd_bpf_shwait_stop_def tab_eq_def)

lemma session_del_ok:
  assumes w: "world_ok w" and g: "bbdd_bpf_sdir_get_session (wbpf w) d = Some bs"
  shows "\<exists>b'. session_del env (wbpf w) bs = Some b'
    \<and> world_ok (w\<lparr>wbpf := b', wsdir := bbdd_sess_dir_del_session (wsdir w) d\<rparr>)
    \<and> bsdir b' = kdel bs_discr d (bsdir (wbpf w))
    \<and> config_hash b' = (config_hash (wbpf w))(d := None) \<and> data_hash b' = (data_hash (wbpf w))(d := None)
    \<and> (\<forall>k. slot_sess k = d \<longrightarrow> \<not> linked (slotmem b' k))"
proof -
  define b where "b = wbpf w"
  have d: "bs_discr bs = d" using g kget_key by (force simp: bbdd_bpf_sdir_get_session_def)
  obtain b1 bs1 b2 bs2 where
    s1: "(if bs_hold bs \<noteq> None then bbdd_bpf_hold_stop env b bs else Some (b, bs)) = Some (b1, bs1)" and
    s2: "(if bs_shwait bs1 \<noteq> None then bbdd_bpf_shwait_stop env b1 bs1 else Some (b1, bs1)) = Some (b2, bs2)" and
    t2: "tab_eq b b2" "config_hash b2 = config_hash b" "data_hash b2 = data_hash b"
    using stop_timers_ok by blast
  have w2: "world_ok (w\<lparr>wbpf := b2\<rparr>)" using world_ok_frame[OF w] t2(1) by (simp add: tab_eq_def b_def)
  obtain tx3 ss3 where u3: "bbdd_tx_unlink (txq b2) (slotmem b2) (Final_slot d) = (tx3, ss3)" by force
  obtain tx4 ss4 where u4: "bbdd_tx_unlink tx3 ss3 (Periodic_slot d) = (tx4, ss4)" by force
  have w4: "world_ok (w\<lparr>wbpf := b2\<lparr>txq := tx4, slotmem := ss4\<rparr>\<rparr>)"
    using world_ok_unlink[OF world_ok_unlink[OF w2], of "Final_slot d" tx3 ss3 "Periodic_slot d" tx4 ss4] u3 u4
    by simp
  have nl: "slot_sess k = d \<Longrightarrow> \<not> linked (ss4 k)" for k
    using tx_unlink_slot[OF u4, of k] tx_unlink_slot[OF u3, of k] by (cases k) auto
  define b5 where "b5 = bbdd_bpf_session_conf_delete
    (b2\<lparr>txq := tx4, slotmem := ss4, bsdir := kdel bs_discr d (bsdir b2)\<rparr>) d"
  obtain b6 r6 where r6: "bbdd_bpf_tx_resize env b5 False = (b6, r6)" by force
  define b7 where "b7 = (case r6 of Inl e \<Rightarrow> emit (Mon_err e) b6 | Inr _ \<Rightarrow> b6)"
  have t7: "tab_eq b5 b7" "config_hash b7 = config_hash b5" "data_hash b7 = data_hash b5"
    using resize_tab[OF r6] by (auto simp: b7_def tab_eq_def split: sum.split)
  have sel: "bsdir b7 = kdel bs_discr d (bsdir b)" "txq b7 = tx4" "slotmem b7 = ss4"
    "config_hash b7 = (config_hash b)(d := None)" "data_hash b7 = (data_hash b)(d := None)"
    using t7 t2 by (simp_all add: tab_eq_def b5_def bbdd_bpf_session_conf_delete_def)
  have "session_del env b bs = Some b7"
    unfolding session_del_def Let_def d s1 Option.bind.bind_lunit prod.case s2 u3 u4 b5_def[symmetric] r6
    by (simp add: b7_def split: sum.split)
  moreover have "world_ok (w\<lparr>wbpf := b7, wsdir := bbdd_sess_dir_del_session (wsdir w) d\<rparr>)"
    using world_ok_del[OF w4, of d b7] nl t2 sel by (simp add: tab_eq_def b_def)
  ultimately show ?thesis using sel nl by (auto simp: b_def)
qed


subsection \<open>Updates by the user\<close>

lemma session_update_world:
  assumes w: "world_ok w" and g: "bbdd_sess_dir_get_session (wsdir w) (skey ds) = Some ds"
  shows "\<exists>b' ds' r. bbdd_bpf_session_update env (wbpf w) ds = Some (b', ds', r)
    \<and> world_ok (w\<lparr>wbpf := b', wsdir := put_dsess ds' (wsdir w)\<rparr>)
    \<and> ucfgs (w\<lparr>wbpf := b', wsdir := put_dsess ds' (wsdir w)\<rparr>) = ucfgs w"
proof -
  obtain bs where bs: "bbdd_bpf_sdir_get_session (wbpf w) (skey ds) = Some bs" "sess_ok ds bs" "bs_discr bs = skey ds"
    using world_ok_sess[OF w g] by metis
  have gb: "bbdd_bpf_sdir_get_session (wbpf w) (bs_discr bs) = Some bs" using bs(1,3) by simp
  show ?thesis
  proof (cases "bstate bs = ON_HOLD")
    case True
    then show ?thesis using bs(1) w put_same_dsess[OF w g]
      by (simp add: bbdd_bpf_session_update_def flip: skey_def)
  next
    case False
    obtain b1 ds1 bs1 r1 where h: "bbdd_bpf_handle_session_update env (wbpf w) ds bs = Some (b1, ds1, bs1, r1)"
      "hs_post (wbpf w) ds bs b1 ds1 bs1" using handle_session_update_ok[OF bs(2) False] by metis
    show ?thesis
    proof (cases r1)
      case (Inl e)
      then show ?thesis using world_ok_put[OF w g gb bs(3)[symmetric] h(2)] h(1) bs(1) False
        by (simp add: bbdd_bpf_session_update_def flip: skey_def)
    next
      case (Inr u)
      have p: "sess_ok ds1 bs1" "bstate bs1 \<noteq> ON_HOLD" "bs_discr bs1 = bs_discr bs"
        using h(2) by (simp_all add: hs_post_def)
      obtain b2 bs2 r2 where s: "session_update env b1 ds1 bs1 = Some (b2, bs2, r2)"
        "sess_frame (bs_discr bs) b1 b2" "same_conf bs1 bs2" using update_ok[OF p(1,2)] p(3) by metis
      from world_ok_put[OF w g gb bs(3)[symmetric] hs_post_trans[OF h(2) s(2,3)]] show ?thesis
        using h(1) s(1) Inr bs(1) False by (simp add: bbdd_bpf_session_update_def flip: skey_def)
    qed
  qed
qed

subsection \<open>Expired timers\<close>

lemma hold_stop_Some:
  "bs_hold bs = Some p \<Longrightarrow> bbdd_bpf_hold_stop env b bs = Some (timer_cancel env p b, bs\<lparr>bs_hold := None\<rparr>)"
  by (simp add: bbdd_bpf_hold_stop_def)

lemma timer_cancel_head: "head (btimers (timer_cancel env p b)) = dl_delete p (head (btimers b))"
  by (simp add: timer_cancel_def bbdd_timer_cancel_def bbdd_timers_rearm_def Let_def split: prod.split bool.split)

lemma hold_cb_ok:
  assumes w: "world_ok w" and g: "bbdd_bpf_sdir_get_session (wbpf w) d = Some bs"
    and h: "bstate bs = ON_HOLD" "bs_hold bs = Some p"
  shows "\<exists>w' bs'. bbdd_bpf_hold_timer_cb env d w = Some (True, w') \<and> world_ok w' \<and> ucfgs w' = ucfgs w
    \<and> head (btimers (wbpf w')) = dl_delete p (head (btimers (wbpf w)))
    \<and> bsdir (wbpf w') = kset bs_discr bs' (bsdir (wbpf w)) \<and> bs_discr bs' = d
    \<and> bstate bs' = STABLE \<and> bs_hold bs' = None"
proof -
  obtain ds where ds: "bbdd_sess_dir_get_session (wsdir w) d = Some ds" "sess_ok ds bs" "bs_discr bs = d" "skey ds = d"
    using world_ok_bsess[OF w g] .
  define bs1 where "bs1 = bs\<lparr>eff_data := bbdd_bpf_user_bdata ds, bstate := STABLE\<rparr>"
  define ds1 where "ds1 = ds\<lparr>hold_time_us := 0\<rparr>"
  have ok1: "sess_ok ds1 bs1" "bstate bs1 \<noteq> ON_HOLD" "bs_discr bs1 = bs_discr bs" "bs_hold bs1 = Some p"
    using ds(2) user_mult_ok[OF ds(2)] h by (simp_all add: sess_ok_def bs1_def ds1_def)
  obtain b2 bs2 where s: "bbdd_bpf_session_state_changed env (wbpf w) ds1 bs1 = Some (b2, bs2)"
    "sess_frame (bs_discr bs) (wbpf w) b2" "same_conf bs1 bs2" "btimers b2 = btimers (wbpf w)"
    using state_changed_ok[OF ok1(1,2)] ok1(3) by metis
  note sc = same_conf_sel[OF s(3)]
  have ok2: "sess_ok ds1 (bs2\<lparr>bs_hold := None\<rparr>)"
    using same_conf_ok[OF s(3), of ds1] ok1(1,2) sc(2) by (simp add: sess_ok_def)
  have "hs_post (wbpf w) ds bs (timer_cancel env p b2) ds1 (bs2\<lparr>bs_hold := None\<rparr>)"
    using s(2) ok1 ok2 sc sess_frame_trans[OF s(2) timer_cancel_frame] by (simp add: hs_post_def ds1_def skey_def)
  from world_ok_put[OF w _ _ _ this] ds g
  have "world_ok (w\<lparr>wbpf := put_bsess (bs2\<lparr>bs_hold := None\<rparr>) (timer_cancel env p b2), wsdir := put_dsess ds1 (wsdir w)\<rparr>)"
    "ucfgs (w\<lparr>wbpf := put_bsess (bs2\<lparr>bs_hold := None\<rparr>) (timer_cancel env p b2), wsdir := put_dsess ds1 (wsdir w)\<rparr>) = ucfgs w"
    by simp_all
  moreover have "bs_hold bs2 = Some p" using sc(7) ok1(4) by simp
  moreover have "bsdir b2 = bsdir (wbpf w)" using s(2) by (simp add: sess_frame_def)
  ultimately show ?thesis
    using s(1,4) ds g sc ok1
    by (simp add: bbdd_bpf_hold_timer_cb_def Let_def hold_stop_Some timer_cancel_head put_bsess_def
        flip: bs1_def ds1_def)
      (auto simp: bs1_def intro!: exI[of _ "bs2\<lparr>bs_hold := None\<rparr>"])
qed

lemma shwait_cb_ok:
  assumes w: "world_ok w" and g: "bbdd_bpf_sdir_get_session (wbpf w) d = Some bs"
    and h: "bstate bs = SHUTTING_DOWN"
  shows "\<exists>w'. bbdd_bpf_shwait_timer_cb env d w = Some (True, w') \<and> world_ok w' \<and> ucfgs w' = ucfgs w"
proof -
  obtain ds where ds: "bbdd_sess_dir_get_session (wsdir w) d = Some ds" "sess_ok ds bs" "bs_discr bs = d" "skey ds = d"
    using world_ok_bsess[OF w g] .
  obtain p where "bs_shwait bs = Some p" using ds(2) h by (auto simp: sess_ok_def)
  then obtain b1 where s: "bbdd_bpf_shwait_stop env (wbpf w) bs = Some (b1, bs\<lparr>bs_shwait := None\<rparr>)"
    "sess_frame (bs_discr bs) (wbpf w) b1" using shwait_stop_ok by metis
  have "sess_ok ds (bs\<lparr>bs_shwait := None, bstate := STABLE\<rparr>)" "mult_ok (dfr_data (bs\<lparr>bs_shwait := None\<rparr>))"
    using ds(2) h by (simp_all add: sess_ok_def)
  from got_non_final_ok[OF _ this(2), of ds env b1] this(1)
  obtain b2 ds2 bs2 where g2: "bbdd_bpf_handle_packet_got_non_final env b1 ds (bs\<lparr>bs_shwait := None\<rparr>) = Some (b2, ds2, bs2)"
    "hs_post b1 ds (bs\<lparr>bs_shwait := None\<rparr>) b2 ds2 bs2" by auto
  have "hs_post (wbpf w) ds bs b2 ds2 bs2"
    using g2(2) s(2) by (auto simp: hs_post_def intro: sess_frame_trans)
  from world_ok_put[OF w _ _ _ this] ds g s(1) g2(1) show ?thesis
    by (simp add: bbdd_bpf_shwait_timer_cb_def)
qed

subsection \<open>Hold timers as a client of the timer interface\<close>

definition get_timers :: "world \<Rightarrow> timer_fn bbdd_timers" where
  "get_timers w = btimers (wbpf w)"

definition put_timers :: "timer_fn bbdd_timers \<Rightarrow> world \<Rightarrow> world" where
  "put_timers ts w = w\<lparr>wbpf := (wbpf w)\<lparr>btimers := ts\<rparr>\<rparr>"

text \<open>Every due timer is the hold timer of a session that is on hold and owns it.\<close>

definition hold_inv :: "u64 \<Rightarrow> world \<Rightarrow> bool" where
  "hold_inv now w \<longleftrightarrow> world_ok w \<and> timers_ok (get_timers w)
     \<and> (\<forall>t \<in> set (head (get_timers w)). due now t \<longrightarrow>
          (\<exists>d bs. tm_data t = Hold_cb d \<and> bbdd_bpf_sdir_get_session (wbpf w) d = Some bs
            \<and> bstate bs = ON_HOLD \<and> bs_hold bs = Some (tm_ptr t)))"

lemma dl_delete_due:
  assumes "distinct (map tm_ptr xs)" "t \<in> set xs"
  shows "filter (due now) (dl_delete (tm_ptr t) xs) = remove1 t (filter (due now) xs)"
proof -
  have "dl_delete (tm_ptr t) xs = remove1 t xs"
    using assms
  proof (induction xs)
    case (Cons x xs)
    show ?case
    proof (cases "x = t")
      case True
      then have "\<And>y. y \<in> set xs \<Longrightarrow> tm_ptr y \<noteq> tm_ptr t" using Cons.prems(1) by (auto simp: image_iff)
      then show ?thesis using True by (simp add: dl_delete_def)
    next
      case False
      then have "tm_ptr x \<noteq> tm_ptr t" using Cons.prems by (auto simp: image_iff)
      then show ?thesis using Cons False by (simp add: dl_delete_def)
    qed
  qed simp
  then show ?thesis by (simp add: filter_remove1)
qed

lemma hold_call:
  assumes i: "hold_inv now w" and t: "t \<in> set (head (get_timers w))" "due now t"
  shows "\<exists>w' d bs'. run_timer env (tm_data t) w = Some (True, w') \<and> hold_inv now w'
    \<and> head (get_timers w') = dl_delete (tm_ptr t) (head (get_timers w))
    \<and> tm_data t = Hold_cb d \<and> bbdd_bpf_sdir_get_session (wbpf w') d = Some bs' \<and> bstate bs' = STABLE
    \<and> (\<forall>x. x \<noteq> d \<longrightarrow> bbdd_bpf_sdir_get_session (wbpf w') x = bbdd_bpf_sdir_get_session (wbpf w) x)"
proof -
  have w: "world_ok w" "timers_ok (get_timers w)" using i by (simp_all add: hold_inv_def)
  obtain d bs where d: "tm_data t = Hold_cb d" "bbdd_bpf_sdir_get_session (wbpf w) d = Some bs"
    "bstate bs = ON_HOLD" "bs_hold bs = Some (tm_ptr t)" using i t by (auto simp: hold_inv_def)
  obtain w' bs' where c: "bbdd_bpf_hold_timer_cb env d w = Some (True, w')" "world_ok w'"
    "head (btimers (wbpf w')) = dl_delete (tm_ptr t) (head (btimers (wbpf w)))"
    "bsdir (wbpf w') = kset bs_discr bs' (bsdir (wbpf w))" "bs_discr bs' = d" "bstate bs' = STABLE"
    using hold_cb_ok[OF w(1) d(2-4)] by metis
  have get: "bbdd_bpf_sdir_get_session (wbpf w') x = (if x = d then Some bs' else bbdd_bpf_sdir_get_session (wbpf w) x)" for x
    using c(4,5) d(2) by (auto simp: bbdd_bpf_sdir_get_session_def kget_set)
  have "timers_ok (get_timers w')"
    using w(2) c(3) by (auto simp: timers_ok_def get_timers_def dl_delete_def sorted_filter distinct_map_filter)
  moreover have "\<exists>d' b. tm_data u = Hold_cb d' \<and> bbdd_bpf_sdir_get_session (wbpf w') d' = Some b
      \<and> bstate b = ON_HOLD \<and> bs_hold b = Some (tm_ptr u)"
    if u: "u \<in> set (head (get_timers w'))" "due now u" for u
  proof -
    have u': "u \<in> set (head (get_timers w))" "tm_ptr u \<noteq> tm_ptr t" using u c(3) by (auto simp: get_timers_def dl_delete_def)
    then obtain d' b where "tm_data u = Hold_cb d'" "bbdd_bpf_sdir_get_session (wbpf w) d' = Some b"
      "bstate b = ON_HOLD" "bs_hold b = Some (tm_ptr u)" using i u(2) unfolding hold_inv_def by blast
    moreover from this have "d' \<noteq> d" using d u'(2) by auto
    ultimately show ?thesis by (simp add: get)
  qed
  ultimately have "hold_inv now w'" using c(2) by (auto simp: hold_inv_def)
  with c d get show ?thesis by (auto simp: get_timers_def)
qed

interpretation ht: timer_client get_timers put_timers "run_timer env" now "hold_inv now"
proof
  fix ts w show "get_timers (put_timers ts w) = ts" by (simp add: get_timers_def put_timers_def)
next
  fix w assume "hold_inv now w" then show "timers_ok (get_timers w)" by (simp add: hold_inv_def)
next
  fix w a assume "hold_inv now w"
  moreover have "world_ok w \<Longrightarrow> world_ok (w\<lparr>wbpf := (wbpf w)\<lparr>btimers := (btimers (wbpf w))\<lparr>armed := a\<rparr>\<rparr>\<rparr>)"
    by (rule world_ok_frame) simp_all
  ultimately show "hold_inv now (put_timers ((get_timers w)\<lparr>armed := a\<rparr>) w)"
    by (simp add: hold_inv_def put_timers_def get_timers_def timers_ok_def bbdd_bpf_sdir_get_session_def)
next
  fix w t assume a: "hold_inv now w" "t \<in> set (head (get_timers w))" "due now t"
  have "distinct (map tm_ptr (head (get_timers w)))" using a(1) by (simp add: hold_inv_def timers_ok_def)
  note del = dl_delete_due[OF this a(2), of now]
  have sub: "set (head (get_timers w)) - {t} \<subseteq> set (dl_delete (tm_ptr t) (head (get_timers w)))"
    using \<open>distinct _\<close> a(2) by (auto simp: dl_delete_def distinct_map inj_on_def)
  show "\<exists>w'. run_timer env (tm_data t) w = Some (True, w') \<and> hold_inv now w'
        \<and> due_list now (get_timers w') \<in> {due_list now (get_timers w), remove1 t (due_list now (get_timers w))}
        \<and> set (head (get_timers w)) - {t} \<subseteq> set (head (get_timers w'))"
    using hold_call[OF a, of env] del sub by (auto simp: due_list_def)
qed

lemma hold_run_all:
  assumes "hold_inv now w" "due_list now (get_timers w) = pre @ ts"
  shows "(\<forall>x bs. bbdd_bpf_sdir_get_session (wbpf w) x = Some bs \<longrightarrow> bstate bs \<noteq> ON_HOLD
        \<longrightarrow> bbdd_bpf_sdir_get_session (wbpf (run_all (run_timer env) ts w)) x = Some bs)
    \<and> (\<forall>t \<in> set ts. \<exists>d bs. tm_data t = Hold_cb d
      \<and> bbdd_bpf_sdir_get_session (wbpf (run_all (run_timer env) ts w)) d = Some bs \<and> bstate bs = STABLE)"
  using assms
proof (induction ts arbitrary: w pre)
  case (Cons t ts)
  have dt: "distinct (map tm_ptr (head (get_timers w)))" using Cons.prems(1) by (simp add: hold_inv_def timers_ok_def)
  have t: "t \<in> set (head (get_timers w))" "due now t"
    using Cons.prems(2) by (auto simp: due_list_def dest!: arg_cong[where f = set])
  obtain w' d bs' where c: "run_timer env (tm_data t) w = Some (True, w')" "hold_inv now w'"
    "head (get_timers w') = dl_delete (tm_ptr t) (head (get_timers w))"
    "tm_data t = Hold_cb d" "bbdd_bpf_sdir_get_session (wbpf w') d = Some bs'" "bstate bs' = STABLE"
    "\<And>x. x \<noteq> d \<Longrightarrow> bbdd_bpf_sdir_get_session (wbpf w') x = bbdd_bpf_sdir_get_session (wbpf w) x"
    using hold_call[OF Cons.prems(1) t, of env] by blast
  have "distinct (filter (due now) (head (get_timers w)))" using dt by (simp add: distinct_map)
  then have "distinct (pre @ t # ts)" using Cons.prems(2) by (simp add: due_list_def)
  then have "due_list now (get_timers w') = pre @ ts"
    using dl_delete_due[OF dt t(1), of now] c(3) Cons.prems(2) by (simp add: due_list_def remove1_append)
  note IH = Cons.IH[OF c(2) this]
  have onhold: "\<exists>bs. bbdd_bpf_sdir_get_session (wbpf w) d = Some bs \<and> bstate bs = ON_HOLD"
    using Cons.prems(1) t c(4) unfolding hold_inv_def by fastforce
  show ?case
  proof (intro conjI allI impI)
    fix x bs assume x: "bbdd_bpf_sdir_get_session (wbpf w) x = Some bs" "bstate bs \<noteq> ON_HOLD"
    then have "x \<noteq> d" using onhold by auto
    then show "bbdd_bpf_sdir_get_session (wbpf (run_all (run_timer env) (t # ts) w)) x = Some bs"
      using IH x c(1,7) by simp
  next
    show "\<forall>u \<in> set (t # ts). \<exists>d bs. tm_data u = Hold_cb d
      \<and> bbdd_bpf_sdir_get_session (wbpf (run_all (run_timer env) (t # ts) w)) d = Some bs \<and> bstate bs = STABLE"
      using IH c(1,4,5,6) by simp
  qed
qed simp

text \<open>Expiry of hold timers: every session whose hold is over becomes stable, and no
  due timer is left.\<close>

lemma hold_expiry:
  assumes i: "hold_inv now w"
  shows "\<exists>w'. bbdd_timers_fd_cb get_timers put_timers (run_timer env) now sok w = Some (Fired sok w')
    \<and> (\<forall>t \<in> set (head (get_timers w')). \<not> due now t)
    \<and> (\<forall>t \<in> set (head (get_timers w)). due now t \<longrightarrow> (\<exists>d bs. tm_data t = Hold_cb d
          \<and> bbdd_bpf_sdir_get_session (wbpf w') d = Some bs \<and> bstate bs = STABLE))"
proof -
  define w0 where "w0 = put_timers ((get_timers w)\<lparr>armed := None\<rparr>) w"
  have "hold_inv now w0" unfolding w0_def by (rule ht.inv_armed[OF i])
  moreover have "due_list now (get_timers w0) = [] @ due_list now (get_timers w)"
    by (simp add: w0_def ht.get_put due_list_def)
  ultimately have r: "\<forall>t \<in> set (due_list now (get_timers w)). \<exists>d bs. tm_data t = Hold_cb d
      \<and> bbdd_bpf_sdir_get_session (wbpf (run_all (run_timer env) (due_list now (get_timers w)) w0)) d = Some bs
      \<and> bstate bs = STABLE" using hold_run_all by blast
  show ?thesis
    unfolding ht.fd_cb_runs_due[OF i] w0_def[symmetric]
    using r by (auto simp: ht.get_put put_timers_def bbdd_bpf_sdir_get_session_def due_list_def get_timers_def)
qed

subsection \<open>Events\<close>

lemma tx_drain_ok:
  assumes "world_ok w"
  shows "\<exists>w' n. bbdd_bpf_tx_drain env w = Some w' \<and> world_ok w' \<and> wsdir w' = wsdir w
    \<and> n \<le> length (tx_order (txq (wbpf w)))
    \<and> tx_order (txq (wbpf w')) = drop n (tx_order (txq (wbpf w)))
    \<and> user_diag (wbpf w') Sk_deq_count = user_diag (wbpf w) Sk_deq_count + of_nat n
    \<and> (tx_order (txq (wbpf w')) = [] \<and> \<not> tx_pollout_registered (wbpf w')
       \<or> \<not> bbdd_bpf_tx_have_capacity (wbpf w'))"
proof -
  obtain w1 n where l: "drain_loop env w = Some w1" "world_ok w1" "wsdir w1 = wsdir w"
    "tx_order (txq (wbpf w1)) = drop n (tx_order (txq (wbpf w)))" "n \<le> length (tx_order (txq (wbpf w)))"
    "user_diag (wbpf w1) Sk_deq_count = user_diag (wbpf w) Sk_deq_count + of_nat n"
    "tx_order (txq (wbpf w1)) = [] \<or> \<not> bbdd_bpf_tx_have_capacity (wbpf w1)"
    using drain_loop_ok[OF assms] by blast
  have "world_ok (w1\<lparr>wbpf := bbdd_bpf_tx_pollout_disarm (wbpf w1)\<rparr>)"
    by (rule world_ok_frame[OF l(2)]) (simp_all add: bbdd_bpf_tx_pollout_disarm_def)
  moreover have "\<not> tx_pollout_registered (bbdd_bpf_tx_pollout_disarm b)" "txq (bbdd_bpf_tx_pollout_disarm b) = txq b"
    "user_diag (bbdd_bpf_tx_pollout_disarm b) = user_diag b" for b
    by (simp_all add: bbdd_bpf_tx_pollout_disarm_def)
  ultimately show ?thesis
    using l by (cases "bbdd_tx_pending (txq (wbpf w1))")
      (auto simp: bbdd_bpf_tx_drain_def tx_pending_order intro!: exI[of _ n])
qed

text \<open>What the handlers need from the daemon: a match callback that reports one match
  hands out a session of the directory.\<close>

definition match_sound :: "match_fn \<Rightarrow> bool" where
  "match_sound ms \<longleftrightarrow> (\<forall>sdir dg m. kwf skey sdir \<longrightarrow> ms sdir dg = Inr (1, m) \<longrightarrow>
     (\<exists>ds. m = Some ds \<and> bbdd_sess_dir_get_session sdir (skey ds) = Some ds))"

definition timeout_on_hold :: "world \<Rightarrow> bbdd_bpf_rb_elem \<Rightarrow> bool" where
  "timeout_on_hold w el \<longleftrightarrow> (\<exists>d bs. el = RB_RX_TIMEOUT d
     \<and> bbdd_bpf_sdir_get_session (wbpf w) d = Some bs \<and> bstate bs = ON_HOLD)"

lemma world_ok_emit: "world_ok w \<Longrightarrow> world_ok (w\<lparr>wbpf := emit n (wbpf w)\<rparr>)"
  by (rule world_ok_frame) simp_all

lemma discr_0_ok:
  assumes w: "world_ok w" and ms: "match_sound ms"
  shows "\<exists>w'. bbdd_bpf_rb_handle_discr_0 env gi ms w el = Some w' \<and> world_ok w' \<and> ucfgs w' = ucfgs w"
proof -
  have m: "ms (wsdir w) dg = Inr (Suc 0, md) \<Longrightarrow> \<exists>ds. md = Some ds \<and> bbdd_sess_dir_get_session (wsdir w) (skey ds) = Some ds" for dg md
    using ms world_ok_wf(1)[OF w] unfolding match_sound_def One_nat_def by blast
  have h: "\<exists>w'. bbdd_bpf_handle_packet env w (Some ds) p l t = Some w' \<and> world_ok w' \<and> ucfgs w' = ucfgs w"
    if "bbdd_sess_dir_get_session (wsdir w) (skey ds) = Some ds" for ds p l t
    by (rule handle_packet_world[OF w]) (use that in simp)
  have d: "world_ok (w\<lparr>wbpf := (wbpf w)\<lparr>user_diag := x\<rparr>\<rparr>)" for x by (rule world_ok_frame[OF w]) simp_all
  show ?thesis
    unfolding bbdd_bpf_rb_handle_discr_0_def Let_def
    using world_ok_emit[OF w] d by (auto split: option.split sum.split prod.split dest!: m intro: h)
qed

lemma rb_handle_ok:
  assumes w: "world_ok w" and ms: "match_sound ms" and nt: "\<not> timeout_on_hold w el"
  shows "\<exists>w'. bbdd_bpf_rb_handle env gi ms w el = Some w' \<and> world_ok w' \<and> ucfgs w' = ucfgs w"
proof (cases el)
  case (RB_TX_NO_NEIGH ifx et a)
  then show ?thesis using world_ok_emit[OF w] by (simp add: bbdd_bpf_rb_handle_no_neigh_def split: sum.split)
next
  case (RB_RX_DISCR_0 e)
  then show ?thesis using discr_0_ok[OF w ms] by simp
next
  case (RB_RX_UNX_PKT wl ttl p)
  have "\<And>ds. bbdd_sess_dir_get_session (wsdir w) d = Some ds \<Longrightarrow> bbdd_sess_dir_get_session (wsdir w) (skey ds) = Some ds" for d
    using sdt.get_key by metis
  from handle_packet_world[OF w this] show ?thesis using RB_RX_UNX_PKT by (simp add: bbdd_bpf_rb_handle_unx_pkt_def)
next
  case (RB_RX_TIMEOUT d)
  then show ?thesis using timeout_world[OF w, of d env] nt by (auto simp: timeout_on_hold_def)
qed

end
