(* ===== verification/Bpf_Protocol.thy ===== *)
theory Bpf_Protocol
  imports Bpf_Lifecycle
begin

text \<open>
  What the sessions do, in the terms of RFC 5880: poll sequences, the state
  machine and the three-way handshake, detection and transmission intervals,
  deferral when the socket is full, and what the kernel is told to expect.
\<close>

subsection \<open>Poll sequences\<close>

lemma call_update_conf:
  assumes "bbdd_bpf_session_call_update env b ds bs = Some (b', bs')" "sess_ok ds bs" "bstate bs \<noteq> ON_HOLD"
  shows "same_conf bs bs'"
  using call_update_ok[OF assms(2,3), of env b] assms(1) by simp

text \<open>A change that must wait for the other end, on a session that is up and stable.\<close>

definition slows_down :: "bbdd_bpf_session_data \<Rightarrow> bbdd_bpf_session_data \<Rightarrow> bool" where
  "slows_down u e \<longleftrightarrow> min_tx_us (bd_timing u) > min_tx_us (bd_timing e)
                     \<or> min_rx_us (bd_timing u) < min_rx_us (bd_timing e)"

lemma poll_starts:
  assumes "bstate bs = STABLE" "state (sstate (sess_local ds)) = UP"
    and "shutdown (sflags (sess_local ds)) = bd_shutdown (eff_data bs)"
    and "slows_down (bbdd_bpf_user_bdata ds) (eff_data bs)"
  shows "\<exists>b'. bbdd_bpf_handle_session_update env b ds bs =
    Some (b', ds, bs\<lparr>dfr_data := bbdd_bpf_user_bdata ds, bstate := AWAIT_FINAL\<rparr>, Inr ())"
  using assms
  by (auto simp: bbdd_bpf_handle_session_update_def current_bdata_def plan_update_def Let_def
      slows_down_def bbdd_bpf_user_bdata_def apply_stable_def)

lemma got_non_final_stable:
  assumes "\<not> qd_change bs" "bbdd_bpf_handle_packet_got_non_final env b ds bs = Some (b', ds', bs')"
    and "sess_ok ds (bs\<lparr>bstate := STABLE\<rparr>)" "mult_ok (dfr_data bs)"
  shows "ds' = ds" "bstate bs' = STABLE" "eff_data bs' = dfr_data bs" "dfr_data bs' = dfr_data bs"
proof -
  let ?bs1 = "bs\<lparr>eff_data := dfr_data bs, bstate := STABLE\<rparr>"
  let ?b1 = "emit (Mon_debug ''stable'' (discr (sess_local ds))) b"
  have "bbdd_bpf_handle_packet_got_non_final env b ds bs =
      bbdd_bpf_session_call_update env ?b1 ds ?bs1 \<bind> (\<lambda>(b3, bs3). Some (b3, ds, bs3))"
    using assms(1) unfolding bbdd_bpf_handle_packet_got_non_final_def Let_def by simp
  with assms(2) have c: "bbdd_bpf_session_call_update env ?b1 ds ?bs1 = Some (b', bs') \<and> ds' = ds"
    by (cases "bbdd_bpf_session_call_update env ?b1 ds ?bs1") (auto simp only: Option.bind.simps option.distinct option.inject prod.inject split: prod.splits)
  have "sess_ok ds ?bs1" using assms(3,4) by (simp add: sess_ok_def)
  from same_conf_sel[OF call_update_conf[OF conjunct1[OF c] this]] c show "ds' = ds" "bstate bs' = STABLE" "eff_data bs' = dfr_data bs" "dfr_data bs' = dfr_data bs" by simp_all
qed

lemma got_final_conf:
  assumes "sess_ok ds bs" "bstate bs = AWAIT_FINAL"
    and "bbdd_bpf_handle_packet_got_final env b ds bs = Some (b', bs')"
  shows "same_conf (bs\<lparr>bstate := AWAIT_NON_FINAL\<rparr>) bs'"
  using got_final_ok[OF assms(1,2), of env b] assms(3) by simp

lemma poll_sequence_lemma:
  assumes ok: "sess_ok ds bs" "bstate bs = STABLE" "\<not> qd_change bs" "state (sstate (sess_local ds)) = UP"
    and ch: "shutdown (sflags (sess_local ds)) = bd_shutdown (eff_data bs)"
      "slows_down (bbdd_bpf_user_bdata ds) (eff_data bs)"
    and s1: "bbdd_bpf_handle_session_update env b ds bs = Some (b1, ds1, bs1, r1)"
    and s2: "bbdd_bpf_handle_packet_got_final env b1' ds1 bs1 = Some (b2, bs2)"
    and s3: "bbdd_bpf_handle_packet_got_non_final env b2' ds1 bs2 = Some (b3, ds3, bs3)"
  shows "bstate bs1 = AWAIT_FINAL \<and> eff_data bs1 = eff_data bs
    \<and> current_bdata bs1 = Some (bbdd_bpf_user_bdata ds)
    \<and> bstate bs2 = AWAIT_NON_FINAL \<and> eff_data bs2 = eff_data bs
    \<and> bstate bs3 = STABLE \<and> eff_data bs3 = bbdd_bpf_user_bdata ds"
proof -
  have e1: "ds1 = ds" "bs1 = bs\<lparr>dfr_data := bbdd_bpf_user_bdata ds, bstate := AWAIT_FINAL\<rparr>"
    using poll_starts[OF ok(2,4) ch, of env b] s1 by auto
  have u: "mult_ok (bbdd_bpf_user_bdata ds)" using user_mult_ok[OF ok(1)] .
  have ok1: "sess_ok ds bs1" "bstate bs1 = AWAIT_FINAL" using ok(1,2) u by (simp_all add: e1 sess_ok_def)
  note sc = same_conf_sel[OF got_final_conf[OF ok1 s2[unfolded e1(1)]]]
  have "sess_ok ds (bs2\<lparr>bstate := STABLE\<rparr>)" "mult_ok (dfr_data bs2)" "\<not> qd_change bs2"
    using ok1(1) sc u ok(3) by (simp_all add: sess_ok_def e1)
  from got_non_final_stable[OF this(3) s3[unfolded e1(1)] this(1,2)] sc show ?thesis
    by (simp add: e1 current_bdata_def)
qed

subsection \<open>Timeouts\<close>

lemma state_changed_conf:
  assumes "bbdd_bpf_session_state_changed env b ds bs = Some (b', bs')" "sess_ok ds bs" "bstate bs \<noteq> ON_HOLD"
  shows "same_conf bs bs'"
  using state_changed_ok[OF assms(2,3), of env b] assms(1) by simp

lemma timeout_stable:
  assumes "bstate bs = STABLE" "state (sstate (sess_local ds)) \<in> {INIT, UP}"
    and "timeout_sess env b ds bs = Some (b', ds', bs')"
  shows "sstate (sess_local ds') = \<lparr>state = DOWN, diag = DIAG_TIME_EXPIRED\<rparr>
    \<and> sstate (sess_remote ds') = \<lparr>state = DOWN, diag = DIAG_TIME_EXPIRED\<rparr>
    \<and> discr (sess_remote ds') = user_remote_discr ds
    \<and> timing (sess_remote ds') = timing (sess_remote ds) \<and> timing (sess_local ds') = timing (sess_local ds)"
  using assms
  by (auto simp: timeout_sess_def Let_def bind_eq_Some_conv local_down_def remote_down_def)

lemma timeout_down:
  assumes "bstate bs = STABLE" "state (sstate (sess_local ds)) \<in> {DOWN, ADMINDOWN}"
  shows "timeout_sess env b ds bs = Some (b, ds, bs)"
  using assms by (auto simp: timeout_sess_def Let_def)

lemma timeout_hold_aborts:
  assumes "bbdd_sess_dir_get_session (wsdir w) d = Some ds" "bbdd_bpf_sdir_get_session (wbpf w) d = Some bs"
    "bstate bs = ON_HOLD"
  shows "bbdd_bpf_rb_handle_timeout env w d = None"
  using assms by (simp add: bbdd_bpf_rb_handle_timeout_def timeout_sess_def)

subsection \<open>Deferral\<close>

text \<open>An update that cannot be sent leaves the wire, the kernel configuration and the
  generation alone and leaves one queued slot of the session.\<close>

lemma inject_flags_not_final:
  "bbdd_bpf_get_inject_bfd_flags ds bs = Some fl \<Longrightarrow> fl AND BIT_FINAL = 0"
  by (cases "bstate bs") (auto simp: bbdd_bpf_get_inject_bfd_flags_def bbdd_bpf_get_bfd_session_flags_def
      BIT_FINAL_def BIT_POLL_def BIT_CPI_def)

lemma update_deferred:
  assumes "should_inject ds bs" "\<not> bbdd_bpf_tx_have_capacity b" "bstate bs \<noteq> ON_HOLD"
    and inv: "tx_inv (txq b) (slotmem b)"
  shows "\<exists>b'. session_update env b ds bs = Some (b', bs, Inr ())
    \<and> wire b' = wire b \<and> config_hash b' = config_hash b
    \<and> tx_order (txq b') = (if linked (slotmem b (Periodic_slot (bs_discr bs))) then tx_order (txq b)
        else tx_order (txq b) @ [Periodic_slot (bs_discr bs)])"
proof -
  obtain fl where fl: "bbdd_bpf_get_inject_bfd_flags ds bs = Some fl" using inject_flags_total assms(3) by blast
  have nf: "fl AND BIT_FINAL = 0" using inject_flags_not_final[OF fl] .
  then have sl: "defer_slot bs fl = Periodic_slot (bs_discr bs)" by (simp add: defer_slot_def)
  obtain fr tx' ss' where e: "bbdd_tx_enqueue (txq b) (slotmem b) (defer_slot bs fl) (fl AND BIT_FINAL \<noteq> 0)
           (discr (sess_local ds)) (veth_tx_ifindex b) fl = (fr, tx', ss')" by (metis surj_pair)
  from defer_update_enqueue[OF fl e, of env] tx_enqueue_order(2)[OF e] assms(1,2) nf sl show ?thesis
    by (simp add: session_update_def)
qed

subsection \<open>Frames of an update\<close>

text \<open>What an update puts on the wire: frames for the looper only when the session may
  send, apart from re-arm packets, which go to the receive side.\<close>

lemma send_wire: "bbdd_bpf_session_send env b fr = (b', r) \<Longrightarrow> wire b' = wire b \<or> wire b' = wire b @ [fr]"
  by (auto simp: bbdd_bpf_session_send_def split: if_splits)

lemma inject_wire:
  assumes "bbdd_bpf_session_inject_pkt env b ds bs ifx fl = Some (b', r)"
  shows "\<exists>fs. wire b' = wire b @ fs \<and> (\<forall>f \<in> set fs. fr_ifindex f = ifx \<and> fr_mark f = bs_gen_id bs)"
  using assms
  by (auto simp: bbdd_bpf_session_inject_pkt_def Let_def bind_eq_Some_conv dest!: send_wire split: if_splits)

lemma conf_update_wire: "bbdd_bpf_session_conf_update env b ds bs ca = (b', r) \<Longrightarrow> wire b' = wire b"
  by (auto simp: bbdd_bpf_session_conf_update_def Let_def split: if_splits)


lemma silent_update:
  assumes "\<not> should_inject ds bs" "session_update env b ds bs = Some (b', bs', r)"
  shows "\<exists>fs. wire b' = wire b @ fs \<and> (\<forall>f \<in> set fs. fr_ifindex f = veth_rx_ifindex b)"
proof -
  define bs1 where "bs1 = bs\<lparr>bs_gen_id := bs_gen_id bs + 1\<rparr>"
  have si: "\<not> should_inject ds bs1" using assms(1) by (simp add: bs1_def should_inject_def)
  obtain t where t: "bbdd_bpf_session_detect_time_us (eff_data bs) (sess_remote ds) = Some t"
    using assms by (cases "bbdd_bpf_session_detect_time_us (eff_data bs) (sess_remote ds)") (auto simp: session_update_def)
  obtain b1 r1 where c: "bbdd_bpf_session_conf_update env b ds bs1 (update_args b ds bs1 t) = (b1, r1)" by force
  note w1 = conf_update_wire[OF c] conf_update_core[OF c]
  define b2 where "b2 = emit (Mon_debug ''Injecting packet'' (discr (sess_local ds))) b1"
  show ?thesis
  proof (cases "r1 = Inr () \<and> rearms ds \<and> timer_period_us bs1 \<noteq> t")
    case False
    then have "b' = b1 \<or> b' = b2"
      using assms(1,2) t c si
      by (auto simp: session_update_def Let_def inject_update_def rearm_update_def b2_def simp flip: bs1_def
          split: sum.splits if_splits)
    then show ?thesis using w1(1) by (auto simp: b2_def)
  next
    case True
    obtain b3 r3 where j: "bbdd_bpf_inject_rearm_packet env b2 ds bs1 = Some (b3, r3)"
      using True assms(1,2) t c si
      by (cases "bbdd_bpf_inject_rearm_packet env b2 ds bs1")
        (auto simp: session_update_def Let_def inject_update_def rearm_update_def simp flip: bs1_def b2_def)
    then have "b' = b3"
      using True assms(1,2) t c si
      by (auto simp: session_update_def Let_def inject_update_def rearm_update_def simp flip: bs1_def b2_def
          split: sum.splits)
    moreover have "\<exists>fs. wire b3 = wire b2 @ fs \<and> (\<forall>f \<in> set fs. fr_ifindex f = veth_rx_ifindex b2)"
      using inject_wire[OF j[unfolded bbdd_bpf_inject_rearm_packet_def]] by auto
    ultimately show ?thesis using w1 by (auto simp: b2_def core_eq_def)
  qed
qed

subsection \<open>Bounds\<close>

lemma detect_time_saturates:
  assumes "detect_mult (timing rd) \<noteq> 0"
  shows "\<exists>t. bbdd_bpf_session_detect_time_us e rd = Some t
    \<and> unat t = min (2 ^ 32 - 1) (max (unat (min_rx_us (bd_timing e))) (unat (min_tx_us (timing rd)))
                                * unat (detect_mult (timing rd)))"
proof -
  define t m where "t = max (min_rx_us (bd_timing e)) (min_tx_us (timing rd))"
    and "m = (ucast (detect_mult (timing rd)) :: u32)"
  have um: "unat m = unat (detect_mult (timing rd))" unfolding m_def by (rule unat_ucast_up) simp
  have m0: "unat m > 0" using assms by (simp add: um unat_gt_0)
  have ut: "unat t = max (unat (min_rx_us (bd_timing e))) (unat (min_tx_us (timing rd)))"
    by (simp add: t_def max_def word_le_nat_alt)
  have q: "unat ((- 1 :: u32) div m) = (2 ^ 32 - 1) div unat m" by (simp add: unat_div unat_minus_1_u32)
  have gt: "t > - 1 div m \<longleftrightarrow> unat t * unat m > 2 ^ 32 - 1"
  proof -
    have "t > - 1 div m \<longleftrightarrow> unat t > (2 ^ 32 - 1) div unat m" by (simp add: word_less_nat_alt q)
    also have "\<dots> \<longleftrightarrow> unat t * unat m > 2 ^ 32 - 1" using m0 by (meson div_less_iff_less_mult not_le less_eq_div_iff_mult_less_eq)
    finally show ?thesis .
  qed
  show ?thesis
  proof (cases "t > - 1 div m")
    case True
    then show ?thesis using gt assms ut um
      by (auto simp: bbdd_bpf_session_detect_time_us_def Let_def unat_minus_1_u32 min_def simp flip: t_def m_def)
  next
    case False
    then have le: "unat t * unat m \<le> 2 ^ 32 - 1" using gt by simp
    then have "unat (t * m) = unat t * unat m" by (intro unat_mult_no_wrap) simp
    then show ?thesis using False assms le ut um
      by (auto simp: bbdd_bpf_session_detect_time_us_def Let_def min_def simp flip: t_def m_def)
  qed
qed

lemma capacity_bound:
  assumes "bbdd_bpf_tx_apply_capacity env b cap = (b', r)"
  shows "(case r of Inr _ \<Rightarrow> tx_capacity b' = cap \<and> unat cap * 2048 < 2 ^ 30 | Inl _ \<Rightarrow> tx_capacity b' = tx_capacity b)"
proof -
  have "unat ((ucast cap :: u64) * 2048) = unat cap * 2048"
  proof -
    have c: "unat (ucast cap :: u64) = unat cap" by (rule unat_ucast_up) simp
    have "unat (ucast cap :: u64) * unat (2048 :: u64) < 2 ^ LENGTH(64)" using unat_u32_less[of cap] by (simp add: c)
    from unat_mult_no_wrap[OF this] show ?thesis by (simp add: c)
  qed
  then have "\<not> (ucast cap :: u64) * 2048 > 0x3FFFFFFF \<Longrightarrow> unat cap * 2048 < 2 ^ 30"
    by (simp add: word_less_nat_alt not_less)
  then show ?thesis using assms
    by (auto simp: bbdd_bpf_tx_apply_capacity_def Let_def split: if_splits)
qed


text \<open>The jitter bounds of an update.  The products with 75 and 90 are taken in 32 bits,
  which is exact up to \<open>(2 ^ 32 - 1) div 90\<close> microseconds.\<close>

lemma percent_exact:
  fixes i :: u32
  assumes "unat i \<le> 47721858" "p \<le> 90"
  shows "unat (i * of_nat p div 100) = unat i * p div 100"
proof -
  have p: "unat (of_nat p :: u32) = p" using assms(2) by (simp add: unat_of_nat)
  have "unat i * p \<le> 47721858 * 90" using assms by (intro mult_le_mono)
  then have "unat i * unat (of_nat p :: u32) < 2 ^ LENGTH(32)" by (simp add: p)
  from unat_mult_no_wrap[OF this] show ?thesis by (simp add: unat_div p)
qed

lemma update_args_intervals:
  fixes b t ds bs
  assumes "unat (update_interval_us ds bs) \<le> 47721858"
  defines "ca \<equiv> update_args b ds bs t" and "iv \<equiv> unat (update_interval_us ds bs)"
  shows "ca_min_interval_us ca \<le> ca_max_interval_us ca"
    "unat (ca_max_interval_us ca) \<le> iv" "iv * 75 div 100 \<le> unat (ca_min_interval_us ca)"
    "state (sstate (sess_local ds)) \<noteq> DOWN \<Longrightarrow> detect_mult (bd_timing (eff_data bs)) = 1 \<Longrightarrow>
       unat (ca_max_interval_us ca) = iv * 90 div 100"
proof -
  have p: "unat (update_interval_us ds bs * 75 div 100) = iv * 75 div 100"
    "unat (update_interval_us ds bs * 90 div 100) = iv * 90 div 100"
    using percent_exact[OF assms(1), of 75] percent_exact[OF assms(1), of 90] by (simp_all add: iv_def)
  have mn: "ca_min_interval_us ca = (if state (sstate (sess_local ds)) = DOWN then update_interval_us ds bs
      else update_interval_us ds bs * 75 div 100)"
    by (simp add: ca_def update_args_def Let_def)
  have mx: "ca_max_interval_us ca = (if state (sstate (sess_local ds)) = DOWN then update_interval_us ds bs
      else if detect_mult (bd_timing (eff_data bs)) = 1 then update_interval_us ds bs * 90 div 100
      else update_interval_us ds bs)"
    by (simp add: ca_def update_args_def Let_def)
  have "iv * 75 div 100 \<le> iv * 90 div 100" "iv * 90 div 100 \<le> iv" "iv * 75 div 100 \<le> iv"
    by (simp_all add: div_le_mono)
  then show "ca_min_interval_us ca \<le> ca_max_interval_us ca"
    "unat (ca_max_interval_us ca) \<le> iv" "iv * 75 div 100 \<le> unat (ca_min_interval_us ca)"
    using p by (auto simp: mn mx word_le_nat_alt iv_def[symmetric])
  show "state (sstate (sess_local ds)) \<noteq> DOWN \<Longrightarrow> detect_mult (bd_timing (eff_data bs)) = 1 \<Longrightarrow>
       unat (ca_max_interval_us ca) = iv * 90 div 100"
    using p by (simp add: mx)
qed

subsection \<open>Packets\<close>

lemma packet_ignored:
  assumes "bstate bs \<in> {ON_HOLD, SHUTTING_DOWN} \<or> state (sstate (sess_local ds)) = ADMINDOWN \<or> sttl ds > ttl"
  shows "\<exists>st dst. handle_packet_sess env b ds bs pkt wl ttl = Some (b, ds, bs\<lparr>bs_stats := st, bs_diag_stats := dst\<rparr>)"
proof -
  have id: "bs\<lparr>bs_stats := bs_stats bs, bs_diag_stats := bs_diag_stats bs\<rparr> = bs" by simp
  have "handle_packet_sess env b ds bs pkt wl ttl = Some (b, ds, bs)
     \<or> (\<exists>c. handle_packet_sess env b ds bs pkt wl ttl = Some (b, ds, count_diag c (count_rx wl bs)))"
    using assms by (auto simp: handle_packet_sess_def Let_def)
  then show ?thesis
  proof
    assume "handle_packet_sess env b ds bs pkt wl ttl = Some (b, ds, bs)"
    then show ?thesis by (metis id)
  qed (auto simp: count_diag_def count_rx_def Let_def)
qed

text \<open>The transition of RFC 5880, section 6.8.6, as a table over both states.\<close>

fun rfc_next :: "bbdd_bfd_pkt_state \<Rightarrow> bbdd_bfd_pkt_state \<Rightarrow> bbdd_bfd_pkt_state" where
  "rfc_next ADMINDOWN ADMINDOWN = DOWN" | "rfc_next ADMINDOWN _ = ADMINDOWN"
| "rfc_next DOWN DOWN = INIT" | "rfc_next DOWN INIT = UP" | "rfc_next DOWN _ = DOWN"
| "rfc_next INIT INIT = UP" | "rfc_next INIT UP = UP" | "rfc_next INIT ADMINDOWN = DOWN" | "rfc_next INIT DOWN = INIT"
| "rfc_next UP DOWN = DOWN" | "rfc_next UP ADMINDOWN = DOWN" | "rfc_next UP _ = UP"

lemma fsm_step_state: "state (sstate (sess_local (fsm_step ds))) =
    rfc_next (state (sstate (sess_local ds))) (state (sstate (sess_remote ds)))"
  by (cases "state (sstate (sess_local ds))"; cases "state (sstate (sess_remote ds))")
    (simp_all add: fsm_step_def Let_def)

lemma fsm_step_diag: "diag (sstate (sess_local (fsm_step ds))) =
    (case (state (sstate (sess_local ds)), state (sstate (sess_local (fsm_step ds)))) of
       (old, new) \<Rightarrow> if new = old then diag (sstate (sess_local ds)) else if new = DOWN then DIAG_DOWN else DIAG_NOTHING)"
  by (cases "state (sstate (sess_local ds))"; cases "state (sstate (sess_remote ds))")
    (simp_all add: fsm_step_def Let_def)

text \<open>The update rules of the poll sequence never touch the local state when nothing
  is queued.\<close>

lemma packet_poll_state:
  assumes "\<not> qd_change bs" "packet_poll env b ds bs fin = Some (b', ds', bs')"
  shows "ds' = ds"
proof -
  have "ds' = ds" if "bbdd_bpf_handle_packet_got_non_final env b ds bs = Some (b', ds', bs')"
    using that assms(1)
    by (cases "bbdd_bpf_session_call_update env (emit (Mon_debug ''stable'' (discr (sess_local ds))) b) ds
          (bs\<lparr>eff_data := dfr_data bs, bstate := STABLE\<rparr>)")
      (auto simp: bbdd_bpf_handle_packet_got_non_final_def Let_def)
  then show ?thesis using assms(2)
    by (auto simp: packet_poll_def split: bbdd_bpf_session_state.splits if_splits bind_splits)
qed

lemma fsm_step_keeps:
  "discr (sess_local (fsm_step ds)) = discr (sess_local ds)" "sttl (fsm_step ds) = sttl ds"
  by (simp_all add: fsm_step_def Let_def local_down_def split: bbdd_bfd_pkt_state.split)

lemma packet_accepted_state:
  assumes ok: "sess_ok ds bs" "bstate bs \<in> {STABLE, AWAIT_FINAL, AWAIT_NON_FINAL}" and q: "\<not> qd_change bs"
    and res: "packet_accepted env b old ds bs poll fin = Some (b', ds', bs')"
  shows "ds' = fsm_step ds" "bstate bs = STABLE \<Longrightarrow> same_conf bs bs'"
proof -
  obtain b1 r where r: "bbdd_bpf_inject_rearm_packet env b ds bs = Some (b1, r)"
    using res by (cases "bbdd_bpf_inject_rearm_packet env b ds bs") (auto simp: packet_accepted_def)
  define b2 where "b2 = (case r of Inl e \<Rightarrow> emit (Mon_err e) b1 | Inr _ \<Rightarrow> b1)"
  define ds2 where "ds2 = fsm_step ds"
  let ?c = "if sess_local ds2 \<noteq> sess_local old \<or> sess_remote ds2 \<noteq> sess_remote old
          then bbdd_bpf_session_state_changed env b2 ds2 bs else Some (b2, bs)"
  have eq: "packet_accepted env b old ds bs poll fin = ?c \<bind> (\<lambda>(bpf3, bs3).
       (if poll then answer_poll env bpf3 ds2 bs3 else Some bpf3) \<bind> (\<lambda>bpf4. packet_poll env bpf4 ds2 bs3 fin))"
    unfolding packet_accepted_def Let_def r Option.bind.bind_lunit prod.case b2_def ds2_def ..
  obtain b3 bs3 where c: "?c = Some (b3, bs3)" using res eq by (cases ?c) auto
  have "sess_ok ds2 bs" "bstate bs \<noteq> ON_HOLD" using ok by (auto simp: ds2_def)
  then have sc: "same_conf bs bs3" using c state_changed_conf[of env b2 ds2 bs b3 bs3] by (auto split: if_splits)
  then have "\<not> qd_change bs3" using q same_conf_sel(5) by metis
  moreover obtain b4 where pp: "packet_poll env b4 ds2 bs3 fin = Some (b', ds', bs')"
    using res eq c by (cases "if poll then answer_poll env b3 ds2 bs3 else Some b3") auto
  ultimately show "ds' = fsm_step ds" using packet_poll_state by (simp add: ds2_def)
  show "same_conf bs bs'" if "bstate bs = STABLE"
    using pp sc that same_conf_sel(2)[OF sc] by (simp add: packet_poll_def)
qed

lemma packet_state:
  assumes ok: "sess_ok ds bs" "bstate bs \<in> {STABLE, AWAIT_FINAL, AWAIT_NON_FINAL}" "\<not> qd_change bs"
    and ac: "state (sstate (sess_local ds)) \<noteq> ADMINDOWN" "sttl ds \<le> ttl"
      "bbdd_bpf_parse_packet (bs_diag_stats bs) pkt (sess_remote ds) = (st', Inr (rd, poll, fin))"
    and res: "handle_packet_sess env b ds bs pkt wl ttl = Some (b', ds', bs')"
  shows "ds' = fsm_step (ds\<lparr>sess_remote := rd\<rparr>)"
    "bstate bs = STABLE \<Longrightarrow> same_conf ((count_rx wl bs)\<lparr>bs_diag_stats := st'\<rparr>) bs'"
proof -
  have dg: "bs_diag_stats (count_rx wl bs) = bs_diag_stats bs" "\<not> qd_change (count_rx wl bs)"
    using ok(3) by (simp_all add: count_rx_def Let_def)
  have so: "sess_ok (ds\<lparr>sess_remote := rd\<rparr>) ((count_rx wl bs)\<lparr>bs_diag_stats := st'\<rparr>)"
    using ok(1) parse_mult_ok[OF ac(3)] sess_ok_stats(1)[of ds wl bs] by (simp add: sess_ok_def)
  have pa: "packet_accepted env b ds (ds\<lparr>sess_remote := rd\<rparr>) ((count_rx wl bs)\<lparr>bs_diag_stats := st'\<rparr>) poll fin
      = Some (b', ds', bs')"
    using res ac ok(2) by (auto simp: handle_packet_sess_def Let_def dg not_less split: if_splits)
  show "ds' = fsm_step (ds\<lparr>sess_remote := rd\<rparr>)"
    using packet_accepted_state(1)[OF so _ _ pa] ok(2) dg(2) by simp
  show "same_conf ((count_rx wl bs)\<lparr>bs_diag_stats := st'\<rparr>) bs'" if "bstate bs = STABLE"
    using packet_accepted_state(2)[OF so _ _ pa] that dg(2) by simp
qed

subsection \<open>Handshake\<close>

text \<open>The packet a stable session sends, and the packet handler applied to a peer's
  packet.\<close>

definition session_packet :: "bbdd_d_session \<Rightarrow> bbdd_bpf_session \<Rightarrow> bbdd_bfd_pkt" where
  "session_packet ds bs = bbdd_bpf_make_packet (discr (sess_local ds)) (bd_timing (eff_data bs))
     (sstate (sess_local ds)) (discr (sess_remote ds)) (bbdd_bpf_get_bfd_session_flags (sess_local ds))"

lemma session_flags_pkt: "bbdd_bpf_get_bfd_session_flags sd = pkt_flags (cpi (sflags sd)) False False"
  by (simp add: bbdd_bpf_get_bfd_session_flags_def pkt_flags_def)

lemma session_packet_injected:
  assumes "bstate bs = STABLE" "bbdd_bpf_get_inject_bfd_flags ds bs = Some fl"
  shows "bbdd_bpf_make_packet (discr (sess_local ds)) (bd_timing (eff_data bs)) (sstate (sess_local ds))
     (discr (sess_remote ds)) fl = session_packet ds bs"
  using assms by (auto simp: bbdd_bpf_get_inject_bfd_flags_def session_packet_def)

text \<open>An endpoint that can take part in the handshake.\<close>

definition endpoint :: "bbdd_d_session \<Rightarrow> bbdd_bpf_session \<Rightarrow> bbdd_bfd_pkt_state \<Rightarrow> bool" where
  "endpoint ds bs st \<longleftrightarrow> sess_ok ds bs \<and> bstate bs = STABLE \<and> \<not> qd_change bs
     \<and> state (sstate (sess_local ds)) = st \<and> diag (sstate (sess_local ds)) < 32 \<and> discr (sess_local ds) \<noteq> 0"

lemma peer_packet:
  assumes e: "endpoint ds bs st" "endpoint ps pb pst" and st: "st \<noteq> ADMINDOWN"
    and y: "discr (sess_remote ps) = 0 \<Longrightarrow> pst = ADMINDOWN \<or> pst = DOWN" and ttl: "sttl ds \<le> ttl"
  shows "\<exists>b' ds' bs'. handle_packet_sess env b ds bs (session_packet ps pb) wl ttl = Some (b', ds', bs')
    \<and> endpoint ds' bs' (rfc_next st pst) \<and> discr (sess_local ds') = discr (sess_local ds)
    \<and> discr (sess_remote ds') = discr (sess_local ps) \<and> sttl ds' = sttl ds"
proof -
  have ds: "sess_ok ds bs" "bstate bs = STABLE" "\<not> qd_change bs" "state (sstate (sess_local ds)) = st"
    "diag (sstate (sess_local ds)) < 32" "discr (sess_local ds) \<noteq> 0" using e(1) by (simp_all add: endpoint_def)
  have ps: "diag (sstate (sess_local ps)) < 32" "detect_mult (bd_timing (eff_data pb)) \<noteq> 0"
      "discr (sess_local ps) \<noteq> 0" "state (sstate (sess_local ps)) = pst"
    using e(2) by (auto simp: endpoint_def sess_ok_def mult_ok_def)
  obtain rd where rd: "bbdd_bpf_parse_packet (bs_diag_stats bs) (session_packet ps pb) (sess_remote ds)
      = (bs_diag_stats bs, Inr (rd, False, False))" "discr rd = discr (sess_local ps)" "sstate rd = sstate (sess_local ps)"
    using parse_make_packet[OF ps(1-3), of "discr (sess_remote ps)" "bs_diag_stats bs" "cpi (sflags (sess_local ps))" False False "sess_remote ds"]
      y ps(4) by (auto simp: session_packet_def session_flags_pkt)
  obtain b' ds' bs' where h: "handle_packet_sess env b ds bs (session_packet ps pb) wl ttl = Some (b', ds', bs')"
    and post: "hs_post b ds bs b' ds' bs'" using handle_packet_sess_ok[OF ds(1)] ds(2) by force
  have r: "ds' = fsm_step (ds\<lparr>sess_remote := rd\<rparr>)"
    "same_conf ((count_rx wl bs)\<lparr>bs_diag_stats := bs_diag_stats bs\<rparr>) bs'"
    using packet_state[OF ds(1) _ ds(3) _ ttl rd(1) h] ds(2,4) st by simp_all
  have bs': "bstate bs' = STABLE" "\<not> qd_change bs'"
    using same_conf_sel[OF r(2)] ds(2,3) by (simp_all add: count_rx_def Let_def)
  have st': "state (sstate (sess_local ds')) = rfc_next st pst" "diag (sstate (sess_local ds')) < 32"
    using fsm_step_state[of "ds\<lparr>sess_remote := rd\<rparr>"] fsm_step_diag[of "ds\<lparr>sess_remote := rd\<rparr>"] ds(4,5) rd(3) ps(4)
    by (simp_all add: r(1) split: if_splits)
  have "discr (sess_local ds') = discr (sess_local ds)" "sttl ds' = sttl ds" "discr (sess_remote ds') = discr (sess_local ps)"
    using rd(2) by (simp_all add: r(1) fsm_step_keeps)
  with h post bs' st' ds(6) show ?thesis by (auto simp: endpoint_def hs_post_def)
qed

text \<open>Three packets bring two sessions up.\<close>

lemma handshake_lemma:
  assumes e: "endpoint da ba DOWN" "endpoint db bb DOWN" and ttl: "sttl da \<le> ttl" "sttl db \<le> ttl"
  shows "\<exists>b1 da1 ba1 b2 db1 bb1 b3 da2 ba2.
      handle_packet_sess env b da ba (session_packet db bb) wl ttl = Some (b1, da1, ba1)
    \<and> handle_packet_sess env' b' db bb (session_packet da1 ba1) wl ttl = Some (b2, db1, bb1)
    \<and> handle_packet_sess env b1 da1 ba1 (session_packet db1 bb1) wl ttl = Some (b3, da2, ba2)
    \<and> endpoint da1 ba1 INIT \<and> endpoint db1 bb1 UP \<and> endpoint da2 ba2 UP
    \<and> discr (sess_remote da2) = discr (sess_local db) \<and> discr (sess_remote db1) = discr (sess_local da)"
proof -
  obtain b1 da1 ba1 where 1: "handle_packet_sess env b da ba (session_packet db bb) wl ttl = Some (b1, da1, ba1)"
    "endpoint da1 ba1 INIT" "discr (sess_local da1) = discr (sess_local da)"
    "discr (sess_remote da1) = discr (sess_local db)" "sttl da1 = sttl da"
    using peer_packet[OF e(1,2), of ttl env b wl] ttl by auto
  have nz: "discr (sess_remote da1) \<noteq> 0" using 1(4) e(2) by (simp add: endpoint_def)
  obtain b2 db1 bb1 where 2: "handle_packet_sess env' b' db bb (session_packet da1 ba1) wl ttl = Some (b2, db1, bb1)"
    "endpoint db1 bb1 UP" "discr (sess_local db1) = discr (sess_local db)" "discr (sess_remote db1) = discr (sess_local da)"
    using peer_packet[OF e(2) 1(2), of ttl env' b' wl] ttl nz 1(3) by auto
  have nz2: "discr (sess_remote db1) \<noteq> 0" using 2(4) e(1) by (simp add: endpoint_def)
  obtain b3 da2 ba2 where 3: "handle_packet_sess env b1 da1 ba1 (session_packet db1 bb1) wl ttl = Some (b3, da2, ba2)"
    "endpoint da2 ba2 UP" "discr (sess_remote da2) = discr (sess_local db1)"
    using peer_packet[OF 1(2) 2(2), of ttl env b1 wl] ttl nz2 1(5) by auto
  from 1 2 3 show ?thesis by auto
qed


subsection \<open>What the kernel expects\<close>

lemma inject_config: "bbdd_bpf_session_inject_pkt env b ds bs ifx fl = Some (b', r) \<Longrightarrow> config_hash b' = config_hash b"
  by (auto simp: bbdd_bpf_session_inject_pkt_def bbdd_bpf_session_send_def Let_def bind_eq_Some_conv split: if_splits)

lemma rearm_update_config: "rearm_update env b ds bs t = Some (b', bs', r) \<Longrightarrow> config_hash b' = config_hash b"
  by (auto simp: rearm_update_def bbdd_bpf_inject_rearm_packet_def dest!: inject_config split: if_splits bind_splits sum.splits)

lemma rearm_update_gen: "rearm_update env b ds bs t = Some (b', bs', r) \<Longrightarrow> bs_gen_id bs' = bs_gen_id bs"
  by (auto simp: rearm_update_def split: if_splits bind_splits sum.splits)

lemma inject_update_config: "inject_update env b ds bs = Some (b', r) \<Longrightarrow> config_hash b' = config_hash b"
  by (auto simp: inject_update_def bind_eq_Some_conv dest!: inject_config split: if_splits)

text \<open>A pushed update leaves in the kernel the configuration of the new generation.\<close>

lemma push_config:
  assumes nd: "\<not> (should_inject ds bs \<and> \<not> bbdd_bpf_tx_have_capacity b)"
    and res: "session_update env b ds bs = Some (b', bs', Inr ())"
  shows "\<exists>t. bbdd_bpf_session_detect_time_us (eff_data bs) (sess_remote ds) = Some t
    \<and> bs_gen_id bs' = bs_gen_id bs + 1
    \<and> config_hash b' (discr (sess_local ds)) =
        Some (make_config ds (bs\<lparr>bs_gen_id := bs_gen_id bs + 1\<rparr>) (update_args b ds (bs\<lparr>bs_gen_id := bs_gen_id bs + 1\<rparr>) t))"
proof -
  define bs1 where "bs1 = bs\<lparr>bs_gen_id := bs_gen_id bs + 1\<rparr>"
  obtain t where t: "bbdd_bpf_session_detect_time_us (eff_data bs) (sess_remote ds) = Some t"
    using assms by (cases "bbdd_bpf_session_detect_time_us (eff_data bs) (sess_remote ds)")
      (auto simp: session_update_def split: if_splits)
  obtain b1 r1 where c: "bbdd_bpf_session_conf_update env b ds bs1 (update_args b ds bs1 t) = (b1, r1)" by force
  define b1' where "b1' = emit (Mon_debug ''Injecting packet'' (discr (sess_local ds))) b1"
  have eq: "(case r1 of Inl e \<Rightarrow> Some (b1, bs1, Inl e)
         | Inr _ \<Rightarrow> inject_update env b1' ds bs1 \<bind> (\<lambda>(b2, r2).
             case r2 of Inl e \<Rightarrow> Some (b2, bs1, Inl e) | Inr _ \<Rightarrow> rearm_update env b2 ds bs1 t)) = Some (b', bs', Inr ())"
    using res nd t c unfolding session_update_def Let_def bs1_def[symmetric] b1'_def
    by (auto split: if_splits sum.split)
  then have r1: "r1 = Inr ()" by (cases r1) auto
  obtain b2 where i: "inject_update env b1' ds bs1 = Some (b2, Inr ())"
    and k: "rearm_update env b2 ds bs1 t = Some (b', bs', Inr ())"
    using eq r1 by (cases "inject_update env b1' ds bs1") (auto split: sum.splits)
  have "config_hash b1 (discr (sess_local ds)) = Some (make_config ds bs1 (update_args b ds bs1 t))"
    using c r1 by (auto simp: bbdd_bpf_session_conf_update_def Let_def split: if_splits)
  then show ?thesis
    using t rearm_update_config[OF k] rearm_update_gen[OF k] inject_update_config[OF i]
    by (simp add: b1'_def bs1_def)
qed

text \<open>After a stable session has taken over the remote data of an accepted packet, the
  kernel expects exactly that packet.\<close>

lemma expects_accepted:
  assumes p: "bbdd_bpf_parse_packet st pkt rd = (st', Inr (sess_remote ds, False, False))"
      "bbdd_bfd_pkt_version pkt = 1" "pkt_length pkt = 24" "ntoh32 (your_disc pkt) = discr (sess_local ds)"
    and s: "bstate bs = STABLE"
    and nd: "\<not> (should_inject ds bs \<and> \<not> bbdd_bpf_tx_have_capacity b)"
    and res: "session_update env b ds bs = Some (b', bs', Inr ())"
  shows "\<exists>c. config_hash b' (discr (sess_local ds)) = Some c \<and> rx_expect c = pkt
    \<and> cfg_gen_id c = bs_gen_id bs' \<and> admin_down c = (state (sstate (sess_local ds)) = ADMINDOWN) \<and> cfg_ttl c = sttl ds"
proof -
  have fl: "bbdd_bpf_get_rx_expect_bfd_flags ds (bs\<lparr>bs_gen_id := g\<rparr>) = pkt_flags (cpi (sflags (sess_remote ds))) False False" for g
    using s by (simp add: bbdd_bpf_get_rx_expect_bfd_flags_def session_flags_pkt)
  from push_config[OF nd res] parse_packet_rebuilds[OF p(1-3)] p(4) show ?thesis
    by (auto simp: make_config_def Let_def fl)
qed

subsection \<open>Shutdown and re-arming\<close>

lemma shwait_left_running:
  assumes "bstate bs = SHUTTING_DOWN" "shutdown (sflags (sess_local ds))" "bd_shutdown (dfr_data bs)"
    and "min_tx_us (timing (sess_local ds)) \<noteq> min_tx_us (bd_timing (dfr_data bs))
       \<or> min_rx_us (timing (sess_local ds)) \<noteq> min_rx_us (bd_timing (dfr_data bs))"
    and "bbdd_bpf_handle_session_update env b ds bs = Some (b', ds', bs', r)"
  shows "bstate bs' = AWAIT_FINAL \<and> bs_shwait bs' = bs_shwait bs \<and> btimers b' = btimers b"
  using assms
  by (auto simp: bbdd_bpf_handle_session_update_def current_bdata_def plan_update_def Let_def
      bbdd_bpf_user_bdata_def apply_stable_def set_current_bdata_def split: if_splits)

lemma shwait_null_crash:
  assumes "bbdd_bpf_sdir_get_session (wbpf w) d = Some bs" "bs_shwait bs = None"
  shows "bbdd_bpf_shwait_timer_cb env d w = None"
  using assms by (auto simp: bbdd_bpf_shwait_timer_cb_def bbdd_bpf_shwait_stop_def split: bind_split)

lemma rearm_forgets_period:
  assumes "rearms ds" "timer_period_us bs = t" "t \<noteq> 0"
  shows "rearm_update env b ds bs t = Some (b, bs\<lparr>timer_period_us := 0\<rparr>, Inr ())"
    "rearm_update env b2 ds (bs\<lparr>timer_period_us := 0\<rparr>) t = Some (b3, bs3, Inr ()) \<Longrightarrow> length (wire b3) = Suc (length (wire b2))"
  using assms
  by (auto simp: rearm_update_def bbdd_bpf_inject_rearm_packet_def bbdd_bpf_session_inject_pkt_def bbdd_bpf_session_send_def Let_def
      split: if_splits bind_splits sum.splits)

end
