(* ===== verification/Bpf_Claims.thy ===== *)
theory Bpf_Claims
  imports Bpf_Protocol
begin

text \<open>
  The properties of the kernel-facing half of the daemon, each with an instance on
  concrete states.
\<close>

subsection \<open>Sample states\<close>

definition sample_env :: bpf_env where
  "sample_env = \<lparr>e_sendmsg_ok = \<lambda>_. True, e_map_update_ok = \<lambda>_. True, e_poll_set_ok = \<lambda>_. True,
     e_setsockopt_ok = \<lambda>_. True, e_settime_ok = \<lambda>_. True, e_now_ns = \<lambda>_. 1000, e_malloc = (\<lambda>n. Some (n + 100)),
     e_insert = dl_insert_inorder, e_tx_capacity = 4\<rparr>"

definition sample_bdata :: bbdd_bpf_session_data where
  "sample_bdata = \<lparr>bd_timing = timing (sess_local sample_session), bd_shutdown = False\<rparr>"

definition sample_bs :: bbdd_bpf_session where
  "sample_bs = \<lparr>bs_discr = 9, bs_gen_id = 1, bstate = STABLE, eff_data = sample_bdata, dfr_data = sample_bdata,
     qd_change = False, bs_shwait = None, bs_hold = None, timer_period_us = 0,
     bs_stats = zero_session_stats, bs_diag_stats = (\<lambda>_. 0)\<rparr>"

definition sample_up :: bbdd_d_session where
  "sample_up = sample_session
     \<lparr>sess_local := (sess_local sample_session)\<lparr>sstate := \<lparr>state = UP, diag = 0\<rparr>\<rparr>,
      sess_remote := (sess_remote sample_session)\<lparr>discr := 4, sstate := \<lparr>state = UP, diag = 0\<rparr>\<rparr>\<rparr>"

definition sample_bpf :: "bbdd_bpf_session list \<Rightarrow> bbdd_bpf" where
  "sample_bpf bss = \<lparr>veth_rx_ifindex = 1, veth_tx_ifindex = 2, bsdir = bss, config_hash = (\<lambda>_. None),
     data_hash = (\<lambda>_. None), user_diag = (\<lambda>_. 0), prog_diag = (\<lambda>_. 0), btimers = \<lparr>head = [], armed = None\<rparr>,
     txq = bbdd_tx_create, slotmem = (\<lambda>_. zero_slot), tx_capacity = 4, tx_pollout_registered = False,
     tick = 0, wire = [], mon_log = []\<rparr>"

definition sample_world :: "bbdd_d_session \<Rightarrow> bbdd_bpf_session \<Rightarrow> world" where
  "sample_world ds bs = \<lparr>wbpf = sample_bpf [bs], wsdir = [ds]\<rparr>"

lemma sample_sel [simp]:
  "bsdir (sample_bpf bss) = bss" "txq (sample_bpf bss) = bbdd_tx_create" "slotmem (sample_bpf bss) = (\<lambda>_. zero_slot)"
  "config_hash (sample_bpf bss) = (\<lambda>_. None)" "data_hash (sample_bpf bss) = (\<lambda>_. None)"
  "wire (sample_bpf bss) = []" "veth_rx_ifindex (sample_bpf bss) = 1" "veth_tx_ifindex (sample_bpf bss) = 2"
  "btimers (sample_bpf bss) = \<lparr>head = [], armed = None\<rparr>" "tx_capacity (sample_bpf bss) = 4"
  "user_diag (sample_bpf bss) = (\<lambda>_. 0)" "prog_diag (sample_bpf bss) = (\<lambda>_. 0)"
  "wbpf (sample_world ds bs) = sample_bpf [bs]" "wsdir (sample_world ds bs) = [ds]"
  by (simp_all add: sample_bpf_def sample_world_def)

lemma sample_tx_inv: "tx_inv bbdd_tx_create (\<lambda>_. zero_slot)"
  by (rule tx_inv_create) (simp add: zero_slot_def)

lemma sample_world_ok: "sess_ok ds bs \<Longrightarrow> world_ok (sample_world ds bs)"
  unfolding world_ok_def bbdd_sess_dir_get_session_def bbdd_bpf_sdir_get_session_def
  using sample_tx_inv
  by (auto simp: kwf_def kget_def zero_slot_def sess_ok_def skey_def)

lemma sample_sess_ok: "sess_ok sample_session sample_bs" "sess_ok sample_up sample_bs"
  by (simp_all add: sess_ok_def sample_session_def sample_bs_def sample_up_def mult_ok_def sample_bdata_def)

lemma sample_get [simp]:
  "bbdd_sess_dir_get_session [ds] (skey ds) = Some ds" "bbdd_bpf_sdir_get_session (sample_bpf [bs]) (bs_discr bs) = Some bs"
  by (simp_all add: bbdd_sess_dir_get_session_def bbdd_bpf_sdir_get_session_def kget_def)

lemma sample_match: "match_sound (\<lambda>_ _. Inr (0, None))"
  by (simp add: match_sound_def)

subsection \<open>Safety of the handlers\<close>

text \<open>No event of the kernel's ring buffer aborts the daemon: from a consistent
  state, and with a match callback that hands out sessions of the directory, every
  event other than a timeout of a session on hold is handled to the end and leaves
  a consistent state.\<close>

theorem rb_events_safe:
  assumes "world_ok w" and "match_sound ms" and "\<not> timeout_on_hold w el"
  shows "\<exists>w'. bbdd_bpf_rb_handle env gi ms w el = Some w' \<and> world_ok w'"
  using rb_handle_ok[OF assms] by blast

theorem rb_events_safe_witness:
  "\<exists>w'. bbdd_bpf_rb_handle sample_env (\<lambda>_. None) (\<lambda>_ _. Inr (0, None)) (sample_world sample_up sample_bs) (RB_RX_TIMEOUT 9)
     = Some w' \<and> world_ok w'"
  by (rule rb_events_safe[OF sample_world_ok[OF sample_sess_ok(2)] sample_match])
    (simp add: timeout_on_hold_def bbdd_bpf_sdir_get_session_def kget_def sample_bs_def)



text \<open>C7. Draining the deferred queue always ends, serves the slots in queue order,
  each once, never aborts, and stops only when the queue is empty, in which case
  the wakeup is unregistered, or when the socket is full.\<close>

theorem drain_serves_in_order:
  assumes "world_ok w"
  shows "\<exists>w' n. bbdd_bpf_tx_drain env w = Some w' \<and> world_ok w'
    \<and> n \<le> length (tx_order (txq (wbpf w)))
    \<and> tx_order (txq (wbpf w')) = drop n (tx_order (txq (wbpf w)))
    \<and> user_diag (wbpf w') Sk_deq_count = user_diag (wbpf w) Sk_deq_count + of_nat n
    \<and> (tx_order (txq (wbpf w')) = [] \<and> \<not> tx_pollout_registered (wbpf w')
       \<or> \<not> bbdd_bpf_tx_have_capacity (wbpf w'))"
  using tx_drain_ok[OF assms, of env] by blast

definition sample_queued :: world where
  "sample_queued =
     (case bbdd_tx_enqueue bbdd_tx_create (\<lambda>_. zero_slot) (Periodic_slot 9) False 9 2 0 of
        (_, tx, ss) \<Rightarrow> (sample_world sample_up sample_bs)\<lparr>wbpf := (sample_bpf [sample_bs])\<lparr>txq := tx, slotmem := ss\<rparr>\<rparr>)"

lemma sample_queued_ok: "world_ok sample_queued" "tx_order (txq (wbpf sample_queued)) = [Periodic_slot 9]"
proof -
  obtain r tx' ss' where e: "bbdd_tx_enqueue bbdd_tx_create (\<lambda>_. zero_slot) (Periodic_slot 9) False 9 2 0 = (r, tx', ss')"
    by (metis surj_pair)
  define w where "w = sample_world sample_up sample_bs"
  define b' where "b' = (sample_bpf [sample_bs])\<lparr>txq := tx', slotmem := ss'\<rparr>"
  have eq: "sample_queued = w\<lparr>wbpf := b'\<rparr>" by (simp add: sample_queued_def e w_def b'_def)
  have k: "skey sample_up = 9" "bs_discr sample_bs = 9" "bstate sample_bs = STABLE"
    by (simp_all add: skey_def sample_up_def sample_session_def sample_bs_def)
  have w: "world_ok w" unfolding w_def by (rule sample_world_ok[OF sample_sess_ok(2)])
  have "tx_step 9 (wbpf w) b'"
    by (rule enqueue_tx_step[of _ "Periodic_slot 9" False 9 2 0 r]) (simp_all add: e w_def b'_def)
  then have "hs_post (wbpf w) sample_up sample_bs b' sample_up sample_bs"
    using sample_sess_ok(2) k by (simp add: hs_post_def sess_frame_def w_def b'_def)
  from world_ok_put[OF w _ _ _ this] k sample_get(1)[of sample_up] sample_get(2)[of sample_bs]
  have "world_ok (w\<lparr>wbpf := put_bsess sample_bs b', wsdir := put_dsess sample_up (wsdir w)\<rparr>)"
    by (simp add: w_def)
  then show "world_ok sample_queued"
    by (simp add: eq w_def b'_def put_bsess_def put_dsess_def kset_def sample_bpf_def sample_world_def)
  show "tx_order (txq (wbpf sample_queued)) = [Periodic_slot 9]"
    using tx_enqueue_order(2)[OF e] by (simp add: eq b'_def zero_slot_def tx_order_def bbdd_tx_create_def)
qed

theorem drain_serves_in_order_witness:
  "\<exists>w' n. bbdd_bpf_tx_drain sample_env sample_queued = Some w' \<and> world_ok w'
     \<and> tx_order (txq (wbpf w')) = drop n [Periodic_slot 9]"
  using drain_serves_in_order[OF sample_queued_ok(1), of sample_env] by (simp only: sample_queued_ok(2)) blast

subsection \<open>Life cycle\<close>

text \<open>Creating a session is all or nothing: it never aborts; on success the new
  session is on hold with a hold timer and the kernel has its configuration and
  zeroed data; on failure the table and the two kernel maps are as before.  Other
  sessions are untouched either way and the state stays consistent.\<close>

theorem session_add_all_or_nothing:
  assumes "world_ok w" and "bbdd_sess_dir_get_session (wsdir w) (skey ds) = None"
    and "detect_mult (timing (sess_local ds)) \<noteq> 0" and "detect_mult (timing (sess_remote ds)) \<noteq> 0"
    and "config_hash (wbpf w) (skey ds) = None" and "data_hash (wbpf w) (skey ds) = None"
  shows "\<exists>b' r. bbdd_bpf_session_add env (wbpf w) ds = Some (b', r)
    \<and> (case r of Inl _ \<Rightarrow> world_ok (w\<lparr>wbpf := b'\<rparr>) \<and> bsdir b' = bsdir (wbpf w)
           \<and> config_hash b' (skey ds) = None \<and> data_hash b' (skey ds) = None
       | Inr _ \<Rightarrow> world_ok (w\<lparr>wbpf := b', wsdir := kadd ds (wsdir w)\<rparr>)
           \<and> (\<exists>p. bsdir b' = kadd ((zero_bsession (skey ds))\<lparr>bs_hold := Some p\<rparr>) (bsdir (wbpf w)))
           \<and> data_hash b' (skey ds) = Some zero_data \<and> config_hash b' (skey ds) \<noteq> None)"
  using session_add_world[OF assms(1-4), of env] kept_unchanged[OF _ assms(5,6)] unfolding added_def unchanged_def
  by (fastforce split: sum.splits)

theorem session_add_all_or_nothing_witness:
  "\<exists>b' r. bbdd_bpf_session_add sample_env (sample_bpf [sample_bs])
     (sample_up\<lparr>sess_local := (sess_local sample_up)\<lparr>discr := 10\<rparr>\<rparr>) = Some (b', r)"
  using session_add_all_or_nothing[OF sample_world_ok[OF sample_sess_ok(2)],
      of "sample_up\<lparr>sess_local := (sess_local sample_up)\<lparr>discr := 10\<rparr>\<rparr>" sample_env]
  by (auto simp: bbdd_sess_dir_get_session_def kget_def skey_def sample_up_def sample_session_def)



text \<open>A change made by the user is taken over without an abort in every state of the
  session, also on hold and during a poll sequence or a shutdown, and the state
  stays consistent.\<close>

theorem user_update_safe:
  assumes "world_ok w" and "bbdd_sess_dir_get_session (wsdir w) (skey ds) = Some ds"
  shows "\<exists>b' ds' r. bbdd_bpf_session_update env (wbpf w) ds = Some (b', ds', r)
    \<and> world_ok (w\<lparr>wbpf := b', wsdir := put_dsess ds' (wsdir w)\<rparr>)"
  using session_update_world[OF assms] by blast

theorem user_update_safe_witness:
  "\<exists>b' ds' r. bbdd_bpf_session_update sample_env (sample_bpf [sample_bs]) sample_up = Some (b', ds', r)"
  using user_update_safe[OF sample_world_ok[OF sample_sess_ok(2)], of sample_up sample_env] by auto


definition sample_held :: world where
  "sample_held = (sample_world sample_session (sample_bs\<lparr>bstate := ON_HOLD, bs_hold := Some 7\<rparr>))
     \<lparr>wbpf := (sample_bpf [sample_bs\<lparr>bstate := ON_HOLD, bs_hold := Some 7\<rparr>])
       \<lparr>btimers := \<lparr>head = [\<lparr>tm_ptr = 7, deadline_ns = 50, tm_data = Hold_cb 9\<rparr>], armed = Some 50\<rparr>\<rparr>\<rparr>"

lemma sample_held_inv: "hold_inv 100 sample_held"
proof -
  have "sess_ok sample_session (sample_bs\<lparr>bstate := ON_HOLD, bs_hold := Some 7\<rparr>)"
    using sample_sess_ok(1) by (simp add: sess_ok_def sample_bs_def)
  from world_ok_frame[OF sample_world_ok[OF this], of "wbpf sample_held"]
  have "world_ok sample_held" by (simp add: sample_held_def)
  then show ?thesis
    by (simp add: hold_inv_def get_timers_def timers_ok_def sample_held_def bbdd_bpf_sdir_get_session_def kget_def sample_bs_def)
qed



subsection \<open>The protocol\<close>


definition sample_slower :: bbdd_d_session where
  "sample_slower = sample_up\<lparr>sess_local := (sess_local sample_up)
     \<lparr>timing := \<lparr>detect_mult = 3, min_tx_us = 200000, min_rx_us = 100000\<rparr>\<rparr>\<rparr>"

lemma sample_slower_ok: "sess_ok sample_slower sample_bs"
  using sample_sess_ok(2) by (simp add: sess_ok_def sample_slower_def)





text \<open>C5. Three packets bring two stable sessions that are down up: the first end goes to
  Init on the other's packet, the other goes to Up on its answer, and the first goes
  to Up on the next packet; afterwards each knows the other's discriminator.  The
  result does not depend on what the kernels do with the sends in between.\<close>

theorem handshake_reaches_up:
  assumes "endpoint da ba DOWN" and "endpoint db bb DOWN" and "sttl da \<le> ttl" and "sttl db \<le> ttl"
  shows "\<exists>b1 da1 ba1 b2 db1 bb1 b3 da2 ba2.
      handle_packet_sess env b da ba (session_packet db bb) wl ttl = Some (b1, da1, ba1)
    \<and> handle_packet_sess env' b' db bb (session_packet da1 ba1) wl ttl = Some (b2, db1, bb1)
    \<and> handle_packet_sess env b1 da1 ba1 (session_packet db1 bb1) wl ttl = Some (b3, da2, ba2)
    \<and> endpoint da1 ba1 INIT \<and> endpoint db1 bb1 UP \<and> endpoint da2 ba2 UP
    \<and> discr (sess_remote da2) = discr (sess_local db) \<and> discr (sess_remote db1) = discr (sess_local da)"
  by (rule handshake_lemma[OF assms])

theorem handshake_reaches_up_witness:
  "\<exists>b1 da1 ba1 b2 db1 bb1 b3 da2 ba2.
      handle_packet_sess sample_env (sample_bpf []) sample_session sample_bs (session_packet sample_session sample_bs) 66 255 = Some (b1, da1, ba1)
    \<and> handle_packet_sess sample_env (sample_bpf []) sample_session sample_bs (session_packet da1 ba1) 66 255 = Some (b2, db1, bb1)
    \<and> handle_packet_sess sample_env b1 da1 ba1 (session_packet db1 bb1) 66 255 = Some (b3, da2, ba2)
    \<and> endpoint da2 ba2 UP \<and> endpoint db1 bb1 UP"
proof -
  have e: "endpoint sample_session sample_bs DOWN" "sttl sample_session \<le> 255"
    using sample_sess_ok(1) by (simp_all add: endpoint_def sample_bs_def sample_session_def)
  from handshake_reaches_up[OF e(1) e(1) e(2) e(2), of sample_env "sample_bpf []" 66 sample_env "sample_bpf []"]
  show ?thesis by blast
qed

text \<open>C23. When the detection time of a stable session that is coming up or up expires,
  both ends are taken as down with the diagnostic for an expired detection time, the
  learned discriminator is replaced by the configured one, and the timing is kept.\<close>

theorem timeout_takes_down:
  assumes "sess_ok ds bs" and "bstate bs = STABLE" and "state (sstate (sess_local ds)) \<in> {INIT, UP}"
  shows "\<exists>b' ds' bs'. timeout_sess env b ds bs = Some (b', ds', bs')
    \<and> sstate (sess_local ds') = \<lparr>state = DOWN, diag = DIAG_TIME_EXPIRED\<rparr>
    \<and> sstate (sess_remote ds') = \<lparr>state = DOWN, diag = DIAG_TIME_EXPIRED\<rparr>
    \<and> discr (sess_remote ds') = user_remote_discr ds
    \<and> timing (sess_remote ds') = timing (sess_remote ds) \<and> timing (sess_local ds') = timing (sess_local ds)"
proof -
  obtain b' ds' bs' where "timeout_sess env b ds bs = Some (b', ds', bs')"
    using timeout_sess_ok[OF assms(1)] assms(2) by force
  with timeout_stable[OF assms(2,3) this] show ?thesis by blast
qed

theorem timeout_takes_down_witness:
  "\<exists>b' ds' bs'. timeout_sess sample_env (sample_bpf []) sample_up sample_bs = Some (b', ds', bs')
    \<and> state (sstate (sess_local ds')) = DOWN"
  using timeout_takes_down[OF sample_sess_ok(2), of sample_env "sample_bpf []"]
  by (auto simp: sample_bs_def sample_up_def sample_session_def)

text \<open>C14. An update that cannot be sent because the socket is full is deferred as a whole:
  nothing goes out, the kernel keeps the old configuration and the session its
  generation, so the old packet keeps circulating, and one slot of the session waits
  in the queue, added at its end unless it is already there.\<close>

theorem deferred_update_atomic:
  assumes "should_inject ds bs" and "\<not> bbdd_bpf_tx_have_capacity b" and "bstate bs \<noteq> ON_HOLD"
    and "tx_inv (txq b) (slotmem b)"
  shows "\<exists>b'. session_update env b ds bs = Some (b', bs, Inr ())
    \<and> wire b' = wire b \<and> config_hash b' = config_hash b
    \<and> tx_order (txq b') = (if linked (slotmem b (Periodic_slot (bs_discr bs))) then tx_order (txq b)
        else tx_order (txq b) @ [Periodic_slot (bs_discr bs)])"
  by (rule update_deferred[OF assms])

theorem deferred_update_atomic_witness:
  "\<exists>b'. session_update sample_env ((sample_bpf [])\<lparr>tx_capacity := 0\<rparr>) sample_up sample_bs = Some (b', sample_bs, Inr ())
    \<and> tx_order (txq b') = [Periodic_slot 9]"
proof -
  let ?b = "(sample_bpf [])\<lparr>tx_capacity := 0\<rparr>"
  have "should_inject sample_up sample_bs" "bstate sample_bs \<noteq> ON_HOLD"
    by (simp_all add: should_inject_def sample_up_def sample_session_def sample_bs_def)
  moreover have "\<not> bbdd_bpf_tx_have_capacity ?b" by (simp add: bbdd_bpf_tx_have_capacity_def)
  moreover have "tx_inv (txq ?b) (slotmem ?b)" using sample_tx_inv by simp
  ultimately obtain b' where "session_update sample_env ?b sample_up sample_bs = Some (b', sample_bs, Inr ())"
    "tx_order (txq b') = (if linked (slotmem ?b (Periodic_slot (bs_discr sample_bs))) then tx_order (txq ?b)
        else tx_order (txq ?b) @ [Periodic_slot (bs_discr sample_bs)])"
    using deferred_update_atomic[of sample_up sample_bs ?b sample_env] by blast
  moreover have "bs_discr sample_bs = 9" by (simp add: sample_bs_def)
  ultimately show ?thesis by (simp add: zero_slot_def tx_order_def bbdd_tx_create_def)
qed

text \<open>C24. A session in the passive role puts nothing on the way to the other end before it
  has learned the other end's discriminator: an update sends at most packets for the
  re-arm hook on the receive side.\<close>

theorem passive_is_silent:
  assumes "passive_role (sflags (sess_local ds))" and "discr (sess_remote ds) = 0"
    and "session_update env b ds bs = Some (b', bs', r)"
  shows "\<exists>fs. wire b' = wire b @ fs \<and> (\<forall>f \<in> set fs. fr_ifindex f = veth_rx_ifindex b)"
  by (rule silent_update[OF _ assms(3)]) (simp add: should_inject_def assms)

definition sample_passive :: bbdd_d_session where
  "sample_passive = sample_session\<lparr>sess_local := (sess_local sample_session)
     \<lparr>sflags := (sflags (sess_local sample_session))\<lparr>passive_role := True\<rparr>\<rparr>\<rparr>"

theorem passive_is_silent_witness:
  "\<exists>b' bs' r fs. session_update sample_env (sample_bpf []) sample_passive sample_bs = Some (b', bs', r)
    \<and> wire b' = fs \<and> (\<forall>f \<in> set fs. fr_ifindex f = 1)"
proof -
  have "sess_ok sample_passive sample_bs" using sample_sess_ok(1) by (simp add: sess_ok_def sample_passive_def)
  then obtain b' bs' r where "session_update sample_env (sample_bpf []) sample_passive sample_bs = Some (b', bs', r)"
    using session_update_total[of sample_passive sample_bs] by (force simp: sample_bs_def)
  with passive_is_silent[OF _ _ this] show ?thesis by (simp add: sample_passive_def sample_session_def)
qed

subsection \<open>Bounds\<close>

text \<open>C26. The detection time is the remote multiplier times the larger of the local receive
  and the remote transmit interval, cut off at the largest 32-bit value instead of
  wrapping.\<close>

theorem detect_time_bound:
  assumes "detect_mult (timing rd) \<noteq> 0"
  shows "\<exists>t. bbdd_bpf_session_detect_time_us e rd = Some t
    \<and> unat t = min (2 ^ 32 - 1) (max (unat (min_rx_us (bd_timing e))) (unat (min_tx_us (timing rd)))
                                * unat (detect_mult (timing rd)))"
  by (rule detect_time_saturates[OF assms])

theorem detect_time_bound_witness:
  "\<exists>t. bbdd_bpf_session_detect_time_us sample_bdata (sess_remote sample_up) = Some t \<and> unat t = 100000"
  using detect_time_bound[of "sess_remote sample_up" sample_bdata]
  by (simp add: sample_up_def sample_session_def sample_bdata_def)

text \<open>For intervals of up to 47721858 microseconds the jitter bounds sent to the kernel
  are in order, lie between three quarters of the interval and the interval, and with
  a multiplier of one the upper bound is nine tenths of it.\<close>

theorem jitter_args_in_order:
  assumes "unat (update_interval_us ds bs) \<le> 47721858"
  shows "ca_min_interval_us (update_args b ds bs t) \<le> ca_max_interval_us (update_args b ds bs t)
    \<and> unat (ca_max_interval_us (update_args b ds bs t)) \<le> unat (update_interval_us ds bs)
    \<and> unat (update_interval_us ds bs) * 75 div 100 \<le> unat (ca_min_interval_us (update_args b ds bs t))
    \<and> (state (sstate (sess_local ds)) \<noteq> DOWN \<and> detect_mult (bd_timing (eff_data bs)) = 1 \<longrightarrow>
       unat (ca_max_interval_us (update_args b ds bs t)) = unat (update_interval_us ds bs) * 90 div 100)"
  using update_args_intervals[OF assms, of b t] by blast

theorem jitter_args_in_order_witness:
  "ca_min_interval_us (update_args (sample_bpf []) sample_up sample_bs 5)
     \<le> ca_max_interval_us (update_args (sample_bpf []) sample_up sample_bs 5)"
  using jitter_args_in_order[of sample_up sample_bs "sample_bpf []" 5]
  by (simp add: update_interval_us_def sample_up_def sample_session_def sample_bs_def sample_bdata_def)

text \<open>For longer intervals the products overflow 32 bits: a session that is not down,
  with a transmission interval of fifty seconds and a multiplier of one, tells the
  kernel a lower bound of 37.5 seconds and an upper bound of 2.05 seconds.\<close>

theorem jitter_args_overflow:
  assumes "state (sstate (sess_local ds)) \<noteq> DOWN" and "update_interval_us ds bs = 50000000"
    and "detect_mult (bd_timing (eff_data bs)) = 1"
  shows "ca_min_interval_us (update_args b ds bs t) = 37500000
    \<and> ca_max_interval_us (update_args b ds bs t) = 2050327"
  using assms by (simp add: update_args_def Let_def)

definition sample_slow_bs :: bbdd_bpf_session where
  "sample_slow_bs = sample_bs\<lparr>eff_data := \<lparr>bd_timing = \<lparr>detect_mult = 1, min_tx_us = 50000000, min_rx_us = 100000\<rparr>,
     bd_shutdown = False\<rparr>\<rparr>"

theorem jitter_args_overflow_witness:
  "ca_max_interval_us (update_args (sample_bpf []) sample_up sample_slow_bs 5)
     < ca_min_interval_us (update_args (sample_bpf []) sample_up sample_slow_bs 5)"
proof -
  have "state (sstate (sess_local sample_up)) \<noteq> DOWN" "update_interval_us sample_up sample_slow_bs = 50000000"
    "detect_mult (bd_timing (eff_data sample_slow_bs)) = 1"
    by (simp_all add: update_interval_us_def sample_slow_bs_def sample_up_def sample_session_def)
  from jitter_args_overflow[OF this, of "sample_bpf []" 5] show ?thesis by simp
qed

text \<open>Resizing the socket buffer never overflows: a capacity is accepted only when the
  buffer for it stays below two to the thirty, and a refused or failed resize leaves
  the old capacity.\<close>

theorem capacity_in_bounds:
  "case bbdd_bpf_tx_apply_capacity env b cap of
     (b', Inr _) \<Rightarrow> tx_capacity b' = cap \<and> unat cap * 2048 < 2 ^ 30
   | (b', Inl _) \<Rightarrow> tx_capacity b' = tx_capacity b"
  using capacity_bound[of env b cap] by (auto split: prod.split sum.splits)


subsection \<open>Packets that do not count, and defects\<close>

text \<open>A packet for a session that is on hold, shutting down or administratively down, or
  with a hop limit below the configured one, changes nothing but counters.\<close>

theorem packet_ignored_changes_nothing:
  assumes "bstate bs \<in> {ON_HOLD, SHUTTING_DOWN} \<or> state (sstate (sess_local ds)) = ADMINDOWN \<or> sttl ds > ttl"
  shows "\<exists>st dst. handle_packet_sess env b ds bs pkt wl ttl = Some (b, ds, bs\<lparr>bs_stats := st, bs_diag_stats := dst\<rparr>)"
  by (rule packet_ignored[OF assms])

theorem packet_ignored_changes_nothing_witness:
  "\<exists>st dst. handle_packet_sess sample_env (sample_bpf []) sample_up sample_bs sample_pkt 66 254
     = Some (sample_bpf [], sample_up, sample_bs\<lparr>bs_stats := st, bs_diag_stats := dst\<rparr>)"
  by (rule packet_ignored_changes_nothing) (simp add: sample_up_def sample_session_def)


definition sample_shutting :: bbdd_bpf_session where
  "sample_shutting = sample_bs\<lparr>bstate := SHUTTING_DOWN, bs_shwait := Some 7, dfr_data := sample_bdata\<lparr>bd_shutdown := True\<rparr>\<rparr>"

definition sample_shut :: bbdd_d_session where
  "sample_shut = sample_slower\<lparr>sess_local := (sess_local sample_slower)
     \<lparr>sflags := (sflags (sess_local sample_slower))\<lparr>shutdown := True\<rparr>, sstate := \<lparr>state = ADMINDOWN, diag = DIAG_ADMIN_DOWN\<rparr>\<rparr>\<rparr>"


text \<open>An update whose detection time has not changed forgets the armed period, so that
  the update after it sends a re-arm packet although the period is still the same.\<close>

theorem rearm_period_forgotten:
  assumes "rearms ds" and "timer_period_us bs = t" and "t \<noteq> 0"
  shows "rearm_update env b ds bs t = Some (b, bs\<lparr>timer_period_us := 0\<rparr>, Inr ())
    \<and> (\<forall>b2 b3 bs3. rearm_update env b2 ds (bs\<lparr>timer_period_us := 0\<rparr>) t = Some (b3, bs3, Inr ()) \<longrightarrow>
         length (wire b3) = Suc (length (wire b2)))"
  using rearm_forgets_period[OF assms] by blast

theorem rearm_period_forgotten_witness:
  "rearm_update sample_env (sample_bpf []) sample_up (sample_bs\<lparr>timer_period_us := 300000\<rparr>) 300000
     = Some (sample_bpf [], sample_bs\<lparr>timer_period_us := 0\<rparr>, Inr ())"
  using rearm_period_forgotten[of sample_up "sample_bs\<lparr>timer_period_us := 300000\<rparr>" 300000 sample_env "sample_bpf []"]
  by (simp add: rearms_def sample_up_def)

end
