(* ===== verification/Daemon.thy ===== *)
theory Daemon
  imports Csess Sport Bpf_Claims
begin

text \<open>
  The daemon (\<open>bbdd-d.c\<close>): it owns the directory of sessions, the kernel side of the
  sessions and the source ports, and serves the requests of the control socket and of
  the BFD daemon of FRR.  The theory shows that every request and every event is handled
  without a failed assertion and keeps the parts consistent: each session is valid, has
  its kernel side, and owns a source port of its own.
\<close>

subsection \<open>State\<close>

datatype dp_stat =
    Dp_wrong_version_number | Dp_sess_add_invalid_length | Dp_invalid_message_type
  | Dp_invalid_message | Dp_internal_error | Dp_no_session | Dp_buffer_error

text \<open>\<open>d_rnd\<close> counts the calls of \<open>getrandom\<close>.\<close>

record bbdd_d =
  d_world :: world
  d_spa :: bbdd_d_sport_alloc
  d_diag :: "dp_stat \<Rightarrow> u64"
  d_rnd :: nat

record d_env =
  e_bpf :: bpf_env
  e_net :: netenv
  e_inet :: inet
  e_calloc :: "nat \<Rightarrow> bool"
  e_realloc :: "nat \<Rightarrow> bool"
  e_getrandom :: "nat \<Rightarrow> u32 option"

datatype dmn_err =
    DE_request d_err
  | DE_bpf bpf_err
  | DE_no_port
  | DE_alloc
  | DE_no_session u32
  | DE_no_discr
  | DE_duplicate
  | DE_no_match
  | DE_not_bulk
  | DE_went_away
  | DE_deleted nat nat

abbreviation d_sdir :: "bbdd_d \<Rightarrow> bbdd_sess_dir" where "d_sdir d \<equiv> wsdir (d_world d)"
abbreviation d_bpf :: "bbdd_d \<Rightarrow> bbdd_bpf" where "d_bpf d \<equiv> wbpf (d_world d)"

definition count_dp :: "dp_stat \<Rightarrow> bbdd_d \<Rightarrow> bbdd_d" where
  "count_dp s d = d\<lparr>d_diag := (d_diag d)(s := d_diag d s + 1)\<rparr>"

subsection \<open>Matching a packet without a discriminator\<close>

text \<open>One session against the digest of a packet; the address of a session that is not set
  matches every address.\<close>

definition match_addr :: "bbdd_sockaddr \<Rightarrow> bbdd_sockaddr \<Rightarrow> (bpf_err, bool) res" where
  "match_addr sess_addr pkt_addr =
     (if sa_family sess_addr = 0 then Inr True
      else if sa_family sess_addr \<noteq> sa_family pkt_addr then Inr False
      else map_sum (\<lambda>_. E_af_unsupported (sa_family sess_addr)) id (bbdd_sockaddr_eq sess_addr pkt_addr))"

definition match_one :: "bbdd_bpf_match_digest \<Rightarrow> bbdd_d_session \<Rightarrow> (bpf_err, bool) res" where
  "match_one dg ds =
     (if dg_multihop dg \<noteq> multihop (sflags (sess_local ds)) then Inr False
      else if sifindex ds \<noteq> 0 \<and> dg_ifindex dg \<noteq> 0 \<and> sifindex ds \<noteq> dg_ifindex dg then Inr False
      else if vrf_table ds \<noteq> dg_table dg then Inr False
      else if dg_ttl dg < sttl ds then Inr False
      else if user_remote_discr ds \<noteq> 0 \<and> dg_my_disc dg \<noteq> user_remote_discr ds then Inr False
      else case match_addr (src ds) (dg_dst dg) of
             Inl e \<Rightarrow> Inl e
           | Inr False \<Rightarrow> Inr False
           | Inr True \<Rightarrow> match_addr (dst ds) (dg_src dg))"

fun match_loop ::
  "bbdd_bpf_match_digest \<Rightarrow> bbdd_d_session list \<Rightarrow> nat \<Rightarrow> bbdd_d_session option \<Rightarrow> (bpf_err, nat \<times> bbdd_d_session option) res"
where
  "match_loop dg [] nmatch ret = Inr (nmatch, ret)"
| "match_loop dg (ds # dss) nmatch ret =
     (case match_one dg ds of
        Inl e \<Rightarrow> Inl e
      | Inr False \<Rightarrow> match_loop dg dss nmatch ret
      | Inr True \<Rightarrow> match_loop dg dss (Suc nmatch) (Some ds))"

definition bbdd_d_match_session :: match_fn where
  "bbdd_d_match_session sdir dg = match_loop dg sdir 0 None"

subsection \<open>Adding a session\<close>

definition new_dsess :: "u16 \<Rightarrow> bbdd_d_session \<Rightarrow> bbdd_d_session" where
  "new_dsess sport ds =
     (let tm = \<lparr>detect_mult = 1, min_tx_us = bbdd_prog_slow_interval_us, min_rx_us = bbdd_prog_slow_interval_us\<rparr>
      in ds\<lparr>src := (src ds)\<lparr>sa_port := hton16 sport\<rparr>, sttl := 255,
           sess_local := (sess_local ds)\<lparr>sstate := \<lparr>state = DOWN, diag = DIAG_DOWN\<rparr>, timing := tm\<rparr>,
           sess_remote := (sess_remote ds)\<lparr>sstate := \<lparr>state = DOWN, diag = DIAG_NOTHING\<rparr>, timing := tm\<rparr>\<rparr>)"

text \<open>The error path gives the port back.\<close>

definition add_failed :: "bbdd_d \<Rightarrow> world \<Rightarrow> bbdd_d_sport_alloc \<Rightarrow> u16 \<Rightarrow> dmn_err \<Rightarrow> (bbdd_d \<times> (dmn_err, unit) res) option" where
  "add_failed d w spa sport e =
     (case bbdd_d_sport_put spa sport of
        None \<Rightarrow> None
      | Some spa' \<Rightarrow> Some (d\<lparr>d_world := w, d_spa := spa'\<rparr>, Inl e))"

definition bbdd_d_session_add :: "d_env \<Rightarrow> bbdd_d \<Rightarrow> bbdd_c_session \<Rightarrow> (bbdd_d \<times> (dmn_err, unit) res) option" where
  "bbdd_d_session_add env d cs =
     (case bbdd_d_sport_get (d_spa d) of
        None \<Rightarrow> Some (d, Inl DE_no_port)
      | Some (sport, spa1) \<Rightarrow>
          (let w = d_world d in
           case bbdd_sess_dir_add_session (e_calloc env (tick (wbpf w))) (wsdir w) (or_else (c_discr cs) 0) of
             (None, _) \<Rightarrow> add_failed d w spa1 sport DE_alloc
           | (Some ds0, sdir1) \<Rightarrow>
               let ds1 = new_dsess sport ds0 in
               (case bbdd_d_session_apply_c (e_inet env) (e_net env) ds1 cs of
                  None \<Rightarrow> None
                | Some (Inl e) \<Rightarrow>
                    add_failed d (w\<lparr>wsdir := bbdd_sess_dir_del_session (put_dsess ds1 sdir1) (skey ds1)\<rparr>) spa1 sport (DE_request e)
                | Some (Inr (ds2, _)) \<Rightarrow>
                    (case bbdd_bpf_session_add (e_bpf env) (wbpf w) ds2 of
                       None \<Rightarrow> None
                     | Some (b, Inl e) \<Rightarrow>
                         add_failed d (w\<lparr>wbpf := b, wsdir := bbdd_sess_dir_del_session (put_dsess ds2 sdir1) (skey ds2)\<rparr>)
                           spa1 sport (DE_bpf e)
                     | Some (b, Inr _) \<Rightarrow>
                         Some (d\<lparr>d_world := w\<lparr>wbpf := b, wsdir := put_dsess ds2 sdir1\<rparr>, d_spa := spa1\<rparr>, Inr ())))))"

subsection \<open>Changing and deleting sessions\<close>

definition bbdd_d_session_state_changed :: "bbdd_d_session \<Rightarrow> bbdd_bpf \<Rightarrow> bbdd_bpf" where
  "bbdd_d_session_state_changed ds b = emit (State_changed (discr (sess_local ds)) (state (sstate (sess_local ds)))) b"

definition session_change :: "d_env \<Rightarrow> bbdd_d \<Rightarrow> bbdd_d_session \<Rightarrow> bbdd_c_session \<Rightarrow> (bbdd_d \<times> (dmn_err, unit) res) option" where
  "session_change env d ds cs =
     (case bbdd_d_session_apply_c (e_inet env) (e_net env) ds cs of
        None \<Rightarrow> None
      | Some (Inl e) \<Rightarrow> Some (d, Inl (DE_request e))
      | Some (Inr (ds1, changed)) \<Rightarrow>
          let w1 = (d_world d)\<lparr>wsdir := put_dsess ds1 (d_sdir d)\<rparr> in
          (case bbdd_bpf_session_update (e_bpf env) (wbpf w1) ds1 of
             None \<Rightarrow> None
           | Some (b, ds2, r) \<Rightarrow>
               let w2 = w1\<lparr>wbpf := b, wsdir := put_dsess ds2 (wsdir w1)\<rparr> in
               (case r of
                  Inl e \<Rightarrow> Some (d\<lparr>d_world := w2\<rparr>, Inl (DE_bpf e))
                | Inr _ \<Rightarrow>
                    Some (d\<lparr>d_world := if changed \<and> \<not> bbdd_bpf_session_is_on_hold b ds2
                                       then w2\<lparr>wbpf := bbdd_d_session_state_changed ds2 b\<rparr> else w2\<rparr>, Inr ()))))"

fun session_set_loop :: "d_env \<Rightarrow> bbdd_c_session \<Rightarrow> u32 list \<Rightarrow> bool \<Rightarrow> bbdd_d \<Rightarrow> (bbdd_d \<times> (dmn_err, bool) res) option" where
  "session_set_loop env cs [] was_set d = Some (d, Inr was_set)"
| "session_set_loop env cs (dd # discrs) was_set d =
     (case bbdd_sess_dir_get_session (d_sdir d) dd of
        None \<Rightarrow> session_set_loop env cs discrs was_set d
      | Some ds \<Rightarrow>
          (case session_change env d ds cs of
             None \<Rightarrow> None
           | Some (d', Inl e) \<Rightarrow> Some (d', Inl e)
           | Some (d', Inr _) \<Rightarrow> session_set_loop env cs discrs True d'))"

definition bbdd_d_handle_session_del_one :: "d_env \<Rightarrow> bbdd_d \<Rightarrow> u32 \<Rightarrow> (bbdd_d \<times> (dmn_err, unit) res) option" where
  "bbdd_d_handle_session_del_one env d dd =
     (case bbdd_sess_dir_get_session (d_sdir d) dd of
        None \<Rightarrow> Some (d, Inl (DE_no_session dd))
      | Some ds \<Rightarrow>
          (case bbdd_bpf_session_del (e_bpf env) (d_bpf d) ds of
             None \<Rightarrow> None
           | Some b \<Rightarrow>
               (case bbdd_d_sport_put (d_spa d) (ntoh16 (sa_port (src ds))) of
                  None \<Rightarrow> None
                | Some spa \<Rightarrow>
                    Some (d\<lparr>d_world := (d_world d)\<lparr>wbpf := b, wsdir := bbdd_sess_dir_del_session (d_sdir d) (skey ds)\<rparr>,
                            d_spa := spa\<rparr>, Inr ()))))"

fun session_del_loop :: "d_env \<Rightarrow> u32 list \<Rightarrow> nat \<Rightarrow> bbdd_d \<Rightarrow> (bbdd_d \<times> nat) option" where
  "session_del_loop env [] num_errors d = Some (d, num_errors)"
| "session_del_loop env (dd # discrs) num_errors d =
     (case bbdd_d_handle_session_del_one env d dd of
        None \<Rightarrow> None
      | Some (d', Inl e) \<Rightarrow> session_del_loop env discrs (Suc num_errors) d'
      | Some (d', Inr _) \<Rightarrow> session_del_loop env discrs num_errors d')"

subsection \<open>Requests of the control socket\<close>

datatype response = Respond_empty | Respond_inv_params dmn_err | Respond_interr dmn_err

definition bbdd_d_handle_session_add :: "'j json_c \<Rightarrow> d_env \<Rightarrow> bbdd_d \<Rightarrow> 'j \<Rightarrow> (bbdd_d \<times> response) option" where
  "bbdd_d_handle_session_add J env d params =
     (let add = (\<lambda>d cs. case bbdd_d_session_add env d cs of
                          None \<Rightarrow> None
                        | Some (d', Inl e) \<Rightarrow> Some (d', Respond_interr e)
                        | Some (d', Inr _) \<Rightarrow> Some (d', Respond_empty))
      in case bbdd_d_jrpc_dissect_params_session J (e_net env) params False True False of
           None \<Rightarrow> None
         | Some (Inl e) \<Rightarrow> Some (d, Respond_inv_params (DE_request e))
         | Some (Inr (_, cs, _)) \<Rightarrow>
             (case c_discr cs of
                None \<Rightarrow> (case bbdd_sess_get_unique_discr (e_getrandom env) (d_sdir d) (d_rnd d) of
                           None \<Rightarrow> None
                         | Some (dd, n) \<Rightarrow> add (d\<lparr>d_rnd := n\<rparr>) (cs\<lparr>c_discr := Some dd\<rparr>))
              | Some dd \<Rightarrow>
                  if bbdd_sess_dir_has_session (d_sdir d) dd then Some (d, Respond_inv_params DE_duplicate)
                  else add d cs))"

definition bbdd_d_parse_select_sessions ::
  "'j json_c \<Rightarrow> d_env \<Rightarrow> bbdd_d \<Rightarrow> 'j \<Rightarrow> bool \<Rightarrow> bool \<Rightarrow> (response, bbdd_c_session \<times> bool \<times> u32 list) res option"
where
  "bbdd_d_parse_select_sessions J env d params want_change want_bulk =
     (case bbdd_d_jrpc_dissect_params_session J (e_net env) params True want_change want_bulk of
        None \<Rightarrow> None
      | Some (Inl e) \<Rightarrow> Some (Inl (Respond_inv_params (DE_request e)))
      | Some (Inr (select, change, bulk)) \<Rightarrow>
          (case bbdd_d_select_sessions (e_inet env) (e_realloc env) (d_sdir d) select of
             Inl e \<Rightarrow> Some (Inl (Respond_interr (DE_request e)))
           | Inr discrs \<Rightarrow> Some (Inr (change, bulk, discrs))))"

definition bbdd_d_handle_session_check_bulk :: "bool \<Rightarrow> nat \<Rightarrow> (response, unit) res" where
  "bbdd_d_handle_session_check_bulk bulk ndiscrs =
     (if ndiscrs = 0 then Inl (Respond_inv_params DE_no_match)
      else if ndiscrs > 1 \<and> \<not> bulk then Inl (Respond_inv_params DE_not_bulk)
      else Inr ())"

definition bbdd_d_handle_session_set :: "'j json_c \<Rightarrow> d_env \<Rightarrow> bbdd_d \<Rightarrow> 'j \<Rightarrow> (bbdd_d \<times> response) option" where
  "bbdd_d_handle_session_set J env d params =
     (case bbdd_d_parse_select_sessions J env d params True True of
        None \<Rightarrow> None
      | Some (Inl r) \<Rightarrow> Some (d, r)
      | Some (Inr (change, bulk, discrs)) \<Rightarrow>
          (case bbdd_d_handle_session_check_bulk bulk (length discrs) of
             Inl r \<Rightarrow> Some (d, r)
           | Inr _ \<Rightarrow>
               (case session_set_loop env change discrs False d of
                  None \<Rightarrow> None
                | Some (d', Inl e) \<Rightarrow> Some (d', Respond_interr e)
                | Some (d', Inr was_set) \<Rightarrow>
                    Some (d', if was_set then Respond_empty else Respond_inv_params DE_went_away))))"

definition bbdd_d_handle_session_del :: "'j json_c \<Rightarrow> d_env \<Rightarrow> bbdd_d \<Rightarrow> 'j \<Rightarrow> (bbdd_d \<times> response) option" where
  "bbdd_d_handle_session_del J env d params =
     (case bbdd_d_parse_select_sessions J env d params False True of
        None \<Rightarrow> None
      | Some (Inl r) \<Rightarrow> Some (d, r)
      | Some (Inr (_, bulk, discrs)) \<Rightarrow>
          (case bbdd_d_handle_session_check_bulk bulk (length discrs) of
             Inl r \<Rightarrow> Some (d, r)
           | Inr _ \<Rightarrow>
               (case session_del_loop env discrs 0 d of
                  None \<Rightarrow> None
                | Some (d', num_errors) \<Rightarrow>
                    Some (d', if num_errors \<noteq> 0 then Respond_interr (DE_deleted num_errors (length discrs))
                              else Respond_empty))))"

subsection \<open>Requests of the BFD daemon\<close>

definition bbdd_d_bfdd_handle_add_session_vrf :: "d_env \<Rightarrow> bbdd_d \<Rightarrow> bbdd_c_session \<Rightarrow> (bbdd_d \<times> (dmn_err, unit) res) option" where
  "bbdd_d_bfdd_handle_add_session_vrf env d cs =
     (let invalid = (\<lambda>e. Some (count_dp Dp_invalid_message d, Inl e)) in
      case c_discr cs of
        None \<Rightarrow> invalid DE_no_discr
      | Some dd \<Rightarrow>
          (case dbind (if n_ifindex (c_netif cs) \<noteq> None \<or> n_name (c_netif cs) \<noteq> None
                       then bbdd_d_session_validate_netif (e_net env) (c_netif cs) else Some (Inr (c_netif cs)))
                (\<lambda>netif. dbind (if v_table (c_vrf cs) \<noteq> None \<or> n_ifindex (v_netif (c_vrf cs)) \<noteq> None
                                   \<or> n_name (v_netif (c_vrf cs)) \<noteq> None
                                then bbdd_d_session_validate_vrf (e_net env) (c_vrf cs) else Some (Inr (c_vrf cs)))
                (\<lambda>vrf. Some (Inr (cs\<lparr>c_netif := netif, c_vrf := vrf\<rparr>)))) of
             None \<Rightarrow> None
           | Some (Inl e) \<Rightarrow> invalid (DE_request e)
           | Some (Inr cs') \<Rightarrow>
               (case bbdd_sess_dir_get_session (d_sdir d) dd of
                  None \<Rightarrow>
                    (case bbdd_d_session_add env d cs' of
                       None \<Rightarrow> None
                     | Some (d', Inl e) \<Rightarrow> Some (count_dp Dp_no_session d', Inl e)
                     | Some (d', Inr _) \<Rightarrow> Some (d', Inr ()))
                | Some ds \<Rightarrow>
                    (case session_change env d ds cs' of
                       None \<Rightarrow> None
                     | Some (d', Inl e) \<Rightarrow> Some (count_dp Dp_internal_error d', Inl e)
                     | Some (d', Inr _) \<Rightarrow> Some (d', Inr ())))))"

definition bbdd_d_bfdd_handle_delete_session :: "d_env \<Rightarrow> bbdd_d \<Rightarrow> u32 \<Rightarrow> (bbdd_d \<times> (dmn_err, unit) res) option" where
  "bbdd_d_bfdd_handle_delete_session env d dd =
     (case bbdd_d_handle_session_del_one env d dd of
        None \<Rightarrow> None
      | Some (d', Inl e) \<Rightarrow> Some (count_dp Dp_no_session d', Inl e)
      | Some (d', Inr _) \<Rightarrow> Some (d', Inr ()))"

subsection \<open>The match callback\<close>

lemma match_loop_exact:
  "match_loop dg dss n ret = Inr (n', ret') \<Longrightarrow>
     n' = n + length (filter (\<lambda>ds. match_one dg ds = Inr True) dss)
     \<and> ret' = (case filter (\<lambda>ds. match_one dg ds = Inr True) dss of [] \<Rightarrow> ret | xs \<Rightarrow> Some (last xs))"
proof (induction dss arbitrary: n ret)
  case (Cons ds dss)
  then obtain b where b: "match_one dg ds = Inr b" by (auto split: sum.splits)
  show ?case using Cons.IH[of "Suc n" "Some ds"] Cons.IH[of n ret] Cons.prems b
    by (cases b) (auto split: list.splits)
qed simp

lemma match_session_sound: "match_sound bbdd_d_match_session"
  unfolding match_sound_def bbdd_d_match_session_def
proof (intro allI impI)
  fix sdir dg m
  assume k: "kwf skey sdir" and r: "match_loop dg sdir 0 None = Inr (1, m)"
  let ?xs = "filter (\<lambda>ds. match_one dg ds = Inr True) sdir"
  have "length ?xs = 1" "m = (case ?xs of [] \<Rightarrow> None | xs \<Rightarrow> Some (last xs))" using match_loop_exact[OF r] by auto
  then obtain ds where "?xs = [ds]" "m = Some ds" by (auto simp: length_Suc_conv)
  moreover from this have "ds \<in> set sdir" by (metis filter_is_subset in_mono list.set_intros(1))
  ultimately show "\<exists>ds. m = Some ds \<and> bbdd_sess_dir_get_session sdir (skey ds) = Some ds"
    using in_set_kget[OF k] by (auto simp: bbdd_sess_dir_get_session_def)
qed

subsection \<open>The invariant of the daemon\<close>

definition sess_port :: "bbdd_d_session \<Rightarrow> u16" where
  "sess_port ds = ntoh16 (sa_port (src ds))"

definition dmn_ok :: "bbdd_d \<Rightarrow> bool" where
  "dmn_ok d \<longleftrightarrow> world_ok (d_world d) \<and> sport_inv (d_spa d) \<and> ports_ok (d_spa d) (map sess_port (d_sdir d))
     \<and> (\<forall>ds \<in> set (d_sdir d). dsess_ok ds)"

text \<open>Validity and the port are a matter of the configuration.\<close>

fun cfg_ok :: "session_config \<Rightarrow> bool" where
  "cfg_ok (sa, da, _, _, _, _, _, _, dd, fl, tm) \<longleftrightarrow>
     sa_ok sa \<and> sa_ok da \<and> sa_family da \<noteq> 0 \<and> sa_family sa \<in> {0, sa_family da}
     \<and> sa_port da = hton16 (if multihop fl then BFD_MULTI_HOP_PORT else BFD_SINGLE_HOP_PORT)
     \<and> dd \<noteq> 0 \<and> detect_mult tm \<noteq> 0 \<and> min_tx_us tm \<noteq> 0 \<and> min_rx_us tm \<noteq> 0"

lemma dsess_ok_cfg: "dsess_ok ds = cfg_ok (ucfg ds)" "sess_port ds = ntoh16 (sa_port (fst (ucfg ds)))"
  by (simp_all add: dsess_ok_def ucfg_def sess_port_def)

lemma dmn_ok_cfg:
  assumes "dmn_ok d" "world_ok w'" "ucfgs w' = ucfgs (d_world d)"
  shows "dmn_ok (d\<lparr>d_world := w'\<rparr>)"
proof -
  have "map sess_port (wsdir w) = map (\<lambda>c. ntoh16 (sa_port (fst c))) (ucfgs w)" for w
    by (simp add: ucfgs_def dsess_ok_cfg)
  moreover have "(\<forall>ds \<in> set (wsdir w). dsess_ok ds) = (\<forall>c \<in> set (ucfgs w). cfg_ok c)" for w
    by (simp add: ucfgs_def dsess_ok_cfg)
  ultimately show ?thesis using assms by (simp add: dmn_ok_def)
qed

lemma dmn_ok_counted [simp]: "dmn_ok (count_dp s d) = dmn_ok d" "dmn_ok (d\<lparr>d_rnd := n\<rparr>) = dmn_ok d"
  by (simp_all add: dmn_ok_def count_dp_def)

lemma dmn_ok_get:
  assumes "dmn_ok d" "bbdd_sess_dir_get_session (d_sdir d) x = Some ds"
  shows "ds \<in> set (d_sdir d)" "skey ds = x" "dsess_ok ds" "x \<noteq> 0"
proof -
  show m: "ds \<in> set (d_sdir d)" "skey ds = x" using kget_key assms(2) by (fastforce simp: bbdd_sess_dir_get_session_def)+
  then show "dsess_ok ds" using assms(1) by (simp add: dmn_ok_def)
  then show "x \<noteq> 0" using m by (simp add: dsess_ok_def skey_def)
qed

lemma dmn_ok_fresh_0: "dmn_ok d \<Longrightarrow> bbdd_sess_dir_get_session (d_sdir d) 0 = None"
  using dmn_ok_get(4)[of d 0] by (cases "bbdd_sess_dir_get_session (d_sdir d) 0") auto

text \<open>Putting back a session that kept its key.\<close>

lemma world_ok_put_dsess:
  assumes w: "world_ok w" and g: "bbdd_sess_dir_get_session (wsdir w) (skey ds) = Some ds"
    and k: "skey ds' = skey ds" and m: "detect_mult (timing (sess_local ds')) \<noteq> 0" "detect_mult (timing (sess_remote ds')) \<noteq> 0"
  shows "world_ok (w\<lparr>wsdir := put_dsess ds' (wsdir w)\<rparr>)"
proof -
  obtain bs where bs: "bbdd_bpf_sdir_get_session (wbpf w) (skey ds) = Some bs" "sess_ok ds bs"
    using world_ok_sess[OF w g] by metis
  have ok: "sess_ok ds' bs" using bs(2) k m by (simp add: sess_ok_def skey_def)
  have h: "kget skey (kset skey ds' (wsdir w)) x = (if x = skey ds then Some ds' else kget skey (wsdir w) x)" for x
    using g k by (auto simp: kget_set bbdd_sess_dir_get_session_def)
  have old: "case (kget skey (wsdir w) x, kget bs_discr (bsdir (wbpf w)) x) of
              (Some ds, Some bs) \<Rightarrow> sess_ok ds bs | (None, None) \<Rightarrow> True | _ \<Rightarrow> False" for x
    using w unfolding world_ok_def bbdd_bpf_sdir_get_session_def bbdd_sess_dir_get_session_def by blast
  show ?thesis
    using w bs(1) ok old unfolding world_ok_def
    by (simp add: put_dsess_def bbdd_bpf_sdir_get_session_def bbdd_sess_dir_get_session_def kwf_set h)
qed

subsection \<open>Adding\<close>

lemma put_after_add:
  assumes "kget skey xs (skey ds0) = None" "skey ds' = skey ds0"
  shows "put_dsess ds' (kadd ds0 xs) = kadd ds' xs"
proof -
  have "kset skey ds' xs = xs"
    unfolding kset_def using assms by (intro map_idI) (auto simp: kget_None image_iff)
  then show ?thesis using assms(2) by (simp add: put_dsess_def kadd_def kset_def)
qed

lemma new_dsess_sel:
  "skey (new_dsess sport ds) = skey ds" "sa_port (src (new_dsess sport ds)) = hton16 sport"
  "sa_family (src (new_dsess sport ds)) = sa_family (src ds)" "dst (new_dsess sport ds) = dst ds"
  "detect_mult (timing (sess_remote (new_dsess sport ds))) = 1"
  "sa_ok (src (new_dsess sport ds)) = sa_ok (src ds)"
  by (simp_all add: new_dsess_def Let_def skey_def)

text \<open>What a failed addition leaves: the session table, the kernel side and the set of
  ports as they were.\<close>

definition not_added :: "bbdd_d \<Rightarrow> bbdd_d \<Rightarrow> bool" where
  "not_added d d' \<longleftrightarrow> d_sdir d' = d_sdir d \<and> bsdir (d_bpf d') = bsdir (d_bpf d) \<and> sport_taken (d_spa d') = sport_taken (d_spa d)"

lemma add_failed_ok:
  assumes d: "dmn_ok d" and g: "bbdd_d_sport_get (d_spa d) = Some (sport, spa1)"
    and w: "world_ok w" "wsdir w = d_sdir d" "bsdir (wbpf w) = bsdir (d_bpf d)"
  shows "\<exists>d'. add_failed d w spa1 sport e = Some (d', Inl e) \<and> dmn_ok d' \<and> not_added d d'"
proof -
  have i: "sport_inv (d_spa d)" "ports_ok (d_spa d) (map sess_port (d_sdir d))" using d by (simp_all add: dmn_ok_def)
  obtain spa' where p: "bbdd_d_sport_put spa1 sport = Some spa'" "sport_inv spa'" "sport_taken spa' = sport_taken (d_spa d)"
    using spa.claim_release[OF i(1) g] by blast
  moreover have "ports_ok spa' (map sess_port (d_sdir d))" using i(2) unfolding owned_def p(3) .
  ultimately show ?thesis using d w by (simp add: add_failed_def dmn_ok_def not_added_def)
qed

lemma session_add_daemon:
  assumes d: "dmn_ok d" and N: "net_ok (e_net env)" and dst: "\<not> a_unset (c_dst cs)"
    and n: "bbdd_sess_dir_get_session (d_sdir d) (or_else (c_discr cs) 0) = None"
  shows "\<exists>d' r. bbdd_d_session_add env d cs = Some (d', r) \<and> dmn_ok d'
    \<and> (case r of Inl _ \<Rightarrow> not_added d d'
       | Inr _ \<Rightarrow> \<exists>ds. d_sdir d' = d_sdir d @ [ds] \<and> skey ds = or_else (c_discr cs) 0 \<and> dsess_ok ds
           \<and> added (d_bpf d) (skey ds) (d_bpf d'))"
proof (cases "bbdd_d_sport_get (d_spa d)")
  case None
  then show ?thesis using d by (simp add: bbdd_d_session_add_def not_added_def)
next
  case (Some ps)
  obtain sport spa1 where g: "bbdd_d_sport_get (d_spa d) = Some (sport, spa1)" using Some by (cases ps) simp
  define w where "w = d_world d"
  have w: "world_ok w" using d by (simp add: dmn_ok_def w_def)
  note failed = add_failed_ok[OF d g]
  define ds0 where "ds0 = zero_session\<lparr>sess_local := zero_session_data\<lparr>discr := or_else (c_discr cs) 0\<rparr>\<rparr>"
  define ds1 where "ds1 = new_dsess sport ds0"
  have k0: "skey ds0 = or_else (c_discr cs) 0" "skey ds1 = skey ds0"
    by (simp_all add: ds0_def skey_def ds1_def new_dsess_sel[unfolded skey_def])
  have n0: "kget skey (wsdir w) (skey ds0) = None" using n by (simp add: k0 bbdd_sess_dir_get_session_def w_def)
  have s1: "sa_ok (src ds1)" "sa_ok (dst ds1)"
    by (simp_all add: ds1_def new_dsess_sel ds0_def zero_session_def)
  have eq: "bbdd_d_session_add env d cs =
    (if \<not> e_calloc env (tick (wbpf w)) then add_failed d w spa1 sport DE_alloc
     else case bbdd_d_session_apply_c (e_inet env) (e_net env) ds1 cs of
                  None \<Rightarrow> None
                | Some (Inl e) \<Rightarrow>
                    add_failed d (w\<lparr>wsdir := bbdd_sess_dir_del_session (put_dsess ds1 (kadd ds0 (wsdir w))) (skey ds1)\<rparr>) spa1 sport (DE_request e)
                | Some (Inr (ds2, _)) \<Rightarrow>
                    (case bbdd_bpf_session_add (e_bpf env) (wbpf w) ds2 of
                       None \<Rightarrow> None
                     | Some (b, Inl e) \<Rightarrow>
                         add_failed d (w\<lparr>wbpf := b, wsdir := bbdd_sess_dir_del_session (put_dsess ds2 (kadd ds0 (wsdir w))) (skey ds2)\<rparr>)
                           spa1 sport (DE_bpf e)
                     | Some (b, Inr _) \<Rightarrow>
                         Some (d\<lparr>d_world := w\<lparr>wbpf := b, wsdir := put_dsess ds2 (kadd ds0 (wsdir w))\<rparr>, d_spa := spa1\<rparr>, Inr ())))"
    unfolding bbdd_d_session_add_def g bbdd_sess_dir_add_session_def Let_def w_def[symmetric] ds0_def[symmetric] ds1_def by simp
  have rolled: "bbdd_sess_dir_del_session (put_dsess ds' (kadd ds0 (wsdir w))) (skey ds') = wsdir w" if "skey ds' = skey ds0" for ds'
    using put_after_add[OF n0 that] kdel_add_fresh[of skey "wsdir w" ds'] n0 that by (simp add: bbdd_sess_dir_del_session_def)
  show ?thesis
  proof (cases "e_calloc env (tick (wbpf w))")
    case False
    obtain d' where f: "add_failed d w spa1 sport DE_alloc = Some (d', Inl DE_alloc)" "dmn_ok d'" "not_added d d'"
      using failed[OF w] w_def by blast
    have "bbdd_d_session_add env d cs = Some (d', Inl DE_alloc)" unfolding eq using False f(1) by simp
    then show ?thesis using f(2,3) by simp
  next
    case True
    obtain r where r: "bbdd_d_session_apply_c (e_inet env) (e_net env) ds1 cs = Some r"
      using apply_c_total[OF N dst] by blast
    show ?thesis
    proof (cases r)
      case (Inl e)
      have w0: "w\<lparr>wsdir := wsdir w\<rparr> = w" by simp
      obtain d' where f: "add_failed d w spa1 sport (DE_request e) = Some (d', Inl (DE_request e))" "dmn_ok d'" "not_added d d'"
        using failed[OF w] w_def by blast
      have "bbdd_d_session_add env d cs = Some (d', Inl (DE_request e))"
        unfolding eq r Inl rolled[OF k0(2)] w0 using True f(1) by simp
      then show ?thesis using f(2,3) by simp
    next
      case (Inr x)
      obtain ds2 ch where x: "x = (ds2, ch)" by (cases x)
      note v = apply_c_valid_lem[OF r[unfolded Inr x] s1]
      have k2: "skey ds2 = skey ds0"
      proof -
        obtain csrc cdst where "ds2 = session_apply_c_checked ds1 cs csrc cdst"
          using apply_c_accepted[OF r[unfolded Inr x]] by metis
        then have "skey ds2 = or_else (c_discr cs) (skey ds1)" by (simp add: session_apply_c_checked_def Let_def skey_def)
        then show ?thesis using k0 by (cases "c_discr cs") simp_all
      qed
      have m: "detect_mult (timing (sess_local ds2)) \<noteq> 0" "detect_mult (timing (sess_remote ds2)) \<noteq> 0"
        using v(1,3) by (simp_all add: dsess_ok_def ds1_def new_dsess_sel)
      have n2: "bbdd_sess_dir_get_session (wsdir w) (skey ds2) = None" using n0 k2 by (simp add: bbdd_sess_dir_get_session_def)
      obtain b' r2 where a: "bbdd_bpf_session_add (e_bpf env) (wbpf w) ds2 = Some (b', r2)"
        and ar: "case r2 of Inl _ \<Rightarrow> world_ok (w\<lparr>wbpf := b'\<rparr>) \<and> kept (wbpf w) (skey ds2) b'
           | Inr _ \<Rightarrow> world_ok (w\<lparr>wbpf := b', wsdir := kadd ds2 (wsdir w)\<rparr>) \<and> added (wbpf w) (skey ds2) b'"
        using session_add_world[OF w n2 m] by blast
      show ?thesis
      proof (cases r2)
        case (Inl e)
        then have "world_ok (w\<lparr>wbpf := b'\<rparr>)" "bsdir b' = bsdir (wbpf w)" using ar by (simp_all add: kept_def)
        then obtain d' where f: "add_failed d (w\<lparr>wbpf := b'\<rparr>) spa1 sport (DE_bpf e) = Some (d', Inl (DE_bpf e))"
          "dmn_ok d'" "not_added d d'"
          using failed[of "w\<lparr>wbpf := b'\<rparr>" "DE_bpf e"] by (auto simp: w_def)
        have w0: "w\<lparr>wbpf := b', wsdir := wsdir w\<rparr> = w\<lparr>wbpf := b'\<rparr>" by simp
        have "bbdd_d_session_add env d cs = Some (d', Inl (DE_bpf e))"
          unfolding eq r Inr x option.case sum.case prod.case a Inl rolled[OF k2] w0 using True f(1) by simp
        then show ?thesis using f(2,3) by simp
      next
        case (Inr u)
        have "sport_inv spa1 \<and> ports_ok spa1 (map sess_port (d_sdir d) @ [sport])"
          using spa.claim[OF _ _ g, of "map sess_port (d_sdir d)"] d by (simp add: dmn_ok_def)
        moreover have "sess_port ds2 = sport" using v(2) by (simp add: sess_port_def ds1_def new_dsess_sel)
        ultimately have "dmn_ok (d\<lparr>d_world := w\<lparr>wbpf := b', wsdir := kadd ds2 (wsdir w)\<rparr>, d_spa := spa1\<rparr>)"
          using ar Inr v(1) d by (simp add: dmn_ok_def kadd_def w_def)
        moreover have "bbdd_d_session_add env d cs
            = Some (d\<lparr>d_world := w\<lparr>wbpf := b', wsdir := kadd ds2 (wsdir w)\<rparr>, d_spa := spa1\<rparr>, Inr ())"
          unfolding eq r \<open>r = Inr x\<close> x option.case sum.case prod.case a Inr put_after_add[OF n0 k2] using True by simp
        moreover have "added (wbpf w) (skey ds2) b'" using ar Inr by simp
        ultimately show ?thesis using v(1) k2 k0(1) by (simp add: w_def kadd_def)
      qed
    qed
  qed
qed

subsection \<open>Changing\<close>

lemma session_change_ok:
  assumes d: "dmn_ok d" and N: "net_ok (e_net env)" and dst: "\<not> a_unset (c_dst cs)"
    and g: "bbdd_sess_dir_get_session (d_sdir d) x = Some ds"
  shows "\<exists>d' r. session_change env d ds cs = Some (d', r) \<and> dmn_ok d' \<and> map skey (d_sdir d') = map skey (d_sdir d)
    \<and> d_spa d' = d_spa d \<and> (\<forall>e. r = Inl (DE_request e) \<longrightarrow> d' = d)"
proof -
  define w where "w = d_world d"
  have w: "world_ok w" using d by (simp add: dmn_ok_def w_def)
  note s = dmn_ok_get[OF d g]
  have gk: "bbdd_sess_dir_get_session (wsdir w) (skey ds) = Some ds" using g s(2) by (simp add: w_def)
  have so: "sa_ok (src ds)" "sa_ok (dst ds)" using s(3) by (simp_all add: dsess_ok_def)
  obtain bs where bs: "sess_ok ds bs" using world_ok_sess[OF w gk] by metis
  obtain r where r: "bbdd_d_session_apply_c (e_inet env) (e_net env) ds cs = Some r"
    using apply_c_total[OF N dst] by blast
  show ?thesis
  proof (cases r)
    case (Inl e)
    then show ?thesis using r d by (simp add: session_change_def)
  next
    case (Inr y)
    obtain ds1 ch where y: "y = (ds1, ch)" by (cases y)
    note v = apply_c_valid_lem[OF r[unfolded Inr y] so]
    have k1: "skey ds1 = skey ds" using v(5) s(2,4) by (simp add: skey_def)
    have m1: "detect_mult (timing (sess_local ds1)) \<noteq> 0" "detect_mult (timing (sess_remote ds1)) \<noteq> 0"
      using v(1,3) bs by (simp_all add: dsess_ok_def sess_ok_def)
    define w1 where "w1 = w\<lparr>wsdir := put_dsess ds1 (wsdir w)\<rparr>"
    have w1: "world_ok w1" unfolding w1_def by (rule world_ok_put_dsess[OF w gk k1 m1])
    have k1s: "map skey (wsdir w1) = map skey (wsdir w)" by (simp add: w1_def put_dsess_def)
    have g1: "bbdd_sess_dir_get_session (wsdir w1) (skey ds1) = Some ds1"
      using gk k1 by (simp add: w1_def put_dsess_def bbdd_sess_dir_get_session_def kget_set)
    have p1: "map sess_port (wsdir w1) = map sess_port (wsdir w)"
      unfolding w1_def put_dsess_def using kset_same[of skey "wsdir w" ds1 ds sess_port] world_ok_wf(1)[OF w] gk k1 v(2)
      by (simp add: bbdd_sess_dir_get_session_def sess_port_def)
    have o1: "\<forall>z \<in> set (wsdir w1). dsess_ok z"
      using d v(1) by (auto simp: w1_def put_dsess_def kset_def dmn_ok_def w_def)
    have d1: "dmn_ok (d\<lparr>d_world := w1\<rparr>)" using d w1 p1 o1 by (simp add: dmn_ok_def w_def)
    obtain b' ds2 r2 where u: "bbdd_bpf_session_update (e_bpf env) (wbpf w1) ds1 = Some (b', ds2, r2)"
      "world_ok (w1\<lparr>wbpf := b', wsdir := put_dsess ds2 (wsdir w1)\<rparr>)"
      "ucfgs (w1\<lparr>wbpf := b', wsdir := put_dsess ds2 (wsdir w1)\<rparr>) = ucfgs w1"
      using session_update_world[OF w1 g1] by metis
    define w2 where "w2 = w1\<lparr>wbpf := b', wsdir := put_dsess ds2 (wsdir w1)\<rparr>"
    define w3 where "w3 = (if ch \<and> \<not> bbdd_bpf_session_is_on_hold b' ds2 then w2\<lparr>wbpf := bbdd_d_session_state_changed ds2 b'\<rparr> else w2)"
    have k2: "map skey (wsdir w2) = map skey (wsdir w)" using k1s by (simp add: w2_def put_dsess_def)
    have w3: "world_ok w3" "ucfgs w3 = ucfgs w1" "wsdir w3 = wsdir w2"
      using u(2,3) world_ok_emit[OF u(2)] by (simp_all add: w3_def w2_def bbdd_d_session_state_changed_def ucfgs_def)
    have d2: "dmn_ok (d\<lparr>d_world := w2\<rparr>)" "dmn_ok (d\<lparr>d_world := w3\<rparr>)"
      using dmn_ok_cfg[OF d1, of w2] dmn_ok_cfg[OF d1, of w3] u(2,3) w3 by (simp_all add: w2_def)
    have "session_change env d ds cs = (case r2 of Inl e \<Rightarrow> Some (d\<lparr>d_world := w2\<rparr>, Inl (DE_bpf e))
        | Inr _ \<Rightarrow> Some (d\<lparr>d_world := w3\<rparr>, Inr ()))"
      unfolding session_change_def r Inr y option.case sum.case prod.case Let_def w_def[symmetric] w1_def[symmetric] u(1)
        w2_def[symmetric] w3_def ..
    then show ?thesis using d2 k2 w3(3) by (cases r2) (simp_all add: w_def)
  qed
qed

lemma set_loop_ok:
  assumes N: "net_ok (e_net env)" and dst: "\<not> a_unset (c_dst cs)"
  shows "dmn_ok d \<Longrightarrow> \<exists>d' r. session_set_loop env cs discrs st d = Some (d', r) \<and> dmn_ok d'
    \<and> map skey (d_sdir d') = map skey (d_sdir d) \<and> d_spa d' = d_spa d"
proof (induction discrs arbitrary: d st)
  case (Cons x discrs)
  show ?case
  proof (cases "bbdd_sess_dir_get_session (d_sdir d) x")
    case None
    then show ?thesis using Cons.IH[OF Cons.prems, of st] by simp
  next
    case (Some ds)
    obtain d1 r1 where c: "session_change env d ds cs = Some (d1, r1)" "dmn_ok d1"
      "map skey (d_sdir d1) = map skey (d_sdir d)" "d_spa d1 = d_spa d"
      using session_change_ok[OF Cons.prems N dst Some] by blast
    show ?thesis using Cons.IH[OF c(2), of True] c Some by (cases r1) simp_all
  qed
qed simp

subsection \<open>Deleting\<close>

lemma del_one_ok:
  assumes d: "dmn_ok d"
  shows "\<exists>d' r. bbdd_d_handle_session_del_one env d x = Some (d', r) \<and> dmn_ok d'
    \<and> (case r of Inl _ \<Rightarrow> d' = d \<and> x \<notin> skey ` set (d_sdir d)
       | Inr _ \<Rightarrow> d_sdir d' = filter (\<lambda>ds. skey ds \<noteq> x) (d_sdir d)
           \<and> (\<exists>ds \<in> set (d_sdir d). skey ds = x \<and> sport_taken (d_spa d') = sport_taken (d_spa d) - {sess_port ds}))"
proof (cases "bbdd_sess_dir_get_session (d_sdir d) x")
  case None
  then have "x \<notin> skey ` set (d_sdir d)" by (simp add: bbdd_sess_dir_get_session_def kget_None)
  with None show ?thesis using d by (simp add: bbdd_d_handle_session_del_one_def)
next
  case (Some ds)
  note s = dmn_ok_get[OF d Some]
  have w: "world_ok (d_world d)" and i: "sport_inv (d_spa d)" "ports_ok (d_spa d) (map sess_port (d_sdir d))"
    using d by (simp_all add: dmn_ok_def)
  obtain bs where bs: "bbdd_bpf_sdir_get_session (d_bpf d) x = Some bs" using world_ok_sess[OF w Some] by metis
  obtain b' where b': "session_del (e_bpf env) (d_bpf d) bs = Some b'"
    "world_ok ((d_world d)\<lparr>wbpf := b', wsdir := bbdd_sess_dir_del_session (d_sdir d) x\<rparr>)"
    using session_del_ok[OF w bs] by metis
  obtain xs ys where l: "d_sdir d = xs @ ds # ys" using s(1) by (auto simp: in_set_conv_decomp)
  have "distinct (map skey (xs @ ds # ys))" using world_ok_wf(1)[OF w] l by (simp add: kwf_def)
  then have "filter (\<lambda>v. skey v \<noteq> x) xs = xs" "filter (\<lambda>v. skey v \<noteq> x) ys = ys"
    using s(2) by (simp_all add: filter_id_conv image_iff) metis+
  then have del: "bbdd_sess_dir_del_session (d_sdir d) x = xs @ ys"
    using s(2) by (simp add: bbdd_sess_dir_del_session_def kdel_def l)
  obtain spa' where p: "bbdd_d_sport_put (d_spa d) (sess_port ds) = Some spa'" "sport_inv spa'"
    "ports_ok spa' (map sess_port xs @ map sess_port ys)"
    using spa.release[OF i(1), of "map sess_port xs" "sess_port ds" "map sess_port ys"] i(2) l by auto
  have t: "sport_taken spa' = sport_taken (d_spa d) - {sess_port ds}" using p(3) i(2) l by (auto simp: owned_def)
  have "bbdd_d_handle_session_del_one env d x
      = Some (d\<lparr>d_world := (d_world d)\<lparr>wbpf := b', wsdir := xs @ ys\<rparr>, d_spa := spa'\<rparr>, Inr ())"
    using Some bs b'(1) p(1) s(2) del
    by (simp add: bbdd_d_handle_session_del_one_def bbdd_bpf_session_del_def sess_port_def skey_def)
  moreover have "dmn_ok (d\<lparr>d_world := (d_world d)\<lparr>wbpf := b', wsdir := xs @ ys\<rparr>, d_spa := spa'\<rparr>)"
    using d b'(2) p l unfolding del by (auto simp: dmn_ok_def)
  ultimately show ?thesis using del s(1,2) t by (auto simp: bbdd_sess_dir_del_session_def kdel_def)
qed

lemma del_loop_ok:
  "dmn_ok d \<Longrightarrow> \<exists>d' n'. session_del_loop env discrs n d = Some (d', n') \<and> dmn_ok d'
    \<and> d_sdir d' = filter (\<lambda>ds. skey ds \<notin> set discrs) (d_sdir d)
    \<and> (distinct discrs \<and> set discrs \<subseteq> skey ` set (d_sdir d) \<longrightarrow> n' = n)"
proof (induction discrs arbitrary: d n)
  case (Cons x discrs)
  obtain d1 r1 where c: "bbdd_d_handle_session_del_one env d x = Some (d1, r1)" "dmn_ok d1"
    and cr: "case r1 of Inl _ \<Rightarrow> d1 = d \<and> x \<notin> skey ` set (d_sdir d)
       | Inr _ \<Rightarrow> d_sdir d1 = filter (\<lambda>ds. skey ds \<noteq> x) (d_sdir d)
           \<and> (\<exists>ds \<in> set (d_sdir d). skey ds = x \<and> sport_taken (d_spa d1) = sport_taken (d_spa d) - {sess_port ds})"
    using del_one_ok[OF Cons.prems, of env x] by blast
  show ?case
  proof (cases r1)
    case (Inl e)
    have "filter (\<lambda>ds. skey ds \<notin> set discrs) (d_sdir d) = filter (\<lambda>ds. skey ds \<notin> set (x # discrs)) (d_sdir d)"
      using cr Inl by (intro filter_cong) auto
    then show ?thesis using Cons.IH[OF c(2), of "Suc n"] c(1) cr Inl by auto
  next
    case (Inr u)
    have s1: "d_sdir d1 = filter (\<lambda>ds. skey ds \<noteq> x) (d_sdir d)" using cr Inr by simp
    obtain d' n' where IH: "session_del_loop env discrs n d1 = Some (d', n')" "dmn_ok d'"
      "d_sdir d' = filter (\<lambda>ds. skey ds \<notin> set discrs) (d_sdir d1)"
      "distinct discrs \<and> set discrs \<subseteq> skey ` set (d_sdir d1) \<longrightarrow> n' = n" using Cons.IH[OF c(2)] by blast
    have "distinct (x # discrs) \<and> set (x # discrs) \<subseteq> skey ` set (d_sdir d) \<Longrightarrow> set discrs \<subseteq> skey ` set (d_sdir d1)"
      by (force simp: s1 image_iff)
    then have "distinct (x # discrs) \<and> set (x # discrs) \<subseteq> skey ` set (d_sdir d) \<longrightarrow> n' = n" using IH(4) by simp
    moreover have "d_sdir d' = filter (\<lambda>ds. skey ds \<notin> set (x # discrs)) (d_sdir d)"
      unfolding IH(3) s1 filter_filter by (rule filter_cong) auto
    ultimately show ?thesis using c(1) Inr IH(1,2) by simp
  qed
qed simp

subsection \<open>Requests\<close>

text \<open>The random source delivers, sooner or later, a value that no session has.\<close>

definition rnd_ok :: "d_env \<Rightarrow> bbdd_d \<Rightarrow> bool" where
  "rnd_ok env d \<longleftrightarrow> (\<exists>n v. e_getrandom env (d_rnd d + n) = Some v \<and> bbdd_sess_dir_get_session (d_sdir d) v = None)"

lemma handle_session_add_ok:
  assumes d: "dmn_ok d" and J: "json_ok J" and N: "net_ok (e_net env)"
    and u: "rnd_ok env d"
  shows "\<exists>d' r. bbdd_d_handle_session_add J env d params = Some (d', r) \<and> dmn_ok d'"
proof -
  obtain r where r: "bbdd_d_jrpc_dissect_params_session J (e_net env) params False True False = Some r"
    using dissect_params_total[OF J N] by blast
  show ?thesis
  proof (cases r)
    case (Inl e)
    then show ?thesis using r d by (simp add: bbdd_d_handle_session_add_def)
  next
    case (Inr x)
    obtain sel cs bulk where x: "x = (sel, cs, bulk)" by (cases x)
    have dst: "\<not> a_unset (c_dst cs)" using dissect_params_dst[OF J] r Inr x by blast
    show ?thesis
    proof (cases "c_discr cs")
      case (Some dd)
      show ?thesis
      proof (cases "bbdd_sess_dir_has_session (d_sdir d) dd")
        case True
        then show ?thesis using r Inr x Some d by (simp add: bbdd_d_handle_session_add_def)
      next
        case False
        then have "bbdd_sess_dir_get_session (d_sdir d) (or_else (c_discr cs) 0) = None"
          using Some by (simp add: bbdd_sess_dir_has_session_def)
        from session_add_daemon[OF d N dst this] obtain d' q where
          "bbdd_d_session_add env d cs = Some (d', q)" "dmn_ok d'" by blast
        then show ?thesis using r Inr x Some False by (cases q) (simp_all add: bbdd_d_handle_session_add_def)
      qed
    next
      case None
      obtain dd n where un: "bbdd_sess_get_unique_discr (e_getrandom env) (d_sdir d) (d_rnd d) = Some (dd, n)"
        and fr: "dd = 0 \<or> bbdd_sess_dir_get_session (d_sdir d) dd = None"
        using u unique_discr_returns unfolding rnd_ok_def by metis
      let ?cs = "cs\<lparr>c_discr := Some dd\<rparr>" and ?d = "d\<lparr>d_rnd := n\<rparr>"
      have "bbdd_sess_dir_get_session (d_sdir ?d) (or_else (c_discr ?cs) 0) = None"
        using fr dmn_ok_fresh_0[OF d] by (cases "dd = 0") simp_all
      moreover have "dmn_ok ?d" "\<not> a_unset (c_dst ?cs)" using d dst by simp_all
      ultimately obtain d' q where "bbdd_d_session_add env ?d ?cs = Some (d', q)" "dmn_ok d'"
        using session_add_daemon[OF _ N] by blast
      then show ?thesis using r Inr x None un by (cases q) (simp_all add: bbdd_d_handle_session_add_def)
    qed
  qed
qed

lemma parse_select_total:
  assumes "json_ok J" "net_ok (e_net env)"
  obtains r where "bbdd_d_parse_select_sessions J env d params wc wb = Some r"
    "\<And>cs bulk discrs. r = Inr (cs, bulk, discrs) \<Longrightarrow> \<not> a_unset (c_dst cs)"
proof -
  obtain r where r: "bbdd_d_jrpc_dissect_params_session J (e_net env) params True wc wb = Some r"
    using dissect_params_total[OF assms] by blast
  have "\<exists>r. bbdd_d_parse_select_sessions J env d params wc wb = Some r
      \<and> (\<forall>cs bulk discrs. r = Inr (cs, bulk, discrs) \<longrightarrow> \<not> a_unset (c_dst cs))"
  proof (cases r)
    case (Inl e)
    then show ?thesis using r by (simp add: bbdd_d_parse_select_sessions_def)
  next
    case (Inr x)
    obtain sel cs bulk where x: "x = (sel, cs, bulk)" by (cases x)
    have dst: "\<not> a_unset (c_dst cs)" using dissect_params_dst[OF assms(1)] r Inr x by blast
    show ?thesis using r Inr x dst
      by (cases "bbdd_d_select_sessions (e_inet env) (e_realloc env) (d_sdir d) sel")
        (simp_all add: bbdd_d_parse_select_sessions_def)
  qed
  then show ?thesis using that by blast
qed

lemma handle_session_set_ok:
  assumes d: "dmn_ok d" and J: "json_ok J" and N: "net_ok (e_net env)"
  shows "\<exists>d' r. bbdd_d_handle_session_set J env d params = Some (d', r) \<and> dmn_ok d'
    \<and> map skey (d_sdir d') = map skey (d_sdir d) \<and> d_spa d' = d_spa d"
proof -
  obtain r where r: "bbdd_d_parse_select_sessions J env d params True True = Some r"
    "\<And>cs bulk discrs. r = Inr (cs, bulk, discrs) \<Longrightarrow> \<not> a_unset (c_dst cs)" using parse_select_total[OF J N] by blast
  show ?thesis
  proof (cases r)
    case (Inl e)
    then show ?thesis using r(1) d by (simp add: bbdd_d_handle_session_set_def)
  next
    case (Inr x)
    obtain cs bulk discrs where x: "x = (cs, bulk, discrs)" by (cases x)
    have dst: "\<not> a_unset (c_dst cs)" using r(2) Inr x by blast
    obtain d' q where l: "session_set_loop env cs discrs False d = Some (d', q)" "dmn_ok d'"
      "map skey (d_sdir d') = map skey (d_sdir d)" "d_spa d' = d_spa d" using set_loop_ok[OF N dst d] by blast
    show ?thesis using r(1) Inr x l d
      by (cases "bbdd_d_handle_session_check_bulk bulk (length discrs)"; cases q)
        (simp_all add: bbdd_d_handle_session_set_def)
  qed
qed

lemma handle_session_del_ok:
  assumes d: "dmn_ok d" and J: "json_ok J" and N: "net_ok (e_net env)"
  shows "\<exists>d' r. bbdd_d_handle_session_del J env d params = Some (d', r) \<and> dmn_ok d'"
proof -
  obtain r where r: "bbdd_d_parse_select_sessions J env d params False True = Some r"
    "\<And>cs bulk discrs. r = Inr (cs, bulk, discrs) \<Longrightarrow> \<not> a_unset (c_dst cs)" using parse_select_total[OF J N] by blast
  show ?thesis
  proof (cases r)
    case (Inl e)
    then show ?thesis using r(1) d by (simp add: bbdd_d_handle_session_del_def)
  next
    case (Inr x)
    obtain cs bulk discrs where x: "x = (cs, bulk, discrs)" by (cases x)
    obtain d' n' where l: "session_del_loop env discrs 0 d = Some (d', n')" "dmn_ok d'" using del_loop_ok[OF d] by blast
    show ?thesis using r(1) Inr x l d
      by (cases "bbdd_d_handle_session_check_bulk bulk (length discrs)") (simp_all add: bbdd_d_handle_session_del_def)
  qed
qed

lemma bfdd_add_ok:
  assumes d: "dmn_ok d" and N: "net_ok (e_net env)" and dst: "\<not> a_unset (c_dst cs)"
  shows "\<exists>d' r. bbdd_d_bfdd_handle_add_session_vrf env d cs = Some (d', r) \<and> dmn_ok d'"
proof (cases "c_discr cs")
  case None
  then show ?thesis using d by (simp add: bbdd_d_bfdd_handle_add_session_vrf_def)
next
  case (Some dd)
  let ?v = "dbind (if n_ifindex (c_netif cs) \<noteq> None \<or> n_name (c_netif cs) \<noteq> None
                       then bbdd_d_session_validate_netif (e_net env) (c_netif cs) else Some (Inr (c_netif cs)))
                (\<lambda>netif. dbind (if v_table (c_vrf cs) \<noteq> None \<or> n_ifindex (v_netif (c_vrf cs)) \<noteq> None
                                   \<or> n_name (v_netif (c_vrf cs)) \<noteq> None
                                then bbdd_d_session_validate_vrf (e_net env) (c_vrf cs) else Some (Inr (c_vrf cs)))
                (\<lambda>vrf. Some (Inr (cs\<lparr>c_netif := netif, c_vrf := vrf\<rparr>))))"
  have "\<exists>r. ?v = Some r"
    by (intro dbind_total if_total validate_netif_total[OF N] validate_vrf_total[OF N]) simp_all
  then obtain r where r: "?v = Some r" by blast
  show ?thesis
  proof (cases r)
    case (Inl e)
    then show ?thesis unfolding bbdd_d_bfdd_handle_add_session_vrf_def Some option.case r using d by simp
  next
    case (Inr cs')
    then obtain netif vrf where cs': "cs' = cs\<lparr>c_netif := netif, c_vrf := vrf\<rparr>" using r by (auto simp: dbind_Inr)
    have dst': "\<not> a_unset (c_dst cs')" "c_discr cs' = Some dd" using dst Some by (simp_all add: cs')
    show ?thesis
    proof (cases "bbdd_sess_dir_get_session (d_sdir d) dd")
      case None
      then have "bbdd_sess_dir_get_session (d_sdir d) (or_else (c_discr cs') 0) = None" using dst' by simp
      then obtain d' q where "bbdd_d_session_add env d cs' = Some (d', q)" "dmn_ok d'"
        using session_add_daemon[OF d N dst'(1)] by blast
      then show ?thesis unfolding bbdd_d_bfdd_handle_add_session_vrf_def Some option.case r Inr sum.case None
        by (cases q) simp_all
    next
      case gs: (Some ds)
      obtain d' q where "session_change env d ds cs' = Some (d', q)" "dmn_ok d'"
        using session_change_ok[OF d N dst'(1) gs] by blast
      then show ?thesis unfolding bbdd_d_bfdd_handle_add_session_vrf_def Some option.case r Inr sum.case gs
        by (cases q) simp_all
    qed
  qed
qed

lemma bfdd_delete_ok:
  assumes "dmn_ok d"
  shows "\<exists>d' r. bbdd_d_bfdd_handle_delete_session env d dd = Some (d', r) \<and> dmn_ok d'"
proof -
  obtain d' r where "bbdd_d_handle_session_del_one env d dd = Some (d', r)" "dmn_ok d'" using del_one_ok[OF assms] by blast
  then show ?thesis by (cases r) (simp_all add: bbdd_d_bfdd_handle_delete_session_def)
qed

subsection \<open>Start and stop\<close>

text \<open>The state when the daemon starts to serve: no sessions, empty kernel maps, every port
  free.  \<open>rxi\<close> and \<open>txi\<close> are the ends of the veth pair, \<open>cap\<close> is the first capacity.\<close>

definition bbdd_bpf_created :: "u32 \<Rightarrow> u32 \<Rightarrow> u32 \<Rightarrow> bbdd_bpf" where
  "bbdd_bpf_created rxi txi cap =
     \<lparr>veth_rx_ifindex = rxi, veth_tx_ifindex = txi, bsdir = [], config_hash = Map.empty, data_hash = Map.empty,
      user_diag = (\<lambda>_. 0), prog_diag = (\<lambda>_. 0), btimers = \<lparr>head = [], armed = None\<rparr>,
      txq = bbdd_tx_create, slotmem = (\<lambda>_. zero_slot), tx_capacity = cap, tx_pollout_registered = False,
      tick = 0, wire = [], mon_log = []\<rparr>"

definition bbdd_d_started :: "u32 \<Rightarrow> u32 \<Rightarrow> u32 \<Rightarrow> bbdd_d" where
  "bbdd_d_started rxi txi cap =
     \<lparr>d_world = \<lparr>wbpf = bbdd_bpf_created rxi txi cap, wsdir = []\<rparr>, d_spa = zero_spa, d_diag = (\<lambda>_. 0), d_rnd = 0\<rparr>"

definition bbdd_bpf_destroy :: "bpf_env \<Rightarrow> bbdd_bpf \<Rightarrow> bbdd_bpf option" where
  "bbdd_bpf_destroy env b = map_option bbdd_bpf_tx_pollout_disarm (destroy_sessions env b (bsdir b))"

lemma started_ok: "dmn_ok (bbdd_d_started rxi txi cap)"
proof -
  have "world_ok (d_world (bbdd_d_started rxi txi cap))"
    unfolding world_ok_def bbdd_sess_dir_get_session_def bbdd_bpf_sdir_get_session_def
    using sample_tx_inv by (simp add: bbdd_d_started_def bbdd_bpf_created_def kwf_def kget_def zero_slot_def)
  then show ?thesis using zero_spa_inv zero_spa_owned by (simp add: dmn_ok_def bbdd_d_started_def)
qed

lemma world_ok_empty: "world_ok w \<Longrightarrow> bsdir (wbpf w) = [] \<Longrightarrow> tx_order (txq (wbpf w)) = []"
proof -
  assume w: "world_ok w" and e: "bsdir (wbpf w) = []"
  have "\<not> linked (slotmem (wbpf w) k)" for k
    using w e unfolding world_ok_def bbdd_bpf_sdir_get_session_def kget_def by auto
  then have "k \<notin> set (tx_order (txq (wbpf w)))" for k using w unfolding world_ok_def tx_inv_def by blast
  then show ?thesis by (metis list.set_intros(1) neq_Nil_conv)
qed

lemma destroy_sessions_ok:
  "world_ok w \<Longrightarrow> bsdir (wbpf w) = bss \<Longrightarrow>
     \<exists>b'. destroy_sessions env (wbpf w) bss = Some b' \<and> bsdir b' = [] \<and> tx_order (txq b') = []
       \<and> (\<forall>d. config_hash b' d = (if d \<in> bs_discr ` set bss then None else config_hash (wbpf w) d))
       \<and> (\<forall>d. data_hash b' d = (if d \<in> bs_discr ` set bss then None else data_hash (wbpf w) d))"
proof (induction bss arbitrary: w)
  case Nil
  then show ?case using world_ok_empty by simp
next
  case (Cons bs bss)
  have k: "kwf bs_discr (bs # bss)" using Cons.prems by (simp add: world_ok_def)
  then have "bbdd_bpf_sdir_get_session (wbpf w) (bs_discr bs) = Some bs"
    using Cons.prems(2) in_set_kget[OF k, of bs] by (simp add: bbdd_bpf_sdir_get_session_def)
  then obtain b1 where b1: "session_del env (wbpf w) bs = Some b1"
    "world_ok (w\<lparr>wbpf := b1, wsdir := bbdd_sess_dir_del_session (wsdir w) (bs_discr bs)\<rparr>)"
    "bsdir b1 = kdel bs_discr (bs_discr bs) (bs # bss)" "config_hash b1 = (config_hash (wbpf w))(bs_discr bs := None)"
    "data_hash b1 = (data_hash (wbpf w))(bs_discr bs := None)"
    using session_del_ok[OF Cons.prems(1)] Cons.prems(2) by metis
  have "bsdir b1 = bss" using b1(3) k by (auto simp: kdel_def kwf_def image_iff intro!: filter_True)
  with Cons.IH[OF b1(2)] obtain b' where "destroy_sessions env b1 bss = Some b'" "bsdir b' = []" "tx_order (txq b') = []"
    "\<forall>d. config_hash b' d = (if d \<in> bs_discr ` set bss then None else config_hash b1 d)"
    "\<forall>d. data_hash b' d = (if d \<in> bs_discr ` set bss then None else data_hash b1 d)" by auto
  then show ?case using b1(1,4,5) by simp
qed

text \<open>The sessions that a packet matches, seen as a set of the directory.\<close>

definition matches :: "bbdd_bpf_match_digest \<Rightarrow> bbdd_sess_dir \<Rightarrow> bbdd_d_session list" where
  "matches dg sdir = filter (\<lambda>ds. match_one dg ds = Inr True) sdir"

lemma match_addr_total: "sa_ok sa \<Longrightarrow> \<exists>b. match_addr sa a = Inr b"
  by (auto simp: sa_ok_def match_addr_def bbdd_sockaddr_eq_def bbdd_sockaddr_addrbuf_def)

lemma match_one_total: "dsess_ok ds \<Longrightarrow> \<exists>b. match_one dg ds = Inr b"
proof -
  assume "dsess_ok ds"
  then obtain b c where "match_addr (src ds) (dg_dst dg) = Inr b" "match_addr (dst ds) (dg_src dg) = Inr c"
    using match_addr_total[of "src ds"] match_addr_total[of "dst ds"] by (meson dsess_ok_def)
  then show ?thesis by (cases b) (simp_all add: match_one_def ex_bool_eq)
qed

lemma match_loop_total:
  "\<forall>ds \<in> set dss. dsess_ok ds \<Longrightarrow> \<exists>r. match_loop dg dss n ret = Inr r"
proof (induction dss arbitrary: n ret)
  case (Cons ds dss)
  then obtain b where "match_one dg ds = Inr b" using match_one_total[of ds dg] by auto
  then show ?case using Cons by (cases b) simp_all
qed simp

lemma match_session_exact:
  assumes "dmn_ok d"
  shows "bbdd_d_match_session (d_sdir d) dg = Inr (length (matches dg (d_sdir d)),
    if matches dg (d_sdir d) = [] then None else Some (last (matches dg (d_sdir d))))"
proof -
  obtain n' ret' where r: "match_loop dg (d_sdir d) 0 None = Inr (n', ret')"
    using match_loop_total[of "d_sdir d" dg 0 None] assms by (auto simp: dmn_ok_def)
  from match_loop_exact[OF r] r show ?thesis
    by (simp add: bbdd_d_match_session_def matches_def split: list.splits)
qed

subsection \<open>A concrete daemon\<close>

definition sample_d_env :: d_env where
  "sample_d_env = \<lparr>e_bpf = sample_env, e_net = sample_net, e_inet = sample_inet, e_calloc = (\<lambda>_. True),
     e_realloc = (\<lambda>_. True), e_getrandom = (\<lambda>n. Some (of_nat (n + 1)))\<rparr>"

text \<open>One session, with discriminator 9 and the first port.\<close>

definition sample_daemon :: bbdd_d where
  "sample_daemon = (case bbdd_d_sport_get zero_spa of
       None \<Rightarrow> bbdd_d_started 1 2 4
     | Some (p, spa) \<Rightarrow>
         \<lparr>d_world = sample_world (sample_up\<lparr>src := (src sample_up)\<lparr>sa_port := hton16 p\<rparr>\<rparr>) sample_bs,
          d_spa = spa, d_diag = (\<lambda>_. 0), d_rnd = 0\<rparr>)"

lemma sample_daemon_ok: "dmn_ok sample_daemon" and sample_daemon_sdir: "map skey (d_sdir sample_daemon) = [9]"
proof -
  have e: "sport_taken zero_spa = {}" using zero_spa_owned by (simp add: owned_def)
  have "bbdd_d_sport_get zero_spa \<noteq> None"
  proof
    assume "bbdd_d_sport_get zero_spa = None"
    then have "(50000 :: u16) \<notin> {p. bbdd_d_sport_lo \<le> unat p}" using sport_get_ok[OF zero_spa_inv] e by simp
    then show False by (simp add: sport_consts)
  qed
  then obtain p spa where g: "bbdd_d_sport_get zero_spa = Some (p, spa)" by auto
  let ?ds = "sample_up\<lparr>src := (src sample_up)\<lparr>sa_port := hton16 p\<rparr>\<rparr>"
  have "sess_ok ?ds sample_bs" using sample_sess_ok(2) by (simp add: sess_ok_def)
  then have "world_ok (sample_world ?ds sample_bs)" by (rule sample_world_ok)
  moreover have "sport_inv spa" "ports_ok spa [p]" using spa.claim[OF zero_spa_inv zero_spa_owned g] by simp_all
  moreover have "dsess_ok ?ds" using sample_dsess_ok by (simp add: dsess_ok_def sample_up_def)
  ultimately show "dmn_ok sample_daemon" "map skey (d_sdir sample_daemon) = [9]"
    by (simp_all add: sample_daemon_def g dmn_ok_def sess_port_def sample_world_def skey_def sample_up_def sample_session_def)
qed

subsection \<open>Properties\<close>

text \<open>C9. Adding a session is all or nothing across the daemon: it never aborts, and either the
  session is there, valid, with its kernel side on hold and a source port of its own, or
  the directory, the kernel table and the set of taken ports are as before.\<close>

theorem daemon_add_all_or_nothing:
  assumes "dmn_ok d" and "net_ok (e_net env)" and "\<not> a_unset (c_dst cs)"
    and "bbdd_sess_dir_get_session (d_sdir d) (or_else (c_discr cs) 0) = None"
  shows "\<exists>d' r. bbdd_d_session_add env d cs = Some (d', r) \<and> dmn_ok d'
    \<and> (case r of
         Inl _ \<Rightarrow> d_sdir d' = d_sdir d \<and> bsdir (d_bpf d') = bsdir (d_bpf d) \<and> sport_taken (d_spa d') = sport_taken (d_spa d)
       | Inr _ \<Rightarrow> \<exists>ds. d_sdir d' = d_sdir d @ [ds] \<and> skey ds = or_else (c_discr cs) 0 \<and> dsess_ok ds
           \<and> added (d_bpf d) (skey ds) (d_bpf d'))"
  using session_add_daemon[OF assms] unfolding not_added_def .

theorem daemon_add_all_or_nothing_witness:
  "\<exists>d' r. bbdd_d_session_add sample_d_env sample_daemon (zero_c_session\<lparr>c_discr := Some 8\<rparr>) = Some (d', r) \<and> dmn_ok d'"
proof -
  have "net_ok (e_net sample_d_env)" "\<not> a_unset (c_dst (zero_c_session\<lparr>c_discr := Some 8\<rparr>))"
    using sample_net_ok by (simp_all add: sample_d_env_def zero_c_session_def zero_c_addr_def)
  moreover have "bbdd_sess_dir_get_session (d_sdir sample_daemon) (or_else (c_discr (zero_c_session\<lparr>c_discr := Some 8\<rparr>)) 0) = None"
    using sample_daemon_sdir by (auto simp: bbdd_sess_dir_get_session_def kget_None)
  ultimately show ?thesis using daemon_add_all_or_nothing[OF sample_daemon_ok] by blast
qed

text \<open>Deleting sessions deletes exactly the selected ones, their kernel side included, and
  reports no error for sessions that are there.\<close>

theorem daemon_delete_exact:
  assumes "dmn_ok d"
  shows "\<exists>d' n. session_del_loop env discrs 0 d = Some (d', n) \<and> dmn_ok d'
    \<and> d_sdir d' = filter (\<lambda>ds. skey ds \<notin> set discrs) (d_sdir d)
    \<and> (distinct discrs \<and> set discrs \<subseteq> skey ` set (d_sdir d) \<longrightarrow> n = 0)"
  by (rule del_loop_ok[OF assms])

theorem daemon_delete_exact_witness:
  "\<exists>d'. session_del_loop sample_d_env [9] 0 sample_daemon = Some (d', 0) \<and> d_sdir d' = []"
proof -
  obtain ds where "d_sdir sample_daemon = [ds]" "skey ds = 9" using sample_daemon_sdir by (auto simp: map_eq_Cons_conv)
  then show ?thesis using daemon_delete_exact[OF sample_daemon_ok, of sample_d_env "[9]"] by auto
qed



text \<open>Stopping the daemon deletes every session from the kernel without an abort: no session,
  no queued transmission and no kernel record of a session is left.\<close>

theorem daemon_destroy_complete:
  assumes "dmn_ok d"
  shows "\<exists>b'. bbdd_bpf_destroy env (d_bpf d) = Some b' \<and> bsdir b' = [] \<and> tx_order (txq b') = []
    \<and> (\<forall>bs \<in> set (bsdir (d_bpf d)). config_hash b' (bs_discr bs) = None \<and> data_hash b' (bs_discr bs) = None)"
proof -
  obtain b' where "destroy_sessions env (d_bpf d) (bsdir (d_bpf d)) = Some b'" "bsdir b' = []" "tx_order (txq b') = []"
    "\<forall>x. config_hash b' x = (if x \<in> bs_discr ` set (bsdir (d_bpf d)) then None else config_hash (d_bpf d) x)"
    "\<forall>x. data_hash b' x = (if x \<in> bs_discr ` set (bsdir (d_bpf d)) then None else data_hash (d_bpf d) x)"
    using destroy_sessions_ok[of "d_world d" "bsdir (d_bpf d)" env] assms by (auto simp: dmn_ok_def)
  then show ?thesis by (simp add: bbdd_bpf_destroy_def bbdd_bpf_tx_pollout_disarm_def)
qed

theorem daemon_destroy_complete_witness:
  "\<exists>b'. bbdd_bpf_destroy sample_env (d_bpf sample_daemon) = Some b' \<and> bsdir b' = []"
  using daemon_destroy_complete[OF sample_daemon_ok] by blast

end
