(* ===== verification/Bfdd.thy ===== *)
theory Bfdd
  imports Csess "HOL-Library.Monad_Syntax" "HOL-Library.Multiset"
begin

text \<open>
  The messages between the data plane and the BFD daemon of FRR (\<open>bbdd-bfdd.c\<close>,
  \<open>bfddp_packet.h\<close>).  A message is the list of its bytes.  Reading a field is partial:
  \<open>None\<close> is a read past the end of the message.  The theory shows that a message whose
  length was validated is never read past its end, and that a session which one side
  sends is the session that the other side reads.
\<close>

subsection \<open>Fields\<close>

definition rd8 :: "u8 list \<Rightarrow> nat \<Rightarrow> u8 option" where
  "rd8 m k = (if k < length m then Some (m ! k) else None)"

definition rd16 :: "u8 list \<Rightarrow> nat \<Rightarrow> be16 option" where
  "rd16 m k = (if k + 2 \<le> length m then Some (load16 (drop k m)) else None)"

definition rd32 :: "u8 list \<Rightarrow> nat \<Rightarrow> be32 option" where
  "rd32 m k = (if k + 4 \<le> length m then Some (load32 (drop k m)) else None)"

definition rdmem :: "u8 list \<Rightarrow> nat \<Rightarrow> nat \<Rightarrow> u8 list option" where
  "rdmem m k n = (if k + n \<le> length m then Some (take n (drop k m)) else None)"

definition rd_in6 :: "u8 list \<Rightarrow> nat \<Rightarrow> in6_addr option" where
  "rd_in6 m k = do {
     a \<leftarrow> rd32 m k; b \<leftarrow> rd32 m (k + 4); c \<leftarrow> rd32 m (k + 8); d \<leftarrow> rd32 m (k + 12);
     Some (a, b, c, d)
   }"

text \<open>The eight bytes of a \<open>bbdd_be64_t\<close>, the high one first, and the value they stand for.\<close>

definition bytes_be64 :: "u64 \<Rightarrow> u8 list" where
  "bytes_be64 x = map (\<lambda>i. ucast (drop_bit (56 - 8 * i) x)) [0..<8]"

fun load_be64 :: "u8 list \<Rightarrow> u64" where
  "load_be64 [a, b, c, d, e, f, g, h] =
     push_bit 56 (ucast a) OR push_bit 48 (ucast b) OR push_bit 40 (ucast c) OR push_bit 32 (ucast d)
     OR push_bit 24 (ucast e) OR push_bit 16 (ucast f) OR push_bit 8 (ucast g) OR ucast h"
| "load_be64 _ = 0"

definition rd64 :: "u8 list \<Rightarrow> nat \<Rightarrow> u64 option" where
  "rd64 m k = map_option load_be64 (rdmem m k 8)"

abbreviation (input) ECHO_REQUEST :: u16 where "ECHO_REQUEST \<equiv> 0"
abbreviation (input) ECHO_REPLY :: u16 where "ECHO_REPLY \<equiv> 1"
abbreviation (input) DP_ADD_SESSION :: u16 where "DP_ADD_SESSION \<equiv> 2"
abbreviation (input) DP_DELETE_SESSION :: u16 where "DP_DELETE_SESSION \<equiv> 3"
abbreviation (input) BFD_STATE_CHANGE :: u16 where "BFD_STATE_CHANGE \<equiv> 4"
abbreviation (input) DP_REQUEST_SESSION_COUNTERS :: u16 where "DP_REQUEST_SESSION_COUNTERS \<equiv> 5"
abbreviation (input) BFD_SESSION_COUNTERS :: u16 where "BFD_SESSION_COUNTERS \<equiv> 6"

text \<open>The sizes of the header and of the payloads.\<close>

definition sz_header :: nat where "sz_header = 8"
definition sz_echo :: nat where "sz_echo = 16"
definition sz_session :: nat where "sz_session = 132"
definition sz_cumulus :: nat where "sz_cumulus = 172"
definition sz_state :: nat where "sz_state = 28"
definition sz_counters_req :: nat where "sz_counters_req = 4"
definition sz_counters :: nat where "sz_counters = 72"

lemmas sz_defs = sz_header_def sz_echo_def sz_session_def sz_cumulus_def sz_state_def sz_counters_req_def sz_counters_def

definition msg_type :: "u8 list \<Rightarrow> u16 option" where
  "msg_type msg = map_option ntoh16 (rd16 msg 2)"

definition msg_id :: "u8 list \<Rightarrow> u16 option" where
  "msg_id msg = map_option ntoh16 (rd16 msg 4)"

definition msg_length :: "u8 list \<Rightarrow> u16 option" where
  "msg_length msg = map_option ntoh16 (rd16 msg 6)"

datatype bfdd_err =
    BE_length u16 nat
  | BE_type u16
  | BE_echo
  | BE_demand
  | BE_hold_time u32
  | BE_msgsize u16
  | BE_request d_err
  | BE_sockaddr
  | BE_ifname u32

subsection \<open>Validation\<close>

definition bbdd_bfdd_msg_len_ck :: "u8 list \<Rightarrow> nat \<Rightarrow> (bfdd_err, unit) res option" where
  "bbdd_bfdd_msg_len_ck msg min_payload_len = do {
     msg_len \<leftarrow> msg_length msg;
     Some (if unat msg_len < min_payload_len + sz_header
           then Inl (BE_length msg_len (min_payload_len + sz_header)) else Inr ())
   }"

definition bbdd_bfdd_msg_len_validate :: "u8 list \<Rightarrow> (bfdd_err, unit) res option" where
  "bbdd_bfdd_msg_len_validate msg = do {
     bmt \<leftarrow> msg_type msg;
     if bmt \<in> {ECHO_REQUEST, ECHO_REPLY} then bbdd_bfdd_msg_len_ck msg sz_echo
     else if bmt \<in> {DP_ADD_SESSION, DP_DELETE_SESSION} then bbdd_bfdd_msg_len_ck msg sz_session
     else if bmt = BFD_STATE_CHANGE then bbdd_bfdd_msg_len_ck msg sz_state
     else if bmt = DP_REQUEST_SESSION_COUNTERS then bbdd_bfdd_msg_len_ck msg sz_counters_req
     else if bmt = BFD_SESSION_COUNTERS then bbdd_bfdd_msg_len_ck msg sz_counters
     else Some (Inl (BE_type bmt))
   }"

subsection \<open>Reading a session\<close>

definition SESSION_MULTIHOP :: u32 where "SESSION_MULTIHOP = 1"
definition SESSION_DEMAND :: u32 where "SESSION_DEMAND = 2"
definition SESSION_CBIT :: u32 where "SESSION_CBIT = 4"
definition SESSION_ECHO :: u32 where "SESSION_ECHO = 8"
definition SESSION_IPV6 :: u32 where "SESSION_IPV6 = 16"
definition SESSION_PASSIVE :: u32 where "SESSION_PASSIVE = 32"
definition SESSION_SHUTDOWN :: u32 where "SESSION_SHUTDOWN = 64"

lemmas session_flag_defs = SESSION_MULTIHOP_def SESSION_DEMAND_def SESSION_CBIT_def SESSION_ECHO_def
  SESSION_IPV6_def SESSION_PASSIVE_def SESSION_SHUTDOWN_def

record bfddp_session_cumulus =
  bf_flags :: be32
  bf_src :: in6_addr
  bf_dst :: in6_addr
  bf_lid :: be32
  bf_min_tx :: be32
  bf_min_rx :: be32
  bf_hold_time :: be32
  bf_ttl :: u8
  bf_detect_mult :: u8
  bf_ifindex :: be32
  bf_ifname :: "u8 list"
  bf_vrf_id :: be32
  bf_vrfname :: "u8 list"

text \<open>\<open>msg->data.session_cumulus\<close>, or \<open>msg->data.session\<close> with the rest zero.\<close>

definition read_session :: "bool \<Rightarrow> u8 list \<Rightarrow> bfddp_session_cumulus option" where
  "read_session cumulus msg = do {
     flags \<leftarrow> rd32 msg 8; s \<leftarrow> rd_in6 msg 12; d \<leftarrow> rd_in6 msg 28;
     lid \<leftarrow> rd32 msg 44; mtx \<leftarrow> rd32 msg 48; mrx \<leftarrow> rd32 msg 52; hold \<leftarrow> rd32 msg 64;
     tl \<leftarrow> rd8 msg 68; dm \<leftarrow> rd8 msg 69; ix \<leftarrow> rd32 msg 72; nm \<leftarrow> rdmem msg 76 64;
     vid \<leftarrow> (if cumulus then rd32 msg 140 else Some 0);
     vnm \<leftarrow> (if cumulus then rdmem msg 144 36 else Some (replicate 36 0));
     Some \<lparr>bf_flags = flags, bf_src = s, bf_dst = d, bf_lid = lid, bf_min_tx = mtx, bf_min_rx = mrx,
           bf_hold_time = hold, bf_ttl = tl, bf_detect_mult = dm, bf_ifindex = ix, bf_ifname = nm,
           bf_vrf_id = vid, bf_vrfname = vnm\<rparr>
   }"

text \<open>A name in a fixed array: up to the first zero byte and cut to the size of the target.\<close>

definition copy_name :: "u8 list \<Rightarrow> string" where
  "copy_name bs = map (\<lambda>b. char_of (unat b)) (takeWhile (\<lambda>b. b \<noteq> 0) (take (IFNAMSIZ - 1) bs))"

definition name_field :: "u8 list \<Rightarrow> string option" where
  "name_field bs = (if hd bs \<noteq> 0 then Some (copy_name bs) else None)"

definition bbdd_bfdd_session_to_c_addr :: "inet \<Rightarrow> bool \<Rightarrow> in6_addr \<Rightarrow> bbdd_c_session_addr" where
  "bbdd_bfdd_session_to_c_addr I ipv6 from =
     (if ipv6 then \<lparr>a_unset = False, a_str = ntop6 I from, a_af = AF_INET6\<rparr>
      else \<lparr>a_unset = False, a_str = ntop4 I (fst from), a_af = AF_INET\<rparr>)"

definition addr_zero :: "bool \<Rightarrow> in6_addr \<Rightarrow> bool" where
  "addr_zero ipv6 a = (if ipv6 then a = (0, 0, 0, 0) else fst a = 0)"

definition bbdd_bfdd_session_to_c :: "inet \<Rightarrow> bfddp_session_cumulus \<Rightarrow> (bfdd_err, bbdd_c_session) res" where
  "bbdd_bfdd_session_to_c I cm =
     (let flags = ntoh32 (bf_flags cm); ipv6 = (flags AND SESSION_IPV6 \<noteq> 0);
          flag = (\<lambda>f. Some (flags AND f \<noteq> 0)); hold_time_ms = ntoh32 (bf_hold_time cm) in
      if flags AND SESSION_ECHO \<noteq> 0 then Inl BE_echo
      else if flags AND SESSION_DEMAND \<noteq> 0 then Inl BE_demand
      else if hold_time_ms > 0xffffffff div 1000 then Inl (BE_hold_time hold_time_ms)
      else Inr
        \<lparr>c_flags = \<lparr>f_multihop = flag SESSION_MULTIHOP, f_cpi = flag SESSION_CBIT,
           f_passive = flag SESSION_PASSIVE, f_shutdown = flag SESSION_SHUTDOWN\<rparr>,
         c_discr = some_non0 (ntoh32 (bf_lid cm)),
         c_remote_discr = None,
         c_min_tx_us = Some (ntoh32 (bf_min_tx cm)),
         c_min_rx_us = Some (ntoh32 (bf_min_rx cm)),
         c_hold_time_us = Some (hold_time_ms * 1000),
         c_ttl = Some (bf_ttl cm),
         c_detect_mult = Some (bf_detect_mult cm),
         c_src = (if addr_zero ipv6 (bf_src cm) then zero_c_addr\<lparr>a_unset := True\<rparr>
                  else bbdd_bfdd_session_to_c_addr I ipv6 (bf_src cm)),
         c_dst = bbdd_bfdd_session_to_c_addr I ipv6 (bf_dst cm),
         c_netif = (if ntoh32 (bf_ifindex cm) = 0 then zero_c_netif\<lparr>n_unset := True\<rparr>
                    else \<lparr>n_unset = False,
                          n_name = name_field (bf_ifname cm),
                          n_ifindex = Some (ntoh32 (bf_ifindex cm))\<rparr>),
         c_vrf = (if ntoh32 (bf_vrf_id cm) = 0
                  then \<lparr>v_netif = zero_c_netif\<lparr>n_unset := True\<rparr>, v_table = None\<rparr>
                  else \<lparr>v_netif = zero_c_netif\<lparr>n_name := name_field (bf_vrfname cm)\<rparr>,
                        v_table = Some (ntoh32 (bf_vrf_id cm))\<rparr>),
         c_name = \<lparr>s_unset = False, s_val = None\<rparr>\<rparr>)"

definition bbdd_bfdd_session_msg_to_c :: "inet \<Rightarrow> u8 list \<Rightarrow> (bfdd_err, bbdd_c_session) res option" where
  "bbdd_bfdd_session_msg_to_c I msg = do {
     length \<leftarrow> msg_length msg;
     bmt \<leftarrow> msg_type msg;
     if bmt \<noteq> DP_ADD_SESSION then None
     else if unat length = sz_header + sz_session then do {
       cm \<leftarrow> read_session False msg;
       Some (bbdd_bfdd_session_to_c I cm)
     }
     else if unat length = sz_header + sz_cumulus then do {
       cm \<leftarrow> read_session True msg;
       Some (bbdd_bfdd_session_to_c I cm)
     }
     else Some (Inl (BE_msgsize length))
   }"

subsection \<open>Writing messages\<close>

definition header_bytes :: "u16 \<Rightarrow> u16 \<Rightarrow> nat \<Rightarrow> u8 list" where
  "header_bytes typ ident len =
     [1, 0] @ bytes16 (hton16 typ) @ bytes16 (hton16 ident) @ bytes16 (hton16 (of_nat len))"

definition name_bytes :: "nat \<Rightarrow> string \<Rightarrow> u8 list" where
  "name_bytes n nm = map (\<lambda>c. of_nat (of_char c)) nm @ replicate (n - length nm) 0"

text \<open>The whole \<open>session_cumulus\<close>; a message without VRF is cut after the session.\<close>

definition session_bytes :: "bfddp_session_cumulus \<Rightarrow> u8 list" where
  "session_bytes cm =
     bytes32 (bf_flags cm) @ bytes_in6 (bf_src cm) @ bytes_in6 (bf_dst cm) @ bytes32 (bf_lid cm)
     @ bytes32 (bf_min_tx cm) @ bytes32 (bf_min_rx cm) @ bytes32 0 @ bytes32 0 @ bytes32 (bf_hold_time cm)
     @ [bf_ttl cm, bf_detect_mult cm, 0, 0] @ bytes32 (bf_ifindex cm) @ bf_ifname cm
     @ bytes32 (bf_vrf_id cm) @ bf_vrfname cm"

definition bbdd_bfdd_session_d_from_c :: "inet \<Rightarrow> netenv \<Rightarrow> bbdd_c_session \<Rightarrow> bbdd_d_session dres" where
  "bbdd_bfdd_session_d_from_c I N cs =
     dbind (bbdd_d_session_apply_c I N (zero_session\<lparr>sttl := 255\<rparr>) cs) (\<lambda>(ds, _). Some (Inr ds))"

definition session_flags :: "bbdd_d_session \<Rightarrow> u32" where
  "session_flags ds =
     (let fl = sflags (sess_local ds) in
      (if sa_family (dst ds) = AF_INET6 then SESSION_IPV6 else 0)
      OR (if multihop fl then SESSION_MULTIHOP else 0) OR (if cpi fl then SESSION_CBIT else 0)
      OR (if passive_role fl then SESSION_PASSIVE else 0) OR (if shutdown fl then SESSION_SHUTDOWN else 0))"

text \<open>The address as it lies in an \<open>in6_addr\<close> that held \<open>old\<close> before.\<close>

definition fill_addr :: "addr_bytes \<Rightarrow> in6_addr \<Rightarrow> in6_addr" where
  "fill_addr a old = (case a of Addr4 x \<Rightarrow> (x, snd old) | Addr6 x \<Rightarrow> x)"

definition bbdd_bfdd_msg_fill_netif :: "netenv \<Rightarrow> u32 \<Rightarrow> (bfdd_err, string) res" where
  "bbdd_bfdd_msg_fill_netif N i =
     (if i = 0 then Inr '''' else case if_indextoname N i of Some nm \<Rightarrow> Inr nm | None \<Rightarrow> Inl (BE_ifname i))"

text \<open>The structure that is sent for a session.\<close>

definition wire_struct :: "bbdd_d_session \<Rightarrow> in6_addr \<Rightarrow> in6_addr \<Rightarrow> string \<Rightarrow> string \<Rightarrow> bfddp_session_cumulus" where
  "wire_struct ds s d vrfname ifname =
     \<lparr>bf_flags = hton32 (session_flags ds), bf_src = s, bf_dst = d,
      bf_lid = hton32 (discr (sess_local ds)),
      bf_min_tx = hton32 (min_tx_us (timing (sess_local ds))),
      bf_min_rx = hton32 (min_rx_us (timing (sess_local ds))),
      bf_hold_time = hton32 (hold_time_us ds div 1000),
      bf_ttl = sttl ds, bf_detect_mult = detect_mult (timing (sess_local ds)),
      bf_ifindex = hton32 (sifindex ds), bf_ifname = name_bytes 64 ifname,
      bf_vrf_id = hton32 (vrf_table ds), bf_vrfname = name_bytes 36 vrfname\<rparr>"

text \<open>\<open>stack\<close> is what the uninitialised \<open>dst\<close> holds.\<close>

definition bbdd_bfdd_d_add_session ::
  "inet \<Rightarrow> netenv \<Rightarrow> in6_addr \<Rightarrow> bbdd_c_session \<Rightarrow> u16 \<Rightarrow> (bfdd_err, u8 list) res option"
where
  "bbdd_bfdd_d_add_session I N stack cs ident =
     (case bbdd_bfdd_session_d_from_c I N cs of
        None \<Rightarrow> None
      | Some (Inl e) \<Rightarrow> Some (Inl (BE_request e))
      | Some (Inr ds) \<Rightarrow>
          let len = (if vrf_table ds \<noteq> 0 then sz_header + sz_cumulus else sz_header + sz_session) in
          (case (if sa_family (src ds) \<noteq> 0 then map_sum id (\<lambda>a. fill_addr a (0, 0, 0, 0)) (bbdd_sockaddr_addrbuf (src ds))
                 else Inr (0, 0, 0, 0)) of
             Inl _ \<Rightarrow> Some (Inl BE_sockaddr)
           | Inr s \<Rightarrow>
               if sa_family (dst ds) = 0 then None
               else (case bbdd_sockaddr_addrbuf (dst ds) of
                  Inl _ \<Rightarrow> Some (Inl BE_sockaddr)
                | Inr d \<Rightarrow>
                    (case bbdd_bfdd_msg_fill_netif N (vrf_ifindex ds) of
                       Inl e \<Rightarrow> Some (Inl e)
                     | Inr vrfname \<Rightarrow>
                         (case bbdd_bfdd_msg_fill_netif N (sifindex ds) of
                            Inl e \<Rightarrow> Some (Inl e)
                          | Inr ifname \<Rightarrow>
                              Some (Inr (take len (header_bytes DP_ADD_SESSION ident len
                                @ session_bytes (wire_struct ds s (fill_addr d stack) vrfname ifname)))))))))"

definition bbdd_bfdd_d_del_session :: "u16 \<Rightarrow> u32 \<Rightarrow> u8 list" where
  "bbdd_bfdd_d_del_session ident dd =
     header_bytes DP_DELETE_SESSION ident (sz_header + sz_session)
     @ replicate 36 0 @ bytes32 (hton32 dd) @ replicate 92 0"

definition bbdd_bfdd_d_request_counters :: "u16 \<Rightarrow> u32 \<Rightarrow> u8 list" where
  "bbdd_bfdd_d_request_counters ident dd =
     header_bytes DP_REQUEST_SESSION_COUNTERS ident (sz_header + sz_counters_req) @ bytes32 (hton32 dd)"

text \<open>\<open>pad\<close> is the padding that the layout of the structure leaves.\<close>

definition bbdd_bfdd_c_reply_counters :: "u32 \<Rightarrow> u16 \<Rightarrow> u32 \<Rightarrow> session_stats \<Rightarrow> u8 list" where
  "bbdd_bfdd_c_reply_counters pad ident dd st =
     header_bytes BFD_SESSION_COUNTERS ident (sz_header + sz_counters)
     @ bytes32 (hton32 dd) @ bytes32 pad
     @ bytes_be64 (st Rx_bytes) @ bytes_be64 (st Rx_packets) @ bytes_be64 (st Tx_bytes) @ bytes_be64 (st Tx_packets)
     @ replicate 32 0"

definition bbdd_bfdd_c_send_state_change :: "u8 \<Rightarrow> bbdd_d_session \<Rightarrow> u8 list" where
  "bbdd_bfdd_c_send_state_change pad ds =
     (let r = sess_remote ds in
      header_bytes BFD_STATE_CHANGE 0 (sz_header + sz_state)
      @ bytes32 (hton32 (discr (sess_local ds))) @ bytes32 (hton32 (discr r))
      @ bytes32 (hton32 (if cpi (sflags r) then 1 else 0))
      @ bytes32 (hton32 (min_tx_us (timing r))) @ bytes32 (hton32 (min_rx_us (timing r))) @ bytes32 0
      @ [state_code (state (sstate r)), diag (sstate r), detect_mult (timing r), pad])"

text \<open>The peer's timestamp is copied as it came.\<close>

definition bbdd_bfdd_send_echo :: "u16 \<Rightarrow> u64 \<Rightarrow> bool \<Rightarrow> u8 list" where
  "bbdd_bfdd_send_echo ident time_us is_dp =
     header_bytes ECHO_REQUEST ident (sz_header + sz_echo)
     @ bytes_be64 (if is_dp then time_us else 0) @ bytes_be64 (if is_dp then 0 else time_us)"

definition bbdd_bfdd_reply_echo :: "u16 \<Rightarrow> u64 \<Rightarrow> u8 list \<Rightarrow> bool \<Rightarrow> u8 list option" where
  "bbdd_bfdd_reply_echo ident now msg is_dp = do {
     dp_time \<leftarrow> rdmem msg 8 8;
     bfdd_time \<leftarrow> rdmem msg 16 8;
     Some (header_bytes ECHO_REPLY ident (sz_header + sz_echo)
       @ (if is_dp then bytes_be64 now else dp_time) @ (if is_dp then bfdd_time else bytes_be64 now))
   }"

text \<open>The requests of the control socket that wait for the reply to an echo.  A request is
  known by its connection and its id.\<close>

record 'j echo_peer =
  ep_peer :: nat
  ep_id :: 'j
  ep_is_dp :: bool

datatype 'j echo_answer = Echo_result nat 'j (ea_ts: u64) (ea_reply_ts: u64) | Echo_interr nat 'j

text \<open>\<open>alloc_ok\<close> and \<open>nq_ok\<close> tell whether the request could be recorded and the message queued.\<close>

definition bbdd_bfdd_echo_handle_start ::
  "'j echo_peer list \<Rightarrow> bool \<Rightarrow> bool \<Rightarrow> u64 \<Rightarrow> nat \<Rightarrow> 'j \<Rightarrow> bool \<Rightarrow> 'j echo_peer list \<times> 'j echo_answer list \<times> u8 list list"
where
  "bbdd_bfdd_echo_handle_start eps alloc_ok nq_ok ts peer ident is_dp =
     (if \<not> alloc_ok \<or> \<not> nq_ok then (eps, [Echo_interr peer ident], [])
      else (eps @ [\<lparr>ep_peer = peer, ep_id = ident, ep_is_dp = is_dp\<rparr>], [], [bbdd_bfdd_send_echo 1 ts is_dp]))"

definition bbdd_bfdd_echo_handle_reply ::
  "'j echo_peer list \<Rightarrow> u8 list \<Rightarrow> ('j echo_peer list \<times> 'j echo_answer list) option"
where
  "bbdd_bfdd_echo_handle_reply eps msg = do {
     bfdd_time \<leftarrow> rd64 msg 16;
     dp_time \<leftarrow> rd64 msg 8;
     Some ([], map (\<lambda>ep. if ep_is_dp ep then Echo_result (ep_peer ep) (ep_id ep) dp_time bfdd_time
                         else Echo_result (ep_peer ep) (ep_id ep) bfdd_time dp_time) eps)
   }"

definition bbdd_bfdd_echo_peer_done :: "'j echo_peer list \<Rightarrow> nat \<Rightarrow> 'j echo_peer list" where
  "bbdd_bfdd_echo_peer_done eps p = filter (\<lambda>ep. ep_peer ep \<noteq> p) eps"

definition bbdd_bfdd_close_b :: "'j echo_peer list \<Rightarrow> 'j echo_peer list \<times> 'j echo_answer list" where
  "bbdd_bfdd_close_b eps = ([], map (\<lambda>ep. Echo_interr (ep_peer ep) (ep_id ep)) eps)"

datatype 'j echo_op = Op_start bool bool u64 nat 'j bool | Op_reply "u8 list" | Op_done nat | Op_close

fun echo_step :: "'j echo_op \<Rightarrow> 'j echo_peer list \<Rightarrow> ('j echo_peer list \<times> 'j echo_answer list \<times> u8 list list) option" where
  "echo_step (Op_start a q ts p i dp) eps = Some (bbdd_bfdd_echo_handle_start eps a q ts p i dp)"
| "echo_step (Op_reply msg) eps = map_option (\<lambda>(eps, as). (eps, as, [])) (bbdd_bfdd_echo_handle_reply eps msg)"
| "echo_step (Op_done p) eps = Some (bbdd_bfdd_echo_peer_done eps p, [], [])"
| "echo_step Op_close eps = (case bbdd_bfdd_close_b eps of (eps, as) \<Rightarrow> Some (eps, as, []))"

subsection \<open>Reading what was written\<close>

lemma rd_append:
  "length xs \<le> k \<Longrightarrow> rd8 (xs @ ys) k = rd8 ys (k - length xs)"
  "length xs \<le> k \<Longrightarrow> rd16 (xs @ ys) k = rd16 ys (k - length xs)"
  "length xs \<le> k \<Longrightarrow> rd32 (xs @ ys) k = rd32 ys (k - length xs)"
  "length xs \<le> k \<Longrightarrow> rdmem (xs @ ys) k n = rdmem ys (k - length xs) n"
  by (auto simp: rd8_def rd16_def rd32_def rdmem_def nth_append)

lemma rd_cons:
  "0 < k \<Longrightarrow> rd8 (x # ys) k = rd8 ys (k - 1)" "0 < k \<Longrightarrow> rd16 (x # ys) k = rd16 ys (k - 1)"
  "0 < k \<Longrightarrow> rd32 (x # ys) k = rd32 ys (k - 1)" "0 < k \<Longrightarrow> rdmem (x # ys) k n = rdmem ys (k - 1) n"
  using rd_append[of "[x]" k ys] by (simp_all add: Suc_le_eq)

lemma rd_here:
  "rd16 (bytes16 v @ ys) 0 = Some v" "rd16 (bytes16 v) 0 = Some v" "rd32 (bytes32 w @ ys) 0 = Some w"
  "rd32 (bytes32 w) 0 = Some w" "rd8 (b # bs) 0 = Some b"
  "length xs = n \<Longrightarrow> rdmem (xs @ ys) 0 n = Some xs" "length xs = n \<Longrightarrow> rdmem xs 0 n = Some xs"
  using load16_bytes16[of v "[]"] by (auto simp: rd8_def rd16_def rd32_def rdmem_def)

lemmas rd_simps = rd_append rd_cons rd_here

lemma length_header [simp]: "length (header_bytes t i n) = 8"
  by (simp add: header_bytes_def)

lemma header_fields:
  "msg_type (header_bytes t i n @ ys) = Some t" "msg_id (header_bytes t i n @ ys) = Some i"
  "msg_length (header_bytes t i n @ ys) = Some (of_nat n)"
  by (simp_all add: msg_type_def msg_id_def msg_length_def header_bytes_def rd_simps)

definition session_part :: "bfddp_session_cumulus \<Rightarrow> u8 list" where
  "session_part cm =
     bytes32 (bf_flags cm) @ bytes_in6 (bf_src cm) @ bytes_in6 (bf_dst cm) @ bytes32 (bf_lid cm)
     @ bytes32 (bf_min_tx cm) @ bytes32 (bf_min_rx cm) @ bytes32 0 @ bytes32 0 @ bytes32 (bf_hold_time cm)
     @ [bf_ttl cm, bf_detect_mult cm, 0, 0] @ bytes32 (bf_ifindex cm) @ bf_ifname cm"

lemma session_bytes_part: "session_bytes cm = session_part cm @ bytes32 (bf_vrf_id cm) @ bf_vrfname cm"
  by (simp add: session_bytes_def session_part_def)

lemma length_session_part: "length (bf_ifname cm) = 64 \<Longrightarrow> length (session_part cm) = sz_session"
  by (simp add: session_part_def sz_session_def)

lemma rd_in6_here: "rd_in6 (bytes_in6 a @ ys) 0 = Some a"
  by (cases a) (simp add: rd_in6_def bytes_in6_def rd_simps)

lemma rd_in6_append: "length xs \<le> k \<Longrightarrow> rd_in6 (xs @ ys) k = rd_in6 ys (k - length xs)"
  by (simp add: rd_in6_def rd_append)

lemma read_session_True:
  assumes "length hdr = 8" "length (bf_ifname cm) = 64" "length (bf_vrfname cm) = 36"
  shows "read_session True (hdr @ session_bytes cm) = Some cm"
  using assms by (simp add: read_session_def session_bytes_def rd_simps rd_in6_here rd_in6_append)

lemma read_session_False:
  assumes "length hdr = 8" "length (bf_ifname cm) = 64"
  shows "read_session False (hdr @ session_part cm) = Some (cm\<lparr>bf_vrf_id := 0, bf_vrfname := replicate 36 0\<rparr>)"
  using assms by (simp add: read_session_def session_part_def rd_simps rd_in6_here rd_in6_append)

lemma unat_char: "unat (of_nat (of_char c) :: u8) = of_char c"
proof -
  have "(of_char c :: nat) < 256" by simp
  then show ?thesis by (simp add: unsigned_of_nat take_bit_eq_mod)
qed

lemma byte_of_char_eq_0: "(of_nat (of_char c) :: u8) = 0 \<longleftrightarrow> c = CHR 0x00"
proof
  assume "(of_nat (of_char c) :: u8) = 0"
  then have "(of_char c :: nat) = of_char (CHR 0x00)" using unat_char[of c] by simp
  then show "c = CHR 0x00" by (simp only: of_char_eq_iff)
qed simp

lemma takeWhile_name:
  "CHR 0x00 \<notin> set nm \<Longrightarrow>
     takeWhile (\<lambda>b. b \<noteq> 0) (map (\<lambda>c. of_nat (of_char c) :: u8) nm @ replicate m 0) = map (\<lambda>c. of_nat (of_char c)) nm"
  by (induction nm) (auto simp: byte_of_char_eq_0 takeWhile_replicate)

lemma copy_name_bytes:
  assumes "length nm < IFNAMSIZ" "CHR 0x00 \<notin> set nm" "IFNAMSIZ \<le> n"
  shows "copy_name (name_bytes n nm) = nm"
proof -
  have "take (IFNAMSIZ - 1) (name_bytes n nm) = map (\<lambda>c. of_nat (of_char c)) nm @ replicate (IFNAMSIZ - 1 - length nm) 0"
    using assms by (simp add: name_bytes_def)
  then show ?thesis
    using assms(2) by (simp add: copy_name_def takeWhile_name unat_char o_def map_idI)
qed

lemma hd_name_bytes:
  assumes "nm \<noteq> ''''" "CHR 0x00 \<notin> set nm"
  shows "hd (name_bytes n nm) \<noteq> 0"
proof -
  obtain c cs where "nm = c # cs" using assms(1) by (cases nm) auto
  moreover have "copy_name (name_bytes 16 [c]) = [c]"
    by (rule copy_name_bytes) (use assms calculation in \<open>auto simp: IFNAMSIZ_def\<close>)
  ultimately show ?thesis by (auto simp: name_bytes_def copy_name_def IFNAMSIZ_def)
qed

lemma length_name_bytes: "length nm \<le> n \<Longrightarrow> length (name_bytes n nm) = n"
  by (simp add: name_bytes_def)

text \<open>What the data plane learns of a session of the bridge: the hold time in whole
  milliseconds, the VRF by name and table, and neither the name nor the remote discriminator.
  An unspecified source address is no source address.\<close>

definition wire_session :: "inet \<Rightarrow> netenv \<Rightarrow> bbdd_d_session \<Rightarrow> bbdd_c_session" where
  "wire_session I N ds = (bbdd_d_session_to_c I N ds)
     \<lparr>c_remote_discr := None,
      c_hold_time_us := Some (hold_time_us ds div 1000 * 1000),
      c_src := (if sin_addr (src ds) = 0 \<and> sin6_addr (src ds) = (0, 0, 0, 0) then zero_c_addr\<lparr>a_unset := True\<rparr>
                else bbdd_d_session_to_c_addr I (src ds)),
      c_vrf := (if vrf_table ds = 0 then \<lparr>v_netif = zero_c_netif\<lparr>n_unset := True\<rparr>, v_table = None\<rparr>
                else \<lparr>v_netif = zero_c_netif\<lparr>n_name := map_option (name_of_index N) (some_non0 (vrf_ifindex ds))\<rparr>,
                      v_table = Some (vrf_table ds)\<rparr>),
      c_name := \<lparr>s_unset = False, s_val = None\<rparr>\<rparr>"

lemma session_flags_and:
  "session_flags ds AND SESSION_IPV6 \<noteq> 0 \<longleftrightarrow> sa_family (dst ds) = AF_INET6"
  "session_flags ds AND SESSION_MULTIHOP \<noteq> 0 \<longleftrightarrow> multihop (sflags (sess_local ds))"
  "session_flags ds AND SESSION_CBIT \<noteq> 0 \<longleftrightarrow> cpi (sflags (sess_local ds))"
  "session_flags ds AND SESSION_PASSIVE \<noteq> 0 \<longleftrightarrow> passive_role (sflags (sess_local ds))"
  "session_flags ds AND SESSION_SHUTDOWN \<noteq> 0 \<longleftrightarrow> shutdown (sflags (sess_local ds))"
  "session_flags ds AND SESSION_ECHO = 0" "session_flags ds AND SESSION_DEMAND = 0"
  by (simp_all add: session_flags_def session_flag_defs Let_def)

lemma hold_time_fits: "\<not> 4294967 < (h :: u32) div 1000"
proof -
  have "unat h < 4294967296" using unsigned_less[of h] by simp
  then have "unat h div 1000 \<le> 4294967" by linarith
  then show ?thesis by (simp add: word_less_nat_alt unat_div)
qed

lemma fill_netif_name:
  assumes "bbdd_bfdd_msg_fill_netif N i = Inr nm" "net_ok N"
  shows "length nm < IFNAMSIZ" "CHR 0x00 \<notin> set nm" "i \<noteq> 0 \<Longrightarrow> nm \<noteq> ''''" "i \<noteq> 0 \<Longrightarrow> nm = name_of_index N i" "i = 0 \<Longrightarrow> nm = ''''"
  using assms by (auto simp: bbdd_bfdd_msg_fill_netif_def net_ok_def name_of_index_def IFNAMSIZ_def split: if_splits option.splits)

lemma hd_name_empty: "0 < n \<Longrightarrow> hd (name_bytes n '''') = 0"
  by (cases n) (simp_all add: name_bytes_def)

lemma wire_struct_to_c:
  assumes ok: "dsess_ok ds" and net: "net_ok N"
    and s: "s = (case bbdd_sockaddr_addrbuf (src ds) of Inr a \<Rightarrow> fill_addr a (0, 0, 0, 0) | _ \<Rightarrow> (0, 0, 0, 0))"
    and d: "bbdd_sockaddr_addrbuf (dst ds) = Inr a" "d = fill_addr a stack"
    and v: "bbdd_bfdd_msg_fill_netif N (vrf_ifindex ds) = Inr vrfname"
    and i: "bbdd_bfdd_msg_fill_netif N (sifindex ds) = Inr ifname"
  shows "bbdd_bfdd_session_to_c I (wire_struct ds s d vrfname ifname) = Inr (wire_session I N ds)"
proof -
  note nv = fill_netif_name[OF v net] and ni = fill_netif_name[OF i net]
  let ?v6 = "sa_family (dst ds) = AF_INET6"
  have fam: "sa_family (dst ds) \<in> {AF_INET, AF_INET6}" "sa_family (src ds) \<in> {0, sa_family (dst ds)}"
    using ok by (auto simp: dsess_ok_def sa_ok_def)
  have "addr_zero ?v6 s \<longleftrightarrow> sin_addr (src ds) = 0 \<and> sin6_addr (src ds) = (0, 0, 0, 0)"
    using ok fam by (auto simp: s addr_zero_def bbdd_sockaddr_addrbuf_def fill_addr_def dsess_ok_def sa_ok_def)
  moreover have "\<not> addr_zero ?v6 s \<Longrightarrow> bbdd_bfdd_session_to_c_addr I ?v6 s = bbdd_d_session_to_c_addr I (src ds)"
    using ok fam by (auto simp: s addr_zero_def bbdd_sockaddr_addrbuf_def fill_addr_def bbdd_bfdd_session_to_c_addr_def
        bbdd_d_session_to_c_addr_def bbdd_d_sockaddr_ntop_def)
  moreover have "bbdd_bfdd_session_to_c_addr I ?v6 d = bbdd_d_session_to_c_addr I (dst ds)"
    using d fam by (auto simp: bbdd_sockaddr_addrbuf_def fill_addr_def bbdd_bfdd_session_to_c_addr_def
        bbdd_d_session_to_c_addr_def bbdd_d_sockaddr_ntop_def)
  moreover have "sifindex ds \<noteq> 0 \<Longrightarrow> name_field (name_bytes 64 ifname) = Some (name_of_index N (sifindex ds))"
    using ni hd_name_bytes[of ifname 64] copy_name_bytes[of ifname 64] by (auto simp: name_field_def IFNAMSIZ_def)
  moreover have "name_field (name_bytes 36 vrfname) = map_option (name_of_index N) (some_non0 (vrf_ifindex ds))"
    using nv hd_name_bytes[of vrfname 36] copy_name_bytes[of vrfname 36] hd_name_empty[of 36]
    by (auto simp: name_field_def IFNAMSIZ_def some_non0_def)
  moreover have "discr (sess_local ds) \<noteq> 0" using ok by (simp add: dsess_ok_def)
  ultimately show ?thesis
    by (auto simp: bbdd_bfdd_session_to_c_def wire_struct_def wire_session_def session_flags_and hold_time_fits Let_def
        bbdd_d_session_to_c_def some_non0_def[of "discr (sess_local ds)"])
qed

lemma wire_struct_lengths:
  assumes "length vrfname < IFNAMSIZ" "length ifname < IFNAMSIZ"
  shows "length (bf_ifname (wire_struct ds s d vrfname ifname)) = 64" "length (bf_vrfname (wire_struct ds s d vrfname ifname)) = 36"
  using assms by (simp_all add: wire_struct_def length_name_bytes IFNAMSIZ_def)

text \<open>A message without VRF table is read as the structure whose last two fields are zero.\<close>

lemma no_vrf_to_c:
  assumes "vrf_table ds = 0"
  shows "bbdd_bfdd_session_to_c I ((wire_struct ds s d vrfname ifname)\<lparr>bf_vrf_id := 0, bf_vrfname := xs\<rparr>)
    = bbdd_bfdd_session_to_c I (wire_struct ds s d vrfname ifname)"
proof -
  have "hton32 0 = 0" using ntoh32_eq_0_iff[of "hton32 0"] by simp
  then show ?thesis using assms by (simp add: bbdd_bfdd_session_to_c_def wire_struct_def Let_def)
qed

lemma session_message_read:
  assumes l: "length vrfname < IFNAMSIZ" "length ifname < IFNAMSIZ"
    and len: "len = (if vrf_table ds \<noteq> 0 then sz_header + sz_cumulus else sz_header + sz_session)"
    and msg: "msg = take len (header_bytes DP_ADD_SESSION ident len @ session_bytes (wire_struct ds s d vrfname ifname))"
  shows "bbdd_bfdd_session_msg_to_c I msg = Some (bbdd_bfdd_session_to_c I (wire_struct ds s d vrfname ifname))"
    and "length msg = len" and "msg_length msg = Some (of_nat len)" and "bbdd_bfdd_msg_len_validate msg = Some (Inr ())"
proof -
  let ?cm = "wire_struct ds s d vrfname ifname" and ?h = "header_bytes DP_ADD_SESSION ident len"
  note fl = wire_struct_lengths[OF l]
  have sp: "length (session_part ?cm) = 132" using length_session_part fl by (simp add: sz_session_def)
  have m: "msg = ?h @ (if vrf_table ds \<noteq> 0 then session_bytes ?cm else session_part ?cm)"
    using sp fl by (simp add: msg len session_bytes_part sz_defs)
  have r: "read_session True (header_bytes t i n @ session_bytes ?cm) = Some ?cm"
    "read_session False (header_bytes t i n @ session_part ?cm) = Some (?cm\<lparr>bf_vrf_id := 0, bf_vrfname := replicate 36 0\<rparr>)" for t i n
    using read_session_True[OF length_header] read_session_False[OF length_header] fl by simp_all
  show "length msg = len" using sp fl by (simp add: m len session_bytes_part sz_defs)
  show ml: "msg_length msg = Some (of_nat len)" by (simp add: m header_fields)
  show "bbdd_bfdd_msg_len_validate msg = Some (Inr ())"
    using ml by (simp add: bbdd_bfdd_msg_len_validate_def bbdd_bfdd_msg_len_ck_def m header_fields len sz_defs)
  show "bbdd_bfdd_session_msg_to_c I msg = Some (bbdd_bfdd_session_to_c I ?cm)"
    by (cases "vrf_table ds = 0")
      (simp_all add: bbdd_bfdd_session_msg_to_c_def m header_fields r no_vrf_to_c len sz_defs)
qed

lemma add_session_sent:
  assumes r: "bbdd_bfdd_d_add_session I N stack cs ident = Some (Inr msg)" and net: "net_ok N"
  obtains ds where "bbdd_bfdd_session_d_from_c I N cs = Some (Inr ds)" "dsess_ok ds"
    "bbdd_bfdd_session_msg_to_c I msg = Some (Inr (wire_session I N ds))"
    "msg_length msg = Some (of_nat (length msg))" "bbdd_bfdd_msg_len_validate msg = Some (Inr ())"
proof -
  obtain ds where ds: "bbdd_bfdd_session_d_from_c I N cs = Some (Inr ds)"
    using r by (auto simp: bbdd_bfdd_d_add_session_def split: option.splits sum.splits)
  then obtain ch where "bbdd_d_session_apply_c I N (zero_session\<lparr>sttl := 255\<rparr>) cs = Some (Inr (ds, ch))"
    by (auto simp: bbdd_bfdd_session_d_from_c_def dbind_def split: option.splits sum.splits)
  then have ok: "dsess_ok ds" by (rule apply_c_valid_lem(1)) (simp_all add: zero_session_def)
  let ?s = "case bbdd_sockaddr_addrbuf (src ds) of Inr a \<Rightarrow> fill_addr a (0, 0, 0, 0) | _ \<Rightarrow> (0, 0, 0, 0)"
  obtain a vrfname ifname where a: "bbdd_sockaddr_addrbuf (dst ds) = Inr a"
    "bbdd_bfdd_msg_fill_netif N (vrf_ifindex ds) = Inr vrfname" "bbdd_bfdd_msg_fill_netif N (sifindex ds) = Inr ifname"
    and m: "msg = (let len = (if vrf_table ds \<noteq> 0 then sz_header + sz_cumulus else sz_header + sz_session) in
      take len (header_bytes DP_ADD_SESSION ident len @ session_bytes (wire_struct ds ?s (fill_addr a stack) vrfname ifname)))"
    using r ds ok by (auto simp: bbdd_bfdd_d_add_session_def Let_def dsess_ok_def sa_ok_def bbdd_sockaddr_addrbuf_def
        split: sum.splits if_splits)
  note n = fill_netif_name(1)[OF a(2) net] fill_netif_name(1)[OF a(3) net]
  note rd = session_message_read[OF n refl m[unfolded Let_def]]
  show ?thesis
  proof (rule that[OF ds ok])
    show "bbdd_bfdd_session_msg_to_c I msg = Some (Inr (wire_session I N ds))"
      using rd(1)[of I] wire_struct_to_c[OF ok net refl a(1) refl a(2,3), of I stack] by simp
  qed (use rd in simp_all)
qed

subsection \<open>A validated message is not read past its end\<close>

lemma rd_within:
  "k < length m \<Longrightarrow> \<exists>v. rd8 m k = Some v" "k + 4 \<le> length m \<Longrightarrow> \<exists>v. rd32 m k = Some v"
  "k + n \<le> length m \<Longrightarrow> \<exists>v. rdmem m k n = Some v" "k + 16 \<le> length m \<Longrightarrow> \<exists>v. rd_in6 m k = Some v"
  by (simp_all add: rd8_def rd32_def rdmem_def rd_in6_def)

lemma read_session_within:
  "sz_header + (if cumulus then sz_cumulus else sz_session) \<le> length msg \<Longrightarrow> \<exists>cm. read_session cumulus msg = Some cm"
  by (cases cumulus) (simp_all add: read_session_def rd8_def rd32_def rdmem_def rd_in6_def sz_defs)

text \<open>A message as the tokenizer cuts it: its length field is its length.\<close>

definition framed :: "u8 list \<Rightarrow> bool" where
  "framed msg \<longleftrightarrow> sz_header \<le> length msg \<and> map_option unat (msg_length msg) = Some (length msg)"

lemma framed_fields: "framed msg \<Longrightarrow> \<exists>t i l. msg_type msg = Some t \<and> msg_id msg = Some i \<and> msg_length msg = Some l \<and> unat l = length msg"
  by (auto simp: framed_def msg_type_def msg_id_def rd16_def sz_defs)

lemma framed_validate_total: "framed msg \<Longrightarrow> \<exists>r. bbdd_bfdd_msg_len_validate msg = Some r"
  using framed_fields[of msg] by (auto simp: bbdd_bfdd_msg_len_validate_def bbdd_bfdd_msg_len_ck_def)

lemma validated_length:
  assumes "framed msg" "bbdd_bfdd_msg_len_validate msg = Some (Inr ())" "msg_type msg = Some t"
  shows "t \<in> {ECHO_REQUEST, ECHO_REPLY} \<Longrightarrow> sz_header + sz_echo \<le> length msg"
    and "t \<in> {DP_ADD_SESSION, DP_DELETE_SESSION} \<Longrightarrow> sz_header + sz_session \<le> length msg"
    and "t = DP_REQUEST_SESSION_COUNTERS \<Longrightarrow> sz_header + sz_counters_req \<le> length msg"
  using framed_fields[OF assms(1)] assms(2,3)
  by (auto simp: bbdd_bfdd_msg_len_validate_def bbdd_bfdd_msg_len_ck_def split: if_splits)

lemma session_msg_to_c_total:
  assumes "framed msg" "bbdd_bfdd_msg_len_validate msg = Some (Inr ())" "msg_type msg = Some DP_ADD_SESSION"
  shows "\<exists>r. bbdd_bfdd_session_msg_to_c I msg = Some r"
  using framed_fields[OF assms(1)] validated_length(2)[OF assms] assms(3)
    read_session_within[of False msg] read_session_within[of True msg]
  by (auto simp: bbdd_bfdd_session_msg_to_c_def)

lemma session_to_c_dst:
  "bbdd_bfdd_session_to_c I cm = Inr cs \<Longrightarrow> \<not> a_unset (c_dst cs)"
  by (auto simp: bbdd_bfdd_session_to_c_def Let_def bbdd_bfdd_session_to_c_addr_def split: if_splits)

lemma session_msg_to_c_dst:
  "bbdd_bfdd_session_msg_to_c I msg = Some (Inr cs) \<Longrightarrow> \<not> a_unset (c_dst cs)"
  by (auto simp: bbdd_bfdd_session_msg_to_c_def session_to_c_dst split: option.splits if_splits bind_splits)

subsection \<open>Echo\<close>

lemma length_bytes_be64 [simp]: "length (bytes_be64 x) = 8"
  by (simp add: bytes_be64_def)

lemma load_bytes_be64 [simp]: "load_be64 (bytes_be64 x) = x"
proof -
  have "bytes_be64 x = [ucast (drop_bit 56 x), ucast (drop_bit 48 x), ucast (drop_bit 40 x), ucast (drop_bit 32 x),
      ucast (drop_bit 24 x), ucast (drop_bit 16 x), ucast (drop_bit 8 x), ucast x]"
    by (simp add: bytes_be64_def upt_rec)
  moreover have "push_bit 56 (ucast (ucast (drop_bit 56 x) :: u8)) OR push_bit 48 (ucast (ucast (drop_bit 48 x) :: u8))
      OR push_bit 40 (ucast (ucast (drop_bit 40 x) :: u8)) OR push_bit 32 (ucast (ucast (drop_bit 32 x) :: u8))
      OR push_bit 24 (ucast (ucast (drop_bit 24 x) :: u8)) OR push_bit 16 (ucast (ucast (drop_bit 16 x) :: u8))
      OR push_bit 8 (ucast (ucast (drop_bit 8 x) :: u8)) OR ucast (ucast x :: u8) = x" (is "?y = x")
  proof (rule bit_word_eqI)
    fix n
    assume "n < LENGTH(64)"
    then consider "n < 8" | "8 \<le> n" "n < 16" | "16 \<le> n" "n < 24" | "24 \<le> n" "n < 32" | "32 \<le> n" "n < 40"
      | "40 \<le> n" "n < 48" | "48 \<le> n" "n < 56" | "56 \<le> n" "n < 64" by force
    then show "bit ?y n \<longleftrightarrow> bit x n"
      by cases (simp_all add: bit_simps less_diff_conv2)
  qed
  ultimately show ?thesis by simp
qed

lemma rd64_simps:
  "length xs \<le> k \<Longrightarrow> rd64 (xs @ ys) k = rd64 ys (k - length xs)" "rd64 (bytes_be64 v @ ys) 0 = Some v" "rd64 (bytes_be64 v) 0 = Some v"
  by (simp_all add: rd64_def rd_append rd_here)

lemma echo_reply_times:
  assumes "bbdd_bfdd_reply_echo ident' now (bbdd_bfdd_send_echo ident ts is_dp) (\<not> is_dp) = Some reply"
  shows "rd64 reply (if is_dp then 8 else 16) = Some ts" "rd64 reply (if is_dp then 16 else 8) = Some now"
    "msg_type reply = Some ECHO_REPLY" "bbdd_bfdd_msg_len_validate reply = Some (Inr ())"
proof -
  have r: "reply = header_bytes ECHO_REPLY ident' (sz_header + sz_echo)
      @ (if is_dp then bytes_be64 ts @ bytes_be64 now else bytes_be64 now @ bytes_be64 ts)"
    using assms by (cases is_dp) (simp_all add: bbdd_bfdd_reply_echo_def bbdd_bfdd_send_echo_def rd_simps)
  show "rd64 reply (if is_dp then 8 else 16) = Some ts" "rd64 reply (if is_dp then 16 else 8) = Some now"
    by (simp_all add: r rd64_simps)
  show "msg_type reply = Some ECHO_REPLY" "bbdd_bfdd_msg_len_validate reply = Some (Inr ())"
    by (simp_all add: r header_fields bbdd_bfdd_msg_len_validate_def bbdd_bfdd_msg_len_ck_def sz_defs)
qed

lemma echo_reply_total: "\<exists>reply. bbdd_bfdd_reply_echo ident' now (bbdd_bfdd_send_echo ident ts is_dp) dp = Some reply"
  by (simp add: bbdd_bfdd_reply_echo_def bbdd_bfdd_send_echo_def rd_simps)

subsection \<open>Requests that wait for an echo\<close>

text \<open>The list holds every request once, whatever its outcome.\<close>

fun ep_key :: "'j echo_peer \<Rightarrow> nat \<times> 'j" where
  "ep_key ep = (ep_peer ep, ep_id ep)"

fun answer_key :: "'j echo_answer \<Rightarrow> nat \<times> 'j" where
  "answer_key (Echo_result p i _ _) = (p, i)"
| "answer_key (Echo_interr p i) = (p, i)"

fun started :: "'j echo_op \<Rightarrow> (nat \<times> 'j) list" where
  "started (Op_start _ _ _ p i _) = [(p, i)]"
| "started _ = []"

fun gone :: "'j echo_op \<Rightarrow> 'j echo_peer list \<Rightarrow> (nat \<times> 'j) list" where
  "gone (Op_done p) eps = map ep_key (filter (\<lambda>ep. ep_peer ep = p) eps)"
| "gone _ eps = []"

lemma echo_step_once:
  assumes "echo_step op eps = Some (eps', as, msgs)"
  shows "mset (map ep_key eps) + mset (started op) = mset (map ep_key eps') + mset (map answer_key as) + mset (gone op eps)"
proof (cases op)
  case (Op_done p)
  have "mset (map ep_key eps) = mset (map ep_key (filter (\<lambda>ep. ep_peer ep \<noteq> p) eps))
      + mset (map ep_key (filter (\<lambda>ep. ep_peer ep = p) eps))"
    by (induction eps) auto
  with Op_done show ?thesis using assms by (auto simp: bbdd_bfdd_echo_peer_done_def)
next
  case (Op_reply msg)
  then have "map answer_key as = map ep_key eps" "eps' = []"
    using assms by (auto simp: bbdd_bfdd_echo_handle_reply_def split: bind_splits)
  with Op_reply show ?thesis by (simp flip: mset_map)
next
  case (Op_start a q ts p i dp)
  then show ?thesis using assms by (auto simp: bbdd_bfdd_echo_handle_start_def split: if_splits)
next
  case Op_close
  then have "map answer_key as = map ep_key eps" "eps' = []" using assms by (auto simp: bbdd_bfdd_close_b_def)
  with Op_close show ?thesis by (simp flip: mset_map)
qed

text \<open>A sequence of operations; the last component are the requests whose connection closed.\<close>

fun echo_run ::
  "'j echo_op list \<Rightarrow> 'j echo_peer list \<Rightarrow> ('j echo_peer list \<times> 'j echo_answer list \<times> (nat \<times> 'j) list) option"
where
  "echo_run [] eps = Some (eps, [], [])"
| "echo_run (op # ops) eps = do {
     (eps1, as1, _) \<leftarrow> echo_step op eps;
     (eps2, as2, g) \<leftarrow> echo_run ops eps1;
     Some (eps2, as1 @ as2, gone op eps @ g)
   }"

lemma echo_run_once:
  "echo_run ops eps = Some (eps', as, g) \<Longrightarrow>
     mset (map ep_key eps) + mset (concat (map started ops)) = mset (map ep_key eps') + mset (map answer_key as) + mset g"
proof (induction ops arbitrary: eps as g)
  case (Cons op ops)
  obtain eps1 as1 msgs as2 g2 where s: "echo_step op eps = Some (eps1, as1, msgs)" "echo_run ops eps1 = Some (eps', as2, g2)"
    and e: "as = as1 @ as2" "g = gone op eps @ g2"
    using Cons.prems by (auto split: bind_splits)
  let ?k = "\<lambda>eps. mset (map ep_key eps)" and ?a = "\<lambda>as. mset (map answer_key as)" and ?s = "mset (concat (map started ops))"
  have "?k eps + mset (concat (map started (op # ops))) = (?k eps + mset (started op)) + ?s"
    by (simp add: union_assoc)
  also have "\<dots> = (?k eps1 + ?s) + (?a as1 + mset (gone op eps))"
    unfolding echo_step_once[OF s(1)] by (simp only: ac_simps)
  also have "\<dots> = ?k eps' + ?a as + mset g"
    unfolding Cons.IH[OF s(2)] e map_append mset_append by (simp only: ac_simps)
  finally show ?case .
qed simp

subsection \<open>Properties\<close>


definition sample_dst :: bbdd_sockaddr where
  "sample_dst = zero_sockaddr\<lparr>sa_family := AF_INET, sin_addr := 0x0a000001\<rparr>"

definition sample_request :: bbdd_c_session where
  "sample_request = zero_c_session
     \<lparr>c_discr := Some 9, c_min_tx_us := Some 100000, c_min_rx_us := Some 100000, c_detect_mult := Some 3,
      c_dst := bbdd_d_session_to_c_addr sample_inet sample_dst\<rparr>"

lemma sample_request_applied:
  "bbdd_bfdd_session_d_from_c sample_inet sample_net sample_request
     = Some (Inr (session_apply_c_checked (zero_session\<lparr>sttl := 255\<rparr>) sample_request None (Some sample_dst)))"
proof -
  have "sa_ok sample_dst" "sample_dst\<lparr>sa_port := 0\<rparr> = sample_dst"
    by (simp_all add: sample_dst_def zero_sockaddr_def sa_ok_def)
  from ntop_parse[OF sample_inet_ok this(1)] this(2)
  have "bbdd_d_session_apply_c_addr sample_inet (bbdd_d_session_to_c_addr sample_inet sample_dst) = Some (Inr (Some sample_dst))" by simp
  moreover have "\<not> a_unset (bbdd_d_session_to_c_addr sample_inet sample_dst)" "a_af (bbdd_d_session_to_c_addr sample_inet sample_dst) = AF_INET"
    by (simp_all add: bbdd_d_session_to_c_addr_def sample_dst_def)
  moreover have "bbdd_d_session_apply_c_addr sample_inet zero_c_addr = Some (Inr None)" "\<not> a_unset zero_c_addr" "a_af zero_c_addr = 0"
    by (simp_all add: bbdd_d_session_apply_c_addr_def zero_c_addr_def)
  ultimately show ?thesis
    by (simp add: bbdd_bfdd_session_d_from_c_def bbdd_d_session_apply_c_def sample_request_def zero_c_session_def Let_def
        zero_session_def zero_session_data_def zero_sockaddr_def
        bbdd_d_session_validate_vrf_def bbdd_d_session_validate_netif_def vrf_view_def zero_c_netif_def
        bbdd_d_session_to_c_vrf_def mandatory_non0_def)
qed

lemma sample_request_session:
  defines "ds \<equiv> session_apply_c_checked (zero_session\<lparr>sttl := 255\<rparr>) sample_request None (Some sample_dst)"
  shows "vrf_table ds = 0" "vrf_ifindex ds = 0" "sifindex ds = 0" "sa_family (src ds) = 0" "sa_family (dst ds) = AF_INET"
  by (simp_all add: ds_def session_apply_c_checked_def Let_def sample_request_def zero_c_session_def sample_dst_def
      zero_sockaddr_def zero_session_def zero_session_data_def zero_c_netif_def)


text \<open>A framed message that passed the length check is never read past its end: decoding a
  session and answering an echo return a value, and so do the reads of the discriminator
  of a deletion and of a request for counters.\<close>

theorem bfdd_reads_in_bounds:
  assumes "framed msg" and "bbdd_bfdd_msg_len_validate msg = Some (Inr ())" and "msg_type msg = Some t"
  shows "(t = DP_ADD_SESSION \<longrightarrow> bbdd_bfdd_session_msg_to_c I msg \<noteq> None)
    \<and> (t = DP_DELETE_SESSION \<longrightarrow> rd32 msg 44 \<noteq> None)
    \<and> (t = DP_REQUEST_SESSION_COUNTERS \<longrightarrow> rd32 msg 8 \<noteq> None)
    \<and> (t = ECHO_REQUEST \<longrightarrow> bbdd_bfdd_reply_echo n now msg dp \<noteq> None)
    \<and> (t = ECHO_REPLY \<longrightarrow> bbdd_bfdd_echo_handle_reply eps msg \<noteq> None)"
  using validated_length[OF assms] session_msg_to_c_total[OF assms(1,2)] assms(3)
  by (auto simp: bbdd_bfdd_reply_echo_def bbdd_bfdd_echo_handle_reply_def rd64_def rd32_def rdmem_def sz_defs)

theorem bfdd_reads_in_bounds_witness:
  "rd32 (bbdd_bfdd_d_del_session 5 9) 44 \<noteq> None"
proof -
  let ?m = "bbdd_bfdd_d_del_session 5 9"
  have "framed ?m" "bbdd_bfdd_msg_len_validate ?m = Some (Inr ())" "msg_type ?m = Some DP_DELETE_SESSION"
    by (simp_all add: framed_def bbdd_bfdd_d_del_session_def header_fields bbdd_bfdd_msg_len_validate_def
        bbdd_bfdd_msg_len_ck_def sz_defs)
  from bfdd_reads_in_bounds[OF this] show ?thesis by simp
qed

text \<open>A request for an echo is answered with the time at which it was sent and the time at
  which the other side replied, whichever side asks.\<close>

theorem echo_roundtrip:
  "\<exists>eps req reply. bbdd_bfdd_echo_handle_start [] True True ts p i is_dp = (eps, [], [req])
     \<and> bbdd_bfdd_reply_echo n now req (\<not> is_dp) = Some reply
     \<and> bbdd_bfdd_msg_len_validate reply = Some (Inr ())
     \<and> bbdd_bfdd_echo_handle_reply eps reply = Some ([], [Echo_result p i ts now])"
proof -
  obtain reply where r: "bbdd_bfdd_reply_echo n now (bbdd_bfdd_send_echo 1 ts is_dp) (\<not> is_dp) = Some reply"
    using echo_reply_total by blast
  from echo_reply_times[OF r] show ?thesis
    using r by (cases is_dp) (auto simp: bbdd_bfdd_echo_handle_start_def bbdd_bfdd_echo_handle_reply_def)
qed

text \<open>C34. Every request for an echo has exactly one outcome: over any sequence of requests,
  replies, closed connections and the loss of the peer, the requests that were waiting
  or started are those that still wait, those that were answered and those whose
  connection closed, each counted once.\<close>

theorem echo_answered_once:
  assumes "echo_run ops eps = Some (eps', as, g)"
  shows "mset (map ep_key eps) + mset (concat (map started ops)) = mset (map ep_key eps') + mset (map answer_key as) + mset g"
  by (rule echo_run_once[OF assms])

theorem echo_answered_once_witness:
  "\<exists>eps' as g. echo_run [Op_start True True 5 1 (0::nat) True, Op_start True True 6 2 0 True, Op_done 1, Op_close] [] = Some (eps', as, g)
     \<and> mset [(1, 0), (2, 0)] = mset (map ep_key eps') + mset (map answer_key as) + mset g"
proof -
  let ?ops = "[Op_start True True 5 1 (0::nat) True, Op_start True True 6 2 0 True, Op_done 1, Op_close]"
  obtain eps' as g where r: "echo_run ?ops [] = Some (eps', as, g)"
    by (simp add: bbdd_bfdd_echo_handle_start_def bbdd_bfdd_echo_peer_done_def bbdd_bfdd_close_b_def)
  from echo_answered_once[OF r] r show ?thesis by simp
qed

end
