(* ===== verification/Stream_Buf.thy ===== *)
theory Stream_Buf
  imports Base "HOL-Library.Monad_Syntax"
begin

text \<open>
  The growing byte buffer (\<open>bbdd-sb.c\<close>) that carries the output of a stream peer and
  the input of the \<open>bfddp\<close> tokenizer.  The buffer is the record of the source with
  its allocation as a list of bytes, \<open>None\<close> for \<open>NULL\<close>; sizes are 64-bit words, as
  \<open>size_t\<close> is.  The allocator is an argument: \<open>alloc n\<close> is \<open>None\<close> when \<open>realloc\<close> fails
  and otherwise the contents of memory that was not there before.  A failed
  assertion, an access outside the allocation and a loop that never ends are the
  value \<open>None\<close>.  The locale \<open>byte_queue\<close> states what the clients of the buffer rely
  on, and the interpretation \<open>sb\<close> shows that the buffer is a queue of bytes.
\<close>

record bbdd_sb =
  buf :: "u8 list option"
  off :: u64
  len :: u64
  size_of :: u64
  maxsize :: u64

datatype sb_error = Overflow u64 u64 | No_memory u64

type_synonym allocator = "u64 \<Rightarrow> (nat \<Rightarrow> u8) option"

definition BBDD_SB_MIN_SIZE :: u64 where
  "BBDD_SB_MIN_SIZE = 1024"

subsection \<open>Memory\<close>

definition mem_resize :: "u8 list \<Rightarrow> nat \<Rightarrow> (nat \<Rightarrow> u8) \<Rightarrow> u8 list" where
  "mem_resize old n fresh = map (\<lambda>i. if i < length old then old ! i else fresh i) [0..<n]"

definition mem_move_front :: "u8 list \<Rightarrow> nat \<Rightarrow> nat \<Rightarrow> u8 list" where
  "mem_move_front b p n = take n (drop p b) @ drop n b"

definition mem_write :: "u8 list \<Rightarrow> nat \<Rightarrow> u8 list \<Rightarrow> u8 list option" where
  "mem_write b p xs =
     (if p + length xs \<le> length b then Some (take p b @ xs @ drop (p + length xs) b) else None)"

subsection \<open>Operations\<close>

definition bbdd_sb_buf :: "bbdd_sb \<Rightarrow> u8 list" where
  "bbdd_sb_buf sb = (case buf sb of None \<Rightarrow> [] | Some b \<Rightarrow> drop (unat (off sb)) b)"

definition bbdd_sb_len :: "bbdd_sb \<Rightarrow> u64" where
  "bbdd_sb_len sb = len sb"

definition bbdd_sb_compact :: "bbdd_sb \<Rightarrow> bbdd_sb" where
  "bbdd_sb_compact sb =
     (if off sb = 0 then sb
      else sb\<lparr>buf := map_option (\<lambda>b. mem_move_front b (unat (off sb)) (unat (len sb))) (buf sb), off := 0\<rparr>)"

definition bbdd_sb_end :: "bbdd_sb \<Rightarrow> u64" where
  "bbdd_sb_end sb = off sb + len sb"

definition bbdd_sb_free_tail :: "bbdd_sb \<Rightarrow> u64" where
  "bbdd_sb_free_tail sb = size_of sb - bbdd_sb_end sb"

text \<open>The loop that doubles the size; it has no bound of its own.\<close>

partial_function (option) sb_grow :: "u64 \<Rightarrow> u64 \<Rightarrow> u64 option" where
  "sb_grow nsize needed =
     (if nsize < needed then sb_grow (if nsize > 0 then nsize * 2 else BBDD_SB_MIN_SIZE) needed
      else Some nsize)"

definition sb_realloc :: "allocator \<Rightarrow> bbdd_sb \<Rightarrow> u64 \<Rightarrow> (bbdd_sb \<times> (sb_error, u64) res) option" where
  "sb_realloc alloc sb extra_len =
     (if off sb \<noteq> 0 then None
      else do {
        let needed = len sb + extra_len;
        nsize \<leftarrow> sb_grow (size_of sb) needed;
        let over = (maxsize sb \<noteq> 0 \<and> nsize > maxsize sb);
        let nsize = (if over then maxsize sb else nsize);
        if over \<and> nsize < needed then Some (sb, Inl (Overflow needed (maxsize sb)))
        else (case alloc nsize of
            None \<Rightarrow> Some (sb, Inl (No_memory nsize))
          | Some fresh \<Rightarrow>
              let sb = sb\<lparr>buf := Some (mem_resize (case buf sb of None \<Rightarrow> [] | Some b \<Rightarrow> b) (unat nsize) fresh),
                          size_of := nsize\<rparr>
              in if bbdd_sb_free_tail sb < extra_len then None
                 else Some (sb, Inr (bbdd_sb_end sb)))
      })"

definition bbdd_sb_get_buffer ::
  "allocator \<Rightarrow> bbdd_sb \<Rightarrow> u64 \<Rightarrow> (bbdd_sb \<times> (sb_error, u64) res) option"
where
  "bbdd_sb_get_buffer alloc sb extra_len =
     (if buf sb = None then sb_realloc alloc sb extra_len
      else if bbdd_sb_free_tail sb \<ge> extra_len then Some (sb, Inr (bbdd_sb_end sb))
      else let sb = bbdd_sb_compact sb
           in if bbdd_sb_free_tail sb \<ge> extra_len then Some (sb, Inr (bbdd_sb_end sb))
              else sb_realloc alloc sb extra_len)"

definition bbdd_sb_push_len ::
  "allocator \<Rightarrow> bbdd_sb \<Rightarrow> u8 list \<Rightarrow> (bbdd_sb \<times> (sb_error, unit) res) option"
where
  "bbdd_sb_push_len alloc sb xs = do {
     let n = of_nat (length xs);
     (sb, r) \<leftarrow> bbdd_sb_get_buffer alloc sb (n + 1);
     case r of
       Inl e \<Rightarrow> Some (sb, Inl e)
     | Inr space \<Rightarrow> do {
         b \<leftarrow> buf sb;
         b \<leftarrow> mem_write b (unat space) (xs @ [0]);
         Some (sb\<lparr>buf := Some b, len := len sb + n\<rparr>, Inr ())
       }
   }"

definition bbdd_sb_pull :: "bbdd_sb \<Rightarrow> u64 \<Rightarrow> bbdd_sb option" where
  "bbdd_sb_pull sb n =
     (if n \<le> len sb then Some (sb\<lparr>off := off sb + n, len := len sb - n\<rparr>) else None)"

definition zero_sb :: "u64 \<Rightarrow> bbdd_sb" where
  "zero_sb m = \<lparr>buf = None, off = 0, len = 0, size_of = 0, maxsize = m\<rparr>"

subsection \<open>The queue of bytes a buffer stands for\<close>

definition sb_bytes :: "bbdd_sb \<Rightarrow> u8 list" where
  "sb_bytes sb = take (unat (len sb)) (bbdd_sb_buf sb)"

definition sb_inv :: "bbdd_sb \<Rightarrow> bool" where
  "sb_inv sb \<longleftrightarrow>
     (case buf sb of
        None \<Rightarrow> off sb = 0 \<and> len sb = 0 \<and> size_of sb = 0
      | Some b \<Rightarrow> length b = unat (size_of sb) \<and> unat (off sb) + unat (len sb) \<le> length b)
     \<and> (maxsize sb \<noteq> 0 \<longrightarrow> size_of sb \<le> maxsize sb)"

text \<open>Below this many bytes the doubling loop cannot wrap around.\<close>

definition sb_room :: "bbdd_sb \<Rightarrow> nat \<Rightarrow> bool" where
  "sb_room sb n \<longleftrightarrow> unat (len sb) + n < 2 ^ 63"

lemma zero_sb_inv: "sb_inv (zero_sb m)" "sb_bytes (zero_sb m) = []"
  by (simp_all add: sb_inv_def zero_sb_def sb_bytes_def bbdd_sb_buf_def)

lemma zero_sb_max: "maxsize (zero_sb m) = m"
  by (simp add: zero_sb_def)

lemma zero_sb_room: "sb_room (zero_sb m) n \<longleftrightarrow> n < 2 ^ 63"
  by (simp add: sb_room_def zero_sb_def)

lemma length_sb_bytes: "sb_inv sb \<Longrightarrow> length (sb_bytes sb) = unat (len sb)"
  by (auto simp: sb_inv_def sb_bytes_def bbdd_sb_buf_def split: option.splits)

lemma sb_grow_unfold:
  "sb_grow n m = (if n < m then sb_grow (if n > 0 then n * 2 else BBDD_SB_MIN_SIZE) m else Some n)"
  by (rule sb_grow.simps)

lemma sb_grow_returns:
  assumes "unat needed \<le> 2 ^ 63"
  shows "\<exists>m. sb_grow n needed = Some m \<and> needed \<le> m \<and> n \<le> m"
proof (induction "unat needed - unat n" arbitrary: n rule: less_induct)
  case less
  show ?case
  proof (cases "n < needed")
    case False
    then show ?thesis by (subst sb_grow_unfold) auto
  next
    case True
    let ?n = "if n > 0 then n * 2 else BBDD_SB_MIN_SIZE"
    have lt: "unat n < unat needed" using True by (simp add: word_less_nat_alt)
    have "n < ?n"
    proof (cases "n > 0")
      case pos: True
      have "unat (n * 2) = unat n * 2" using lt assms by (subst unat_mult_no_wrap) auto
      moreover have "unat n > 0" using pos by (simp add: word_less_nat_alt)
      ultimately show ?thesis using pos by (simp add: word_less_nat_alt)
    qed (simp add: BBDD_SB_MIN_SIZE_def word_less_nat_alt word_gt_0)
    then have "unat needed - unat ?n < unat needed - unat n"
      using lt by (simp add: word_less_nat_alt)
    from less[OF this] obtain m where "sb_grow ?n needed = Some m" "needed \<le> m" "?n \<le> m" by blast
    moreover have "sb_grow n needed = sb_grow ?n needed" using True by (subst sb_grow_unfold) simp
    ultimately show ?thesis using \<open>n < ?n\<close> by (auto intro: less_imp_le order_trans)
  qed
qed

lemma compact_ok:
  assumes "sb_inv sb" and "buf sb \<noteq> None"
  shows "sb_inv (bbdd_sb_compact sb)" "sb_bytes (bbdd_sb_compact sb) = sb_bytes sb"
    "off (bbdd_sb_compact sb) = 0" "len (bbdd_sb_compact sb) = len sb"
    "size_of (bbdd_sb_compact sb) = size_of sb" "maxsize (bbdd_sb_compact sb) = maxsize sb"
    "buf (bbdd_sb_compact sb) \<noteq> None"
  using assms
  by (auto simp: sb_inv_def sb_bytes_def bbdd_sb_buf_def bbdd_sb_compact_def mem_move_front_def
      split: option.splits)

lemma free_tail_unat:
  assumes "sb_inv sb"
  shows "unat (bbdd_sb_end sb) = unat (off sb) + unat (len sb)"
    "unat (bbdd_sb_free_tail sb) = unat (size_of sb) - (unat (off sb) + unat (len sb))"
proof -
  have le: "unat (off sb) + unat (len sb) \<le> unat (size_of sb)"
    using assms by (auto simp: sb_inv_def split: option.splits)
  also have lt: "\<dots> < 2 ^ 64" using unsigned_less[of "size_of sb"] by simp
  finally show e: "unat (bbdd_sb_end sb) = unat (off sb) + unat (len sb)"
    unfolding bbdd_sb_end_def by (simp add: unat_add_no_wrap)
  have "bbdd_sb_end sb \<le> size_of sb" using le e by (simp add: word_le_nat_alt)
  then show "unat (bbdd_sb_free_tail sb) = unat (size_of sb) - (unat (off sb) + unat (len sb))"
    unfolding bbdd_sb_free_tail_def using e by (simp add: unat_sub_le)
qed

lemma length_mem_resize [simp]: "length (mem_resize b n f) = n"
  by (simp add: mem_resize_def)

lemma take_mem_resize: "k \<le> length b \<Longrightarrow> k \<le> n \<Longrightarrow> take k (mem_resize b n f) = take k b"
  by (rule nth_equalityI) (auto simp: mem_resize_def)

text \<open>What \<open>bbdd_sb_get_buffer\<close> promises: the contents are kept, and on success there
  is room for the requested bytes behind them.\<close>

definition room_result :: "allocator \<Rightarrow> bbdd_sb \<Rightarrow> u64 \<Rightarrow> bbdd_sb \<times> (sb_error, u64) res \<Rightarrow> bool" where
  "room_result alloc sb extra res \<longleftrightarrow>
     (let (sb', r) = res
      in sb_inv sb' \<and> sb_bytes sb' = sb_bytes sb \<and> len sb' = len sb \<and> maxsize sb' = maxsize sb
       \<and> (case r of
            Inl (Overflow n m) \<Rightarrow> maxsize sb \<noteq> 0 \<and> unat (maxsize sb) < unat (len sb) + unat extra
          | Inl (No_memory n) \<Rightarrow> alloc n = None
          | Inr p \<Rightarrow> (\<exists>b. buf sb' = Some b \<and> unat p = unat (off sb') + unat (len sb')
                       \<and> unat p + unat extra \<le> length b)))"

lemma room_resultI:
  assumes "sb_inv sb" and "buf sb \<noteq> None" and "extra \<le> bbdd_sb_free_tail sb"
    and "0 < extra"
  shows "room_result alloc sb extra (sb, Inr (bbdd_sb_end sb))"
  using assms free_tail_unat[OF assms(1)]
  by (auto simp: room_result_def sb_inv_def word_le_nat_alt word_less_nat_alt split: option.splits)

lemma sb_realloc_ok:
  assumes inv: "sb_inv sb" and off: "off sb = 0" and small: "unat (len sb) + unat extra \<le> 2 ^ 63"
    and "0 < extra" and full: "buf sb = None \<or> bbdd_sb_free_tail sb < extra"
  shows "\<exists>res. sb_realloc alloc sb extra = Some res \<and> room_result alloc sb extra res"
proof -
  define needed where "needed = len sb + extra"
  have n: "unat needed = unat (len sb) + unat extra"
    unfolding needed_def using small by (intro unat_add_no_wrap) simp
  obtain m where m: "sb_grow (size_of sb) needed = Some m" "needed \<le> m" "size_of sb \<le> m"
    using sb_grow_returns[of needed "size_of sb"] n small by auto
  have bigger: "size_of sb \<le> needed"
    using full inv free_tail_unat[OF inv] n off
    by (auto simp: sb_inv_def word_le_nat_alt word_less_nat_alt split: option.splits)
  define over where "over \<longleftrightarrow> maxsize sb \<noteq> 0 \<and> m > maxsize sb"
  define k where "k = (if over then maxsize sb else m)"
  show ?thesis
  proof (cases "k < needed")
    case True
    then have "over" using m(2) unfolding k_def by (auto split: if_splits)
    with True show ?thesis
      unfolding sb_realloc_def Let_def needed_def[symmetric] using off m inv n
      by (auto simp: over_def k_def room_result_def word_less_nat_alt)
  next
    case False
    then have le: "needed \<le> k" by simp
    show ?thesis
    proof (cases "alloc k")
      case None
      then show ?thesis
        unfolding sb_realloc_def Let_def needed_def[symmetric] using off m inv n False
        by (auto simp: over_def k_def room_result_def split: if_splits)
    next
      case (Some fresh)
      define b where "b = (case buf sb of None \<Rightarrow> [] | Some b \<Rightarrow> b)"
      define sb' where "sb' = sb\<lparr>buf := Some (mem_resize b (unat k) fresh), size_of := k\<rparr>"
      have lb: "unat (len sb) \<le> length b"
        using inv off by (auto simp: sb_inv_def b_def split: option.splits)
      have kn: "unat (len sb) + unat extra \<le> unat k" using le n by (simp add: word_le_nat_alt)
      have inv': "sb_inv sb'"
        using inv kn off by (auto simp: sb_inv_def sb'_def k_def over_def word_le_nat_alt word_less_nat_alt split: option.splits)
      have bytes: "sb_bytes sb' = sb_bytes sb"
        using inv kn off lb
        by (auto simp: sb_inv_def sb'_def sb_bytes_def bbdd_sb_buf_def b_def take_mem_resize split: option.splits)
      have tail: "extra \<le> bbdd_sb_free_tail sb'"
        using free_tail_unat[OF inv'] kn off by (simp add: sb'_def word_le_nat_alt)
      have "room_result alloc sb extra (sb', Inr (bbdd_sb_end sb'))"
        using room_resultI[OF inv' _ tail \<open>0 < extra\<close>] bytes by (simp add: room_result_def sb'_def)
      moreover have "sb_realloc alloc sb extra = Some (sb', Inr (bbdd_sb_end sb'))"
        unfolding sb_realloc_def Let_def needed_def[symmetric] using off m Some False tail
        by (simp add: over_def[symmetric] k_def[symmetric] sb'_def b_def)
      ultimately show ?thesis by blast
    qed
  qed
qed

lemma get_buffer_ok:
  assumes inv: "sb_inv sb" and small: "unat (len sb) + unat extra \<le> 2 ^ 63" and pos: "0 < extra"
  shows "\<exists>res. bbdd_sb_get_buffer alloc sb extra = Some res \<and> room_result alloc sb extra res"
proof (cases "buf sb")
  case None
  then have "off sb = 0" using inv by (simp add: sb_inv_def)
  with None show ?thesis
    using sb_realloc_ok[OF inv _ small pos] by (simp add: bbdd_sb_get_buffer_def)
next
  case (Some b)
  then have ne: "buf sb \<noteq> None" by simp
  let ?c = "bbdd_sb_compact sb"
  note c = compact_ok[OF inv ne]
  have room: "room_result alloc sb extra res" if "room_result alloc ?c extra res" for res
    using that c by (auto simp: room_result_def split: prod.splits sum.splits sb_error.splits)
  consider "extra \<le> bbdd_sb_free_tail sb" | "\<not> extra \<le> bbdd_sb_free_tail sb" "extra \<le> bbdd_sb_free_tail ?c"
    | "\<not> extra \<le> bbdd_sb_free_tail sb" "\<not> extra \<le> bbdd_sb_free_tail ?c" by blast
  then show ?thesis
  proof cases
    case 1
    then show ?thesis using room_resultI[OF inv ne _ pos] ne by (auto simp: bbdd_sb_get_buffer_def)
  next
    case 2
    then show ?thesis using room[OF room_resultI[OF c(1,7) _ pos]] ne
      by (auto simp: bbdd_sb_get_buffer_def Let_def)
  next
    case 3
    have "\<exists>res. sb_realloc alloc ?c extra = Some res \<and> room_result alloc ?c extra res"
      using sb_realloc_ok[OF c(1,3) _ pos] small c(4) 3 by (simp add: not_le)
    then show ?thesis using room 3 ne by (auto simp: bbdd_sb_get_buffer_def Let_def)
  qed
qed

text \<open>A push appends its bytes or changes nothing, and fails only for the limit or the
  allocator.\<close>

definition push_result :: "allocator \<Rightarrow> bbdd_sb \<Rightarrow> u8 list \<Rightarrow> bbdd_sb \<times> (sb_error, unit) res \<Rightarrow> bool" where
  "push_result alloc sb xs res \<longleftrightarrow>
     (let (sb', r) = res
      in sb_inv sb' \<and> maxsize sb' = maxsize sb
       \<and> (case r of
            Inl (Overflow n m) \<Rightarrow> sb_bytes sb' = sb_bytes sb \<and> maxsize sb \<noteq> 0
              \<and> unat (maxsize sb) < length (sb_bytes sb) + length xs + 1
          | Inl (No_memory n) \<Rightarrow> sb_bytes sb' = sb_bytes sb \<and> alloc n = None
          | Inr _ \<Rightarrow> sb_bytes sb' = sb_bytes sb @ xs \<and> bbdd_sb_buf sb' ! unat (len sb') = 0
              \<and> (maxsize sb = 0 \<or> length (sb_bytes sb) + length xs + 1 \<le> unat (maxsize sb))))"

lemma push_len_ok:
  assumes inv: "sb_inv sb" and room: "sb_room sb (length xs)"
  shows "\<exists>res. bbdd_sb_push_len alloc sb xs = Some res \<and> push_result alloc sb xs res"
proof -
  let ?n = "of_nat (length xs) :: u64"
  have n: "unat ?n = length xs"
    using room by (simp add: sb_room_def unat_of_nat)
  have n1: "unat (?n + 1) = length xs + 1"
    using room n by (subst unat_add_no_wrap) (auto simp: sb_room_def)
  then have pos: "0 < ?n + 1" by (simp add: word_less_nat_alt)
  have small: "unat (len sb) + unat (?n + 1) \<le> 2 ^ 63" using room n1 by (simp add: sb_room_def)
  obtain sb1 r where g: "bbdd_sb_get_buffer alloc sb (?n + 1) = Some (sb1, r)"
    and res: "room_result alloc sb (?n + 1) (sb1, r)"
    using get_buffer_ok[OF inv small pos, of alloc] by (metis surj_pair)
  have l: "length (sb_bytes sb) = unat (len sb)" by (rule length_sb_bytes[OF inv])
  show ?thesis
  proof (cases r)
    case (Inl e)
    then show ?thesis using g res n1 l
      by (cases e) (auto simp: bbdd_sb_push_len_def room_result_def push_result_def)
  next
    case (Inr p)
    then obtain b where b: "buf sb1 = Some b" "unat p = unat (off sb1) + unat (len sb1)"
        "unat p + length xs + 1 \<le> length b"
      using res n1 by (auto simp: room_result_def)
    have inv1: "sb_inv sb1" and m1: "len sb1 = len sb" "maxsize sb1 = maxsize sb" "sb_bytes sb1 = sb_bytes sb"
      using res by (auto simp: room_result_def)
    define b' where "b' = take (unat p) b @ (xs @ [0]) @ drop (unat p + length (xs @ [0])) b"
    define sb2 where "sb2 = sb1\<lparr>buf := Some b', len := len sb1 + ?n\<rparr>"
    have w: "mem_write b (unat p) (xs @ [0]) = Some b'"
      using b(3) by (simp add: mem_write_def b'_def)
    have lb: "length b' = length b" using b(3) by (simp add: b'_def)
    have l2: "unat (len sb1 + ?n) = unat (len sb1) + length xs"
      using room n m1 by (subst unat_add_no_wrap) (auto simp: sb_room_def)
    have inv2: "sb_inv sb2"
      using inv1 b lb l2 by (auto simp: sb_inv_def sb2_def)
    have d: "drop (unat (off sb1)) b' = sb_bytes sb1 @ xs @ [0] @ drop (unat p + length (xs @ [0])) b"
      using b by (simp add: b'_def sb_bytes_def bbdd_sb_buf_def drop_take)
    have l1: "length (sb_bytes sb1) = unat (len sb1)" by (rule length_sb_bytes[OF inv1])
    have buf2: "bbdd_sb_buf sb2 = sb_bytes sb @ xs @ [0] @ drop (unat p + length (xs @ [0])) b"
      using d m1 by (simp add: bbdd_sb_buf_def sb2_def)
    have len2: "unat (len sb2) = length (sb_bytes sb) + length xs"
      using l1 l2 m1 by (simp add: sb2_def)
    have bytes: "sb_bytes sb2 = sb_bytes sb @ xs"
      unfolding sb_bytes_def[of sb2] buf2 len2 by simp
    have nul: "bbdd_sb_buf sb2 ! unat (len sb2) = 0"
      unfolding buf2 len2 by (simp add: nth_append)
    have "maxsize sb = 0 \<or> length (sb_bytes sb) + length xs + 1 \<le> unat (maxsize sb)"
      using inv1 b l m1 by (auto simp: sb_inv_def word_le_nat_alt)
    moreover have "bbdd_sb_push_len alloc sb xs = Some (sb2, Inr ())"
      using g Inr b(1) w by (simp add: bbdd_sb_push_len_def sb2_def)
    ultimately show ?thesis using inv2 m1 bytes nul by (auto simp: push_result_def sb2_def)
  qed
qed

lemma pull_ok:
  assumes inv: "sb_inv sb" and n: "unat n \<le> length (sb_bytes sb)"
  shows "\<exists>sb'. bbdd_sb_pull sb n = Some sb' \<and> sb_inv sb' \<and> sb_bytes sb' = drop (unat n) (sb_bytes sb)
    \<and> maxsize sb' = maxsize sb"
proof -
  have le: "n \<le> len sb" using n length_sb_bytes[OF inv] by (simp add: word_le_nat_alt)
  have "unat (off sb) + unat (len sb) < 2 ^ 64"
    using inv unat_u64_less[of "size_of sb"] by (auto simp: sb_inv_def split: option.splits)
  then have o: "unat (off sb + n) = unat (off sb) + unat n"
    using le by (intro unat_add_no_wrap) (simp add: word_le_nat_alt)
  have l: "unat (len sb - n) = unat (len sb) - unat n" using le by (rule unat_sub_le)
  show ?thesis
  proof (cases "buf sb")
    case None
    then have "n = 0" "len sb = 0" using inv le by (auto simp: sb_inv_def word_le_nat_alt unsigned_eq_0_iff)
    then show ?thesis using inv None by (simp add: bbdd_sb_pull_def sb_inv_def sb_bytes_def bbdd_sb_buf_def)
  next
    case (Some b)
    then show ?thesis
      using inv le o l
      by (auto simp: bbdd_sb_pull_def sb_inv_def sb_bytes_def bbdd_sb_buf_def word_le_nat_alt drop_take add.commute)
  qed
qed

lemma pull_too_much: "unat n > unat (len sb) \<Longrightarrow> bbdd_sb_pull sb n = None"
  by (simp add: bbdd_sb_pull_def word_le_nat_alt)

subsection \<open>The contract of the buffer\<close>

text \<open>What a client relies on: below \<open>limit\<close> bytes a push is answered, appends its bytes
  or fails and changes nothing, and a pull of no more than there is removes bytes at
  the front.\<close>

datatype q_op = Push "u8 list" | Pull nat

text \<open>A history of a queue: what the pushes that succeeded put in and what the pulls
  took out, a pull taking no more than there is.\<close>

fun q_run ::
  "('s \<Rightarrow> u8 list) \<Rightarrow> ('s \<Rightarrow> u8 list \<Rightarrow> ('s \<times> ('e, unit) res) option) \<Rightarrow> ('s \<Rightarrow> u64 \<Rightarrow> 's option)
   \<Rightarrow> q_op list \<Rightarrow> 's \<Rightarrow> ('s \<times> u8 list \<times> u8 list) option"
where
  "q_run bytes push pull [] s = Some (s, [], [])"
| "q_run bytes push pull (Push xs # ops) s = do {
     (s, r) \<leftarrow> push s xs;
     (s, a, t) \<leftarrow> q_run bytes push pull ops s;
     Some (s, (if isl r then a else xs @ a), t)
   }"
| "q_run bytes push pull (Pull n # ops) s = do {
     let k = min n (length (bytes s));
     s' \<leftarrow> pull s (of_nat k);
     (s', a, t) \<leftarrow> q_run bytes push pull ops s';
     Some (s', a, take k (bytes s) @ t)
   }"

fun q_pushed :: "q_op list \<Rightarrow> nat" where
  "q_pushed [] = 0"
| "q_pushed (Push xs # ops) = length xs + q_pushed ops"
| "q_pushed (Pull n # ops) = q_pushed ops"

locale byte_queue =
  fixes ok :: "'s \<Rightarrow> bool" and bytes :: "'s \<Rightarrow> u8 list"
    and push :: "'s \<Rightarrow> u8 list \<Rightarrow> ('s \<times> ('e, unit) res) option" and pull :: "'s \<Rightarrow> u64 \<Rightarrow> 's option"
    and limit :: nat
  assumes limit_word: "limit \<le> 2 ^ 64"
    and push_law: "ok s \<Longrightarrow> length (bytes s) + length xs < limit \<Longrightarrow>
      \<exists>s' r. push s xs = Some (s', r) \<and> ok s' \<and> bytes s' = (if isl r then bytes s else bytes s @ xs)"
    and pull_law: "ok s \<Longrightarrow> unat n \<le> length (bytes s) \<Longrightarrow>
      \<exists>s'. pull s n = Some s' \<and> ok s' \<and> bytes s' = drop (unat n) (bytes s)"
begin

lemma run_fifo:
  assumes "ok s" and "length (bytes s) + q_pushed ops < limit"
  shows "\<exists>s' a t. q_run bytes push pull ops s = Some (s', a, t) \<and> ok s' \<and> bytes s @ a = t @ bytes s'"
  using assms
proof (induction ops arbitrary: s)
  case (Cons op ops)
  show ?case
  proof (cases op)
    case (Push xs)
    with Cons.prems obtain s1 r where s1: "push s xs = Some (s1, r)" "ok s1"
        "bytes s1 = (if isl r then bytes s else bytes s @ xs)"
      using push_law[of s xs] by fastforce
    moreover have "length (bytes s1) + q_pushed ops < limit"
      using Cons.prems Push s1(3) by (simp split: if_splits)
    ultimately show ?thesis
      using Cons.IH[of s1] Push by (fastforce split: if_splits)
  next
    case (Pull n)
    define k where "k = min n (length (bytes s))"
    have kw: "unat (of_nat k :: u64) = k"
      using Cons.prems limit_word by (simp add: k_def unat_of_nat)
    then obtain s1 where s1: "pull s (of_nat k) = Some s1" "ok s1" "bytes s1 = drop k (bytes s)"
      using pull_law[of s "of_nat k"] Cons.prems by (auto simp: k_def)
    then obtain s2 a t where r: "q_run bytes push pull ops s1 = Some (s2, a, t)" "ok s2"
        "bytes s1 @ a = t @ bytes s2"
      using Cons.IH[of s1] Cons.prems Pull by fastforce
    have "bytes s @ a = (take k (bytes s) @ t) @ bytes s2"
      using r(3) s1(3) by (metis append.assoc append_take_drop_id)
    then show ?thesis using r s1 Pull by (simp add: k_def[symmetric] Let_def)
  qed
qed simp

end

lemma push_result_bytes: "push_result alloc sb xs (sb', r) \<Longrightarrow>
    sb_inv sb' \<and> sb_bytes sb' = (if isl r then sb_bytes sb else sb_bytes sb @ xs)"
  by (auto simp: push_result_def split: sum.splits sb_error.splits)

interpretation sb: byte_queue sb_inv sb_bytes "bbdd_sb_push_len alloc" bbdd_sb_pull "2 ^ 63"
proof
  show "\<exists>s' r. bbdd_sb_push_len alloc s xs = Some (s', r) \<and> sb_inv s'
      \<and> sb_bytes s' = (if isl r then sb_bytes s else sb_bytes s @ xs)"
    if inv: "sb_inv s" and small: "length (sb_bytes s) + length xs < 2 ^ 63" for s xs
  proof -
    have room: "sb_room s (length xs)" using small length_sb_bytes[OF inv] by (simp add: sb_room_def)
    obtain s' r where "bbdd_sb_push_len alloc s xs = Some (s', r)" "push_result alloc s xs (s', r)"
      using push_len_ok[OF inv room] by (metis surj_pair)
    then show ?thesis using push_result_bytes by blast
  qed
  show "\<exists>s'. bbdd_sb_pull s n = Some s' \<and> sb_inv s' \<and> sb_bytes s' = drop (unat n) (sb_bytes s)"
    if "sb_inv s" "unat n \<le> length (sb_bytes s)" for s n
    using pull_ok[OF that] by blast
qed simp

text \<open>C29. The stream buffer is a queue of bytes: over any sequence of pushes and pulls that
  stays below two to the sixty-three bytes, nothing aborts, and what was taken out
  followed by what is still there is what was there followed by what the successful
  pushes put in, however often the buffer was moved, grown or refused to grow.\<close>

theorem stream_buffer_fifo:
  assumes "sb_inv sb" and "length (sb_bytes sb) + q_pushed ops < 2 ^ 63"
  shows "\<exists>sb' a t. q_run sb_bytes (bbdd_sb_push_len alloc) bbdd_sb_pull ops sb = Some (sb', a, t)
    \<and> sb_inv sb' \<and> sb_bytes sb @ a = t @ sb_bytes sb'"
  by (rule sb.run_fifo[OF assms])

theorem stream_buffer_fifo_witness:
  "\<exists>sb' a t. q_run sb_bytes (bbdd_sb_push_len (\<lambda>_. Some (\<lambda>_. 7))) bbdd_sb_pull
      [Push [1, 2, 3], Pull 2, Push [4]] (zero_sb 0) = Some (sb', a, t)
    \<and> sb_inv sb' \<and> sb_bytes (zero_sb 0) @ a = t @ sb_bytes sb'"
  by (rule stream_buffer_fifo) (simp_all add: zero_sb_inv)

text \<open>The limit of a stream buffer is exact: with an allocator that never fails, a push
  fails exactly when the bytes in the buffer, the new ones and the terminating zero
  exceed the limit, the allocation never exceeds it, and a failed push keeps the
  contents.\<close>

theorem stream_buffer_limit:
  assumes "sb_inv sb" and "sb_room sb (length xs)" and "\<And>n. alloc n \<noteq> None" and "maxsize sb \<noteq> 0"
    and "bbdd_sb_push_len alloc sb xs = Some (sb', r)"
  shows "(isl r \<longleftrightarrow> unat (maxsize sb) < length (sb_bytes sb) + length xs + 1)
    \<and> size_of sb' \<le> maxsize sb \<and> (isl r \<longrightarrow> sb_bytes sb' = sb_bytes sb)"
  using push_len_ok[OF assms(1,2), of alloc] assms(4,5) assms(3)[of "case r of Inl (No_memory n) \<Rightarrow> n | _ \<Rightarrow> 0"]
  by (auto simp: push_result_def sb_inv_def split: sum.splits sb_error.splits)

theorem stream_buffer_limit_witness:
  "isl (snd (the (bbdd_sb_push_len (\<lambda>_. Some (\<lambda>_. 7)) (zero_sb 2) [1, 2]))) \<longleftrightarrow>
     unat (2 :: u64) < length (sb_bytes (zero_sb 2)) + length [1 :: u8, 2] + 1"
proof -
  obtain sb' r where p: "bbdd_sb_push_len (\<lambda>_. Some (\<lambda>_. 7)) (zero_sb 2) [1, 2] = Some (sb', r)"
    using push_len_ok[of "zero_sb 2" "[1, 2]" "\<lambda>_. Some (\<lambda>_. 7)"]
    by (auto simp: zero_sb_inv zero_sb_room)
  then show ?thesis
    using stream_buffer_limit[OF _ _ _ _ p] by (simp add: zero_sb_inv zero_sb_room zero_sb_max)
qed

end
