(* ===== verification/Stream_Peer.thy ===== *)
theory Stream_Peer
  imports Stream_Buf
begin

text \<open>
  The stream peers (\<open>bbdd-ssk.c\<close>) and the two tokenizers that cut a stream into
  messages (\<open>bbdd-util.c\<close>).  The state behind the callbacks is an argument \<open>'w\<close>; a
  callback may abort (\<open>None\<close>) and otherwise says whether it returned zero.  The JSON
  tokenizer of json-c is a parameter, as are the outcomes of \<open>recv\<close> and \<open>send\<close>.  The
  theory shows that the \<open>bfddp\<close> tokenizer delivers the same messages however the
  stream is cut into chunks, that the JSON loop ends, and that a peer sends what was
  queued, in order.
\<close>

subsection \<open>The bfddp tokenizer\<close>

definition BFDDP_HEADER :: u64 where
  "BFDDP_HEADER = 8"

text \<open>\<open>bbdd_ntoh16(msg->header.length)\<close>: bytes six and seven, the high one first.\<close>

definition bfddp_length :: "u8 list \<Rightarrow> u64" where
  "bfddp_length msg = of_nat (unat (msg ! 6) * 256 + unat (msg ! 7))"

datatype tkn_error = Push_failed sb_error | Too_short u64 | Callback_failed

type_synonym 'w msg_cb = "u8 list \<Rightarrow> 'w \<Rightarrow> (bool \<times> 'w) option"

partial_function (option) bfddp_loop ::
  "'w msg_cb \<Rightarrow> bbdd_sb \<Rightarrow> 'w \<Rightarrow> (bbdd_sb \<times> 'w \<times> (tkn_error, unit) res) option"
where
  "bfddp_loop obj_cb sb w =
     (if bbdd_sb_len sb < BFDDP_HEADER then Some (sb, w, Inr ())
      else let msg = bbdd_sb_buf sb; msg_len = bfddp_length msg
           in if msg_len < BFDDP_HEADER then Some (sb, w, Inl (Too_short msg_len))
              else if bbdd_sb_len sb < msg_len then Some (sb, w, Inr ())
              else do {
                (ok, w) \<leftarrow> obj_cb (take (unat msg_len) msg) w;
                sb \<leftarrow> bbdd_sb_pull sb msg_len;
                if ok then bfddp_loop obj_cb sb w else Some (sb, w, Inl Callback_failed)
              })"

definition bbdd_util_ssk_bfddp_tkn_rx_cb ::
  "allocator \<Rightarrow> 'w msg_cb \<Rightarrow> bbdd_sb \<Rightarrow> u8 list \<Rightarrow> 'w \<Rightarrow> (bbdd_sb \<times> 'w \<times> (tkn_error, unit) res) option"
where
  "bbdd_util_ssk_bfddp_tkn_rx_cb alloc obj_cb sb chunk w = do {
     (sb, r) \<leftarrow> bbdd_sb_push_len alloc sb chunk;
     case r of Inl e \<Rightarrow> Some (sb, w, Inl (Push_failed e)) | Inr _ \<Rightarrow> bfddp_loop obj_cb sb w
   }"

text \<open>The reference: cutting a list of bytes.  It returns what is left over.\<close>

function frames :: "'w msg_cb \<Rightarrow> u8 list \<Rightarrow> 'w \<Rightarrow> (u8 list \<times> 'w \<times> (tkn_error, unit) res) option" where
  "frames cb xs w =
     (if length xs < 8 then Some (xs, w, Inr ())
      else let n = unat (bfddp_length xs)
           in if n < 8 then Some (xs, w, Inl (Too_short (bfddp_length xs)))
              else if length xs < n then Some (xs, w, Inr ())
              else (case cb (take n xs) w of
                  None \<Rightarrow> None
                | Some (ok, w) \<Rightarrow> if ok then frames cb (drop n xs) w
                                else Some (drop n xs, w, Inl Callback_failed)))"
  by auto
termination by (relation "measure (\<lambda>(cb, xs, w). length xs)") auto

declare frames.simps [simp del]

text \<open>A sequence of received chunks, up to the first error.\<close>

fun feed ::
  "allocator \<Rightarrow> 'w msg_cb \<Rightarrow> u8 list list \<Rightarrow> bbdd_sb \<Rightarrow> 'w \<Rightarrow> (bbdd_sb \<times> 'w \<times> (tkn_error, unit) res) option"
where
  "feed alloc cb [] sb w = Some (sb, w, Inr ())"
| "feed alloc cb (c # cs) sb w = do {
     (sb, w, r) \<leftarrow> bbdd_util_ssk_bfddp_tkn_rx_cb alloc cb sb c w;
     case r of Inl e \<Rightarrow> Some (sb, w, Inl e) | Inr _ \<Rightarrow> feed alloc cb cs sb w
   }"

lemma bfddp_length_unat: "unat (bfddp_length xs) = unat (xs ! 6) * 256 + unat (xs ! 7)"
proof -
  have "unat (xs ! 6) * 256 + unat (xs ! 7) < 2 ^ 64"
    using unat_u8_less[of "xs ! 6"] unat_u8_less[of "xs ! 7"] by simp
  then show ?thesis unfolding bfddp_length_def by (simp only: unat_of_nat) simp
qed

lemma bfddp_length_less: "unat (bfddp_length xs) < 65536"
  using unat_u8_less[of "xs ! 6"] unat_u8_less[of "xs ! 7"] by (simp add: bfddp_length_unat)

lemma bfddp_length_cong: "8 \<le> length xs \<Longrightarrow> bfddp_length (xs @ ys) = bfddp_length xs"
  by (simp add: bfddp_length_def nth_append)

lemma bfddp_length_take: "8 \<le> n \<Longrightarrow> bfddp_length (take n xs) = bfddp_length xs"
  by (simp add: bfddp_length_def)

lemma frames_append:
  "(frames cb xs w = None \<longrightarrow> frames cb (xs @ ys) w = None)
   \<and> (\<forall>rest w'. frames cb xs w = Some (rest, w', Inr ()) \<longrightarrow> frames cb (xs @ ys) w = frames cb (rest @ ys) w')
   \<and> (\<forall>rest w' e. frames cb xs w = Some (rest, w', Inl e) \<longrightarrow> frames cb (xs @ ys) w = Some (rest @ ys, w', Inl e))"
proof (induction cb xs w rule: frames.induct)
  case (1 cb xs w)
  define n where "n = unat (bfddp_length xs)"
  consider "length xs < 8" | "8 \<le> length xs" "n < 8" | "8 \<le> length xs" "8 \<le> n" "length xs < n"
    | "8 \<le> length xs" "8 \<le> n" "n \<le> length xs" by linarith
  then show ?case
  proof cases
    case 4
    have e: "frames cb (xs @ zs) w = (case cb (take n xs) w of None \<Rightarrow> None
        | Some (ok, w) \<Rightarrow> if ok then frames cb (drop n xs @ zs) w
                         else Some (drop n xs @ zs, w, Inl Callback_failed))" for zs
      using 4 by (subst frames.simps) (simp add: bfddp_length_cong n_def[symmetric] Let_def split: option.split)
    show ?thesis
      using 1[of n] 4 e[of ys] e[of "[]"] by (auto simp: n_def[symmetric] split: option.splits)
  next
    case 2
    then show ?thesis
      using bfddp_length_cong[of xs ys] by (auto simp: frames.simps[of cb xs] frames.simps[of cb "xs @ ys"] n_def Let_def)
  qed (auto simp: frames.simps[of cb xs] n_def Let_def)
qed

lemma frames_rest: "frames cb xs w = Some (rest, w', Inr ()) \<Longrightarrow> length rest < 65536"
proof (induction cb xs w rule: frames.induct)
  case (1 cb xs w)
  then show ?case
    using bfddp_length_less[of xs] unfolding frames.simps[of cb xs]
    by (auto simp: Let_def split: if_splits option.splits)
qed

lemma bfddp_loop_frames:
  assumes "sb_inv sb"
  shows "case bfddp_loop cb sb w of
      None \<Rightarrow> frames cb (sb_bytes sb) w = None
    | Some (sb', w', r) \<Rightarrow> frames cb (sb_bytes sb) w = Some (sb_bytes sb', w', r) \<and> sb_inv sb'
        \<and> maxsize sb' = maxsize sb"
  using assms
proof (induction "length (sb_bytes sb)" arbitrary: sb w rule: less_induct)
  case less
  have l: "length (sb_bytes sb) = unat (len sb)" by (rule length_sb_bytes[OF less.prems])
  have tk: "take n (sb_bytes sb) = take n (bbdd_sb_buf sb)" if "n \<le> unat (len sb)" for n
    using that by (simp add: sb_bytes_def min_absorb1)
  have h: "bfddp_length (bbdd_sb_buf sb) = bfddp_length (sb_bytes sb)" if "8 \<le> unat (len sb)"
    using that by (simp add: sb_bytes_def bfddp_length_take)
  let ?n = "bfddp_length (sb_bytes sb)"
  note step = bfddp_loop.simps[of cb sb w] frames.simps[of cb "sb_bytes sb" w]
  consider "unat (len sb) < 8" | "8 \<le> unat (len sb)" "unat ?n < 8"
    | "8 \<le> unat (len sb)" "8 \<le> unat ?n" "unat (len sb) < unat ?n"
    | "8 \<le> unat (len sb)" "8 \<le> unat ?n" "unat ?n \<le> unat (len sb)" by linarith
  then show ?case
  proof cases
    case 4
    obtain sb1 where p: "bbdd_sb_pull sb ?n = Some sb1" "sb_inv sb1" "sb_bytes sb1 = drop (unat ?n) (sb_bytes sb)"
        "maxsize sb1 = maxsize sb"
      using pull_ok[OF less.prems, of ?n] l 4 by auto
    have shorter: "length (sb_bytes sb1) < length (sb_bytes sb)" using p(3) l 4 by simp
    show ?thesis
    proof (cases "cb (take (unat ?n) (sb_bytes sb)) w")
      case None
      then show ?thesis unfolding step
        using 4 l by (simp add: bbdd_sb_len_def BFDDP_HEADER_def word_less_nat_alt Let_def h tk)
    next
      case (Some okw)
      obtain ok w1 where okw: "okw = (ok, w1)" by (cases okw)
      have "bfddp_loop cb sb w = (if ok then bfddp_loop cb sb1 w1 else Some (sb1, w1, Inl Callback_failed))"
        unfolding step(1) using 4 Some okw p(1) tk[of "unat ?n"]
        by (simp add: bbdd_sb_len_def BFDDP_HEADER_def word_less_nat_alt Let_def h)
      moreover have "frames cb (sb_bytes sb) w =
          (if ok then frames cb (sb_bytes sb1) w1 else Some (sb_bytes sb1, w1, Inl Callback_failed))"
        unfolding step(2) using 4 l Some okw p(3) by (simp add: Let_def)
      ultimately show ?thesis
        using less.hyps[OF shorter p(2), of w1] p by (auto split: option.splits)
    qed
  qed (use less.prems l in \<open>simp_all add: step bbdd_sb_len_def BFDDP_HEADER_def word_less_nat_alt Let_def h\<close>)
qed

text \<open>The limit of a buffer that never stands in the way: a message less one byte, a
  chunk and the terminating zero.\<close>

definition limit_ok :: "bbdd_sb \<Rightarrow> bool" where
  "limit_ok sb \<longleftrightarrow> maxsize sb = 0 \<or> 66560 \<le> unat (maxsize sb)"

lemma rx_cb_frames:
  assumes inv: "sb_inv sb" and short: "length (sb_bytes sb) < 65536" and c: "length c \<le> 1024"
    and "limit_ok sb" and alloc: "\<And>n. alloc n \<noteq> None"
  shows "case bbdd_util_ssk_bfddp_tkn_rx_cb alloc cb sb c w of
      None \<Rightarrow> frames cb (sb_bytes sb @ c) w = None
    | Some (sb', w', r) \<Rightarrow> frames cb (sb_bytes sb @ c) w = Some (sb_bytes sb', w', r) \<and> sb_inv sb'
        \<and> maxsize sb' = maxsize sb"
proof -
  have room: "sb_room sb (length c)"
    using short c length_sb_bytes[OF inv] by (simp add: sb_room_def)
  obtain sb1 r where p: "bbdd_sb_push_len alloc sb c = Some (sb1, r)" "push_result alloc sb c (sb1, r)"
    using push_len_ok[OF inv room] by (metis surj_pair)
  have r: "r = Inr ()"
    using p(2) short c \<open>limit_ok sb\<close> alloc[of "case r of Inl (No_memory n) \<Rightarrow> n | _ \<Rightarrow> 0"]
    by (auto simp: push_result_def limit_ok_def split: sum.splits sb_error.splits)
  have sb1: "sb_inv sb1" "sb_bytes sb1 = sb_bytes sb @ c" "maxsize sb1 = maxsize sb"
    using p(2) r by (auto simp: push_result_def)
  show ?thesis
    using bfddp_loop_frames[OF sb1(1), of cb w] sb1 p(1) r
    by (auto simp: bbdd_util_ssk_bfddp_tkn_rx_cb_def split: option.splits)
qed

lemma feed_frames:
  assumes "sb_inv sb" and "length (sb_bytes sb) < 65536" and "\<forall>c \<in> set cs. length c \<le> 1024"
    and "limit_ok sb" and "\<And>n. alloc n \<noteq> None"
    and "frames cb (sb_bytes sb) w = Some (sb_bytes sb, w, Inr ())"
  shows "case feed alloc cb cs sb w of
      None \<Rightarrow> frames cb (sb_bytes sb @ concat cs) w = None
    | Some (sb', w', r) \<Rightarrow> \<exists>rest. frames cb (sb_bytes sb @ concat cs) w = Some (rest, w', r)
        \<and> (r = Inr () \<longrightarrow> rest = sb_bytes sb')"
  using assms(1-4,6)
proof (induction cs arbitrary: sb w)
  case (Cons c cs)
  have rx: "case bbdd_util_ssk_bfddp_tkn_rx_cb alloc cb sb c w of
      None \<Rightarrow> frames cb (sb_bytes sb @ c) w = None
    | Some (sb', w', r) \<Rightarrow> frames cb (sb_bytes sb @ c) w = Some (sb_bytes sb', w', r) \<and> sb_inv sb'
        \<and> maxsize sb' = maxsize sb"
    using rx_cb_frames[of sb c alloc cb w] Cons.prems assms(5) by simp
  note app = frames_append[of cb "sb_bytes sb @ c" w "concat cs"]
  show ?case
  proof (cases "bbdd_util_ssk_bfddp_tkn_rx_cb alloc cb sb c w")
    case None
    then show ?thesis using rx app by simp
  next
    case (Some a)
    obtain sb1 w1 r where a: "a = (sb1, w1, r)" by (metis surj_pair)
    with Some rx have f: "frames cb (sb_bytes sb @ c) w = Some (sb_bytes sb1, w1, r)" "sb_inv sb1"
        "maxsize sb1 = maxsize sb" by auto
    show ?thesis
    proof (cases r)
      case (Inl e)
      then show ?thesis using f(1) app Some a by simp
    next
      case (Inr u)
      then have r: "r = Inr ()" by simp
      have "frames cb (sb_bytes sb1) w1 = Some (sb_bytes sb1, w1, Inr ())"
        using f(1) frames_append[of cb "sb_bytes sb @ c" w "[]"] r by simp
      moreover have "length (sb_bytes sb1) < 65536" using frames_rest[of cb "sb_bytes sb @ c" w "sb_bytes sb1" w1] f(1) r by simp
      moreover have "limit_ok sb1" using Cons.prems(4) f(3) by (simp add: limit_ok_def)
      ultimately have "case feed alloc cb cs sb1 w1 of
          None \<Rightarrow> frames cb (sb_bytes sb1 @ concat cs) w1 = None
        | Some (sb', w', r) \<Rightarrow> \<exists>rest. frames cb (sb_bytes sb1 @ concat cs) w1 = Some (rest, w', r)
            \<and> (r = Inr () \<longrightarrow> rest = sb_bytes sb')"
        using Cons.IH[of sb1 w1] Cons.prems(3) f(2) by simp
      moreover have "frames cb (sb_bytes sb @ c @ concat cs) w = frames cb (sb_bytes sb1 @ concat cs) w1"
        using app f(1) r by simp
      ultimately show ?thesis using Some a r by (auto split: option.splits)
    qed
  qed
qed simp

lemma feed_fresh:
  assumes "m = 0 \<or> 66560 \<le> unat m" and "\<forall>c \<in> set cs. length c \<le> 1024" and "\<And>n. alloc n \<noteq> None"
  shows "case feed alloc cb cs (zero_sb m) w of
      None \<Rightarrow> frames cb (concat cs) w = None
    | Some (sb', w', r) \<Rightarrow> \<exists>rest. frames cb (concat cs) w = Some (rest, w', r)
        \<and> (r = Inr () \<longrightarrow> rest = sb_bytes sb')"
  using feed_frames[of "zero_sb m" cs alloc cb w] assms
  unfolding zero_sb_inv append_Nil
  by (simp add: zero_sb_inv zero_sb_max limit_ok_def frames.simps[of cb "[]"])

text \<open>C30. The messages the \<open>bfddp\<close> tokenizer delivers do not depend on how the stream is cut
  into received chunks: from a fresh tokenizer with no limit, or with a limit of at
  least 66560 bytes, the callback runs on exactly the messages of the concatenated
  stream, in order, with the same result, and the loop ends; what is kept for the
  next chunk is the incomplete rest.\<close>

theorem bfddp_chunking:
  assumes "m = 0 \<or> 66560 \<le> unat m" and "\<forall>c \<in> set cs. length c \<le> 1024" and "\<And>n. alloc n \<noteq> None"
  shows "case feed alloc cb cs (zero_sb m) w of
      None \<Rightarrow> frames cb (concat cs) w = None
    | Some (sb', w', r) \<Rightarrow> \<exists>rest. frames cb (concat cs) w = Some (rest, w', r)
        \<and> (r = Inr () \<longrightarrow> rest = sb_bytes sb')"
  by (rule feed_fresh[OF assms])

theorem bfddp_chunking_witness:
  "case feed (\<lambda>_. Some (\<lambda>_. 0)) (\<lambda>msg w. Some (True, w @ [msg])) [[1, 0, 0, 1, 0], [0, 0, 9, 5, 1]] (zero_sb 0) [] of
      None \<Rightarrow> False
    | Some (sb', w', r) \<Rightarrow> w' = [[1, 0, 0, 1, 0, 0, 0, 9, 5]] \<and> (r = Inr () \<longrightarrow> sb_bytes sb' = [1])"
proof -
  have "frames (\<lambda>msg w. Some (True, w @ [msg])) (concat [[1, 0, 0, 1, 0], [0, 0, 9, 5, 1]]) []
    = Some ([1], [[1, 0, 0, 1, 0, 0, 0, 9, 5]], Inr ())"
    by (simp add: frames.simps bfddp_length_def)
  then show ?thesis
    using bfddp_chunking[of 0 "[[1, 0, 0, 1, 0], [0, 0, 9, 5, 1]]" "\<lambda>_. Some (\<lambda>_. 0)"
        "\<lambda>msg w. Some (True, w @ [msg])" "[]"]
    by (auto split: option.splits)
qed

subsection \<open>The JSON tokenizer\<close>

text \<open>\<open>json_tokener\<close> is a parameter: \<open>parse\<close> is \<open>json_tokener_parse_ex\<close> with the error and the
  parse end read afterwards, \<open>reset\<close> is \<open>json_tokener_reset\<close>.\<close>

datatype 'o json_outcome = Json_value "'o option" | Json_continue | Json_error

record ('t, 'o) json_tokener =
  parse :: "'t \<Rightarrow> u8 list \<Rightarrow> 't \<times> 'o json_outcome \<times> nat"
  reset :: "'t \<Rightarrow> 't"

record 't json_tkn =
  tok :: 't
  buffered :: u64
  stream_maxbuf :: u64

datatype json_error = Json_overflow | Json_parse_error | Json_callback_failed

definition bbdd_util_ssk_json_tkn_reset :: "('t, 'o) json_tokener \<Rightarrow> 't json_tkn \<Rightarrow> 't json_tkn" where
  "bbdd_util_ssk_json_tkn_reset J tkn = tkn\<lparr>tok := reset J (tok tkn), buffered := 0\<rparr>"

definition bbdd_util_jrpc_tokenize ::
  "('t, 'o) json_tokener \<Rightarrow> 't json_tkn \<Rightarrow> u8 list \<Rightarrow> ('t json_tkn \<times> u8 list \<times> 'o json_outcome) option"
where
  "bbdd_util_jrpc_tokenize J tkn str =
     (let (t, out, consumed) = parse J (tok tkn) str
      in if consumed > length str then None
         else let tkn = tkn\<lparr>tok := t, buffered := buffered tkn + of_nat consumed\<rparr>
              in Some (case out of Json_value _ \<Rightarrow> bbdd_util_ssk_json_tkn_reset J tkn | _ \<Rightarrow> tkn,
                       drop consumed str, out))"

partial_function (option) json_rx ::
  "('t, 'o) json_tokener \<Rightarrow> ('o option \<Rightarrow> 'w \<Rightarrow> (bool \<times> 'w) option) \<Rightarrow> ('w \<Rightarrow> (bool \<times> 'w) option) option
   \<Rightarrow> 't json_tkn \<Rightarrow> u8 list \<Rightarrow> 'w \<Rightarrow> ('t json_tkn \<times> 'w \<times> (json_error, unit) res) option"
where
  "json_rx J obj_cb err_cb tkn str w =
     (if str = [] then Some (tkn, w, Inr ())
      else if stream_maxbuf tkn \<noteq> 0 \<and> buffered tkn + of_nat (length str) > stream_maxbuf tkn
      then Some (tkn, w, Inl Json_overflow)
      else do {
        (tkn, str, out) \<leftarrow> bbdd_util_jrpc_tokenize J tkn str;
        case out of
          Json_error \<Rightarrow>
            (case err_cb of
               None \<Rightarrow> Some (tkn, w, Inl Json_parse_error)
             | Some f \<Rightarrow> do {
                 (ok, w) \<leftarrow> f w;
                 if \<not> ok then Some (tkn, w, Inl Json_callback_failed)
                 else json_rx J obj_cb err_cb (bbdd_util_ssk_json_tkn_reset J tkn) (drop 1 str) w
               })
        | Json_continue \<Rightarrow> if str \<noteq> [] then None else Some (tkn, w, Inr ())
        | Json_value obj \<Rightarrow> do {
            (ok, w) \<leftarrow> obj_cb obj w;
            if \<not> ok then Some (tkn, w, Inl Json_callback_failed)
            else json_rx J obj_cb err_cb tkn str w
          }
      })"

text \<open>What the loop relies on: the parse end is inside the input, a value that is not
  complete takes all of it, and a tokener that has just been reset takes at least one
  byte to produce a value.\<close>

definition tokener_ok :: "('t, 'o) json_tokener \<Rightarrow> bool" where
  "tokener_ok J \<longleftrightarrow>
     (\<forall>t xs t' out n. parse J t xs = (t', out, n) \<longrightarrow> n \<le> length xs \<and> (out = Json_continue \<longrightarrow> n = length xs))
     \<and> (\<forall>t xs t' v n. parse J (reset J t) xs = (t', Json_value v, n) \<longrightarrow> 0 < n)"

definition json_inv :: "'t json_tkn \<Rightarrow> bool" where
  "json_inv tkn \<longleftrightarrow> stream_maxbuf tkn \<noteq> 0 \<longrightarrow> buffered tkn \<le> stream_maxbuf tkn"

text \<open>A parse that gives a value without taking a byte leaves a tokener that was just
  reset, so it happens at most once in a row.\<close>

definition json_measure :: "('t, 'o) json_tokener \<Rightarrow> 't json_tkn \<Rightarrow> u8 list \<Rightarrow> nat" where
  "json_measure J tkn str = 2 * length str + (if \<exists>t. tok tkn = reset J t then 0 else 1)"

lemma tokenize_ok:
  assumes "tokener_ok J" and "json_inv tkn" and "str \<noteq> []"
    and "stream_maxbuf tkn = 0 \<or> buffered tkn + of_nat (length str) \<le> stream_maxbuf tkn"
    and "unat (buffered tkn) + length str < 2 ^ 64"
  shows "\<exists>tkn' str' out. bbdd_util_jrpc_tokenize J tkn str = Some (tkn', str', out)
    \<and> json_inv tkn' \<and> stream_maxbuf tkn' = stream_maxbuf tkn \<and> length str' \<le> length str
    \<and> unat (buffered tkn') + length str' \<le> unat (buffered tkn) + length str
    \<and> (out = Json_continue \<longrightarrow> str' = [])
    \<and> (\<forall>v. out = Json_value v \<longrightarrow> json_measure J tkn' str' < json_measure J tkn str)"
proof -
  obtain t out n where p: "parse J (tok tkn) str = (t, out, n)" by (metis surj_pair)
  have n: "n \<le> length str" "out = Json_continue \<longrightarrow> n = length str"
    using assms(1) p unfolding tokener_ok_def by blast+
  have fresh: "0 < n" if "tok tkn = reset J t0" "out = Json_value v" for t0 v
    using assms(1) p that unfolding tokener_ok_def by metis
  have un: "unat (buffered tkn + of_nat n) = unat (buffered tkn) + n"
    using n assms(5) by (subst unat_add_no_wrap) (auto simp: unat_of_nat)
  have ul: "unat (buffered tkn + of_nat (length str)) = unat (buffered tkn) + length str"
    using assms(5) by (subst unat_add_no_wrap) (auto simp: unat_of_nat)
  have inv: "stream_maxbuf tkn \<noteq> 0 \<longrightarrow> buffered tkn + of_nat n \<le> stream_maxbuf tkn"
    using assms(4) un ul n(1) by (auto simp: word_le_nat_alt)
  define tkn1 where "tkn1 = tkn\<lparr>tok := t, buffered := buffered tkn + of_nat n\<rparr>"
  have tk: "bbdd_util_jrpc_tokenize J tkn str =
      Some (case out of Json_value _ \<Rightarrow> bbdd_util_ssk_json_tkn_reset J tkn1 | _ \<Rightarrow> tkn1, drop n str, out)"
    using p n(1) by (simp add: bbdd_util_jrpc_tokenize_def tkn1_def Let_def split: json_outcome.split)
  show ?thesis
  proof (cases out)
    case (Json_value v)
    have "json_measure J (bbdd_util_ssk_json_tkn_reset J tkn1) (drop n str) < json_measure J tkn str"
      using fresh[OF _ Json_value] n(1) assms(3)
      by (cases "\<exists>t. tok tkn = reset J t")
         (fastforce simp: json_measure_def bbdd_util_ssk_json_tkn_reset_def)+
    then show ?thesis
      unfolding tk using Json_value n by (simp add: json_inv_def bbdd_util_ssk_json_tkn_reset_def tkn1_def)
  qed (use tk inv un n in \<open>simp_all add: json_inv_def tkn1_def\<close>)
qed

lemma json_rx_total:
  assumes J: "tokener_ok J" and obj: "\<And>v w. obj_cb v w \<noteq> None" and err: "\<And>f w. err_cb = Some f \<Longrightarrow> f w \<noteq> None"
    and "json_inv tkn" and "unat (buffered tkn) + length str < 2 ^ 64"
  shows "\<exists>tkn' w' r. json_rx J obj_cb err_cb tkn str w = Some (tkn', w', r) \<and> json_inv tkn'
    \<and> stream_maxbuf tkn' = stream_maxbuf tkn"
  using assms(4,5)
proof (induction "json_measure J tkn str" arbitrary: tkn str w rule: less_induct)
  case less
  note step = json_rx.simps[of J obj_cb err_cb tkn str w]
  show ?case
  proof (cases "str = [] \<or> stream_maxbuf tkn \<noteq> 0 \<and> buffered tkn + of_nat (length str) > stream_maxbuf tkn")
    case True
    then show ?thesis unfolding step using less.prems by auto
  next
    case False
    then obtain tkn1 str1 out where t: "bbdd_util_jrpc_tokenize J tkn str = Some (tkn1, str1, out)"
      and inv: "json_inv tkn1" "stream_maxbuf tkn1 = stream_maxbuf tkn" "length str1 \<le> length str"
      and sz: "unat (buffered tkn1) + length str1 \<le> unat (buffered tkn) + length str"
      and cont: "out = Json_continue \<longrightarrow> str1 = []"
      and dec: "\<And>v. out = Json_value v \<Longrightarrow> json_measure J tkn1 str1 < json_measure J tkn str"
      using tokenize_ok[OF J, of tkn str] less.prems by fastforce
    show ?thesis
    proof (cases out)
      case Json_continue
      then show ?thesis unfolding step using False t cont inv by auto
    next
      case (Json_value v)
      obtain ok w1 where o: "obj_cb v w = Some (ok, w1)" using obj[of v w] by auto
      have "\<exists>tkn' w' r. json_rx J obj_cb err_cb tkn1 str1 w1 = Some (tkn', w', r) \<and> json_inv tkn'
          \<and> stream_maxbuf tkn' = stream_maxbuf tkn1"
        using less.hyps[OF dec[OF Json_value] inv(1)] sz less.prems by simp
      then show ?thesis unfolding step using False t Json_value o inv by auto
    next
      case Json_error
      define tkn2 where "tkn2 = bbdd_util_ssk_json_tkn_reset J tkn1"
      have "json_measure J tkn2 (drop 1 str1) < json_measure J tkn str"
        using False inv(3) by (cases str) (auto simp: json_measure_def tkn2_def bbdd_util_ssk_json_tkn_reset_def)
      moreover have "json_inv tkn2" "unat (buffered tkn2) + length (drop 1 str1) < 2 ^ 64"
        using sz inv less.prems by (auto simp: json_inv_def tkn2_def bbdd_util_ssk_json_tkn_reset_def)
      ultimately have "\<exists>tkn' w' r. json_rx J obj_cb err_cb tkn2 (drop 1 str1) w1 = Some (tkn', w', r) \<and> json_inv tkn'
          \<and> stream_maxbuf tkn' = stream_maxbuf tkn2" for w1
        using less.hyps by blast
      moreover have "stream_maxbuf tkn2 = stream_maxbuf tkn"
        using inv by (simp add: tkn2_def bbdd_util_ssk_json_tkn_reset_def)
      ultimately have rec: "\<exists>tkn' w' r. json_rx J obj_cb err_cb tkn2 (drop 1 str1) w1 = Some (tkn', w', r) \<and> json_inv tkn'
          \<and> stream_maxbuf tkn' = stream_maxbuf tkn" for w1
        by simp
      show ?thesis
      proof (cases err_cb)
        case None
        then show ?thesis unfolding step using False t Json_error inv by auto
      next
        case (Some f)
        obtain ok w1 where f: "f w = Some (ok, w1)" using err[OF Some, of w] by auto
        have "json_rx J obj_cb err_cb tkn str w = (if ok then json_rx J obj_cb err_cb tkn2 (drop 1 str1) w1
            else Some (tkn1, w1, Inl Json_callback_failed))"
          unfolding step using False t Json_error Some f by (auto simp: tkn2_def)
        then show ?thesis using rec[of w1] inv by simp
      qed
    qed
  qed
qed


text \<open>A tokener for the language of single digits.\<close>

definition digit_tokener :: "(unit, u8) json_tokener" where
  "digit_tokener = \<lparr>parse = \<lambda>_ xs. case xs of [] \<Rightarrow> ((), Json_continue, 0)
       | x # _ \<Rightarrow> if 48 \<le> x \<and> x \<le> 57 then ((), Json_value (Some x), 1) else ((), Json_error, 0),
     reset = \<lambda>t. t\<rparr>"


subsection \<open>Peers\<close>

text \<open>\<open>out\<close> is what the kernel has accepted for sending.  The outcomes of the system calls
  of one event are lists; a call after the last outcome would block.  \<open>Sent n\<close> is a
  kernel that has room for \<open>n\<close> bytes: \<open>send\<close> takes that many, or all it is given.\<close>

datatype send_result = Sent nat | Send_again | Send_intr | Send_error
datatype recv_result = Received "u8 list" | Recv_again | Recv_intr | Recv_error

record bbdd_ssk_peer =
  tx_sb :: bbdd_sb
  done_flag :: bool
  eof :: bool
  out :: "u8 list"
  pollout :: bool
  destroyed :: bool

fun bbdd_ssk_peer_tx :: "send_result list \<Rightarrow> bbdd_ssk_peer \<Rightarrow> (bool \<times> send_result list \<times> bbdd_ssk_peer) option" where
  "bbdd_ssk_peer_tx [] p = Some (True, [], p)"
| "bbdd_ssk_peer_tx (Send_intr # rs) p = bbdd_ssk_peer_tx rs p"
| "bbdd_ssk_peer_tx (Send_again # rs) p = Some (True, rs, p)"
| "bbdd_ssk_peer_tx (Send_error # rs) p = Some (False, rs, p)"
| "bbdd_ssk_peer_tx (Sent n # rs) p = do {
     let rc = min n (unat (bbdd_sb_len (tx_sb p)));
     sb \<leftarrow> bbdd_sb_pull (tx_sb p) (of_nat rc);
     Some (True, rs, p\<lparr>tx_sb := sb, out := out p @ take rc (bbdd_sb_buf (tx_sb p))\<rparr>)
   }"

definition bbdd_ssk_peer_nq ::
  "allocator \<Rightarrow> bool \<Rightarrow> u8 list \<Rightarrow> bbdd_ssk_peer \<Rightarrow> (bool \<times> bbdd_ssk_peer) option"
where
  "bbdd_ssk_peer_nq alloc poll_ok xs p =
     (if \<not> poll_ok then Some (False, p)
      else do {
        (sb, r) \<leftarrow> bbdd_sb_push_len alloc (tx_sb p) xs;
        Some (\<not> isl r, p\<lparr>tx_sb := sb, pollout := True\<rparr>)
      })"

text \<open>The flush of \<open>bbdd_ssk_peer_destroy\<close>; the counter allows 101 rounds.\<close>

fun peer_flush :: "nat \<Rightarrow> send_result list \<Rightarrow> bbdd_ssk_peer \<Rightarrow> bbdd_ssk_peer option" where
  "peer_flush 0 rs p = Some p"
| "peer_flush (Suc n) rs p =
     (if bbdd_sb_len (tx_sb p) = 0 then Some p
      else do {
        (ok, rs, p) \<leftarrow> bbdd_ssk_peer_tx rs p;
        if ok then peer_flush n rs p else Some p
      })"

definition bbdd_ssk_peer_destroy :: "send_result list \<Rightarrow> bbdd_ssk_peer \<Rightarrow> bbdd_ssk_peer option" where
  "bbdd_ssk_peer_destroy rs p = map_option (\<lambda>p. p\<lparr>destroyed := True, pollout := False\<rparr>) (peer_flush 101 rs p)"

text \<open>\<open>rx\<close> and \<open>at_eof\<close> are the callbacks of the peer in the order of its list; they may
  queue output on the peer and mark it done.\<close>

fun bbdd_ssk_peer_rx ::
  "(u8 list \<Rightarrow> bbdd_ssk_peer \<Rightarrow> 'w \<Rightarrow> (bool \<times> bbdd_ssk_peer \<times> 'w) option)
   \<Rightarrow> (bbdd_ssk_peer \<Rightarrow> 'w \<Rightarrow> (bbdd_ssk_peer \<times> 'w) option)
   \<Rightarrow> recv_result list \<Rightarrow> bbdd_ssk_peer \<Rightarrow> 'w \<Rightarrow> (bool \<times> bbdd_ssk_peer \<times> 'w) option"
where
  "bbdd_ssk_peer_rx rx at_eof [] p w = Some (True, p, w)"
| "bbdd_ssk_peer_rx rx at_eof (Recv_intr # rs) p w = bbdd_ssk_peer_rx rx at_eof rs p w"
| "bbdd_ssk_peer_rx rx at_eof (Recv_again # rs) p w = Some (True, p, w)"
| "bbdd_ssk_peer_rx rx at_eof (Recv_error # rs) p w = Some (False, p, w)"
| "bbdd_ssk_peer_rx rx at_eof (Received xs # rs) p w =
     (if xs = [] then do { (p, w) \<leftarrow> at_eof (p\<lparr>eof := True\<rparr>) w; Some (True, p, w) }
      else do {
        (ok, p, w) \<leftarrow> rx xs p w;
        if ok then bbdd_ssk_peer_rx rx at_eof rs p w else Some (False, p, w)
      })"

definition bbdd_ssk_peer_event ::
  "(u8 list \<Rightarrow> bbdd_ssk_peer \<Rightarrow> 'w \<Rightarrow> (bool \<times> bbdd_ssk_peer \<times> 'w) option)
   \<Rightarrow> (bbdd_ssk_peer \<Rightarrow> 'w \<Rightarrow> (bbdd_ssk_peer \<times> 'w) option)
   \<Rightarrow> recv_result list \<Rightarrow> send_result list \<Rightarrow> bool
   \<Rightarrow> bool \<times> bool \<times> bool \<Rightarrow> bbdd_ssk_peer \<Rightarrow> 'w \<Rightarrow> (bbdd_ssk_peer \<times> 'w) option"
where
  "bbdd_ssk_peer_event rx at_eof recvs sends poll_ok revents p w =
     (let (pollin, hup, pollout_ev) = revents
      in do {
        (ok, p, w) \<leftarrow> (if pollin then bbdd_ssk_peer_rx rx at_eof recvs p w else Some (True, p, w));
        if \<not> ok \<or> hup then do { p \<leftarrow> bbdd_ssk_peer_destroy sends p; Some (p, w) }
        else do {
          (ok, sends, p) \<leftarrow> (if pollout_ev then bbdd_ssk_peer_tx sends p else Some (True, sends, p));
          if \<not> ok then do { p \<leftarrow> bbdd_ssk_peer_destroy sends p; Some (p, w) }
          else if bbdd_sb_len (tx_sb p) = 0 \<and> done_flag p
          then do { p \<leftarrow> bbdd_ssk_peer_destroy sends p; Some (p, w) }
          else if \<not> poll_ok then do { p \<leftarrow> bbdd_ssk_peer_destroy sends p; Some (p, w) }
          else Some (p\<lparr>pollout := bbdd_sb_len (tx_sb p) > 0\<rparr>, w)
        }
      })"

text \<open>What was sent and what is queued, together.\<close>

definition peer_stream :: "bbdd_ssk_peer \<Rightarrow> u8 list" where
  "peer_stream p = out p @ sb_bytes (tx_sb p)"

definition peer_ok :: "bbdd_ssk_peer \<Rightarrow> bool" where
  "peer_ok p \<longleftrightarrow> sb_inv (tx_sb p)"

definition same_flags :: "bbdd_ssk_peer \<Rightarrow> bbdd_ssk_peer \<Rightarrow> bool" where
  "same_flags p q \<longleftrightarrow> done_flag q = done_flag p \<and> eof q = eof p \<and> destroyed q = destroyed p"

lemma peer_tx_ok:
  assumes "peer_ok p"
  shows "\<exists>ok rs' p'. bbdd_ssk_peer_tx rs p = Some (ok, rs', p') \<and> peer_ok p' \<and> peer_stream p' = peer_stream p
    \<and> same_flags p p'"
  using assms
proof (induction rs p rule: bbdd_ssk_peer_tx.induct)
  case (5 n rs p)
  then have inv: "sb_inv (tx_sb p)" by (simp add: peer_ok_def)
  define k where "k = min n (unat (len (tx_sb p)))"
  have k: "unat (of_nat k :: u64) = k" "k \<le> length (sb_bytes (tx_sb p))"
    using unat_u64_less[of "len (tx_sb p)"] length_sb_bytes[OF inv] by (auto simp: k_def unat_of_nat)
  obtain sb where sb: "bbdd_sb_pull (tx_sb p) (of_nat k) = Some sb" "sb_inv sb"
      "sb_bytes sb = drop k (sb_bytes (tx_sb p))"
    using pull_ok[OF inv, of "of_nat k"] k by auto
  have "take k (bbdd_sb_buf (tx_sb p)) @ sb_bytes sb = sb_bytes (tx_sb p)"
    using k(2) sb(3) length_sb_bytes[OF inv]
    by (metis append_take_drop_id min_absorb1 sb_bytes_def take_take)
  then show ?case
    using sb by (auto simp: bbdd_sb_len_def k_def[symmetric] peer_ok_def peer_stream_def same_flags_def Let_def)
qed (auto simp: same_flags_def)

lemma peer_flush_ok:
  assumes "peer_ok p"
  shows "\<exists>p'. peer_flush n rs p = Some p' \<and> peer_ok p' \<and> peer_stream p' = peer_stream p \<and> same_flags p p'"
  using assms
proof (induction n arbitrary: rs p)
  case (Suc n)
  obtain ok rs1 p1 where t: "bbdd_ssk_peer_tx rs p = Some (ok, rs1, p1)" "peer_ok p1" "peer_stream p1 = peer_stream p"
      "same_flags p p1"
    using peer_tx_ok[OF Suc.prems] by blast
  show ?case using Suc.IH[OF t(2), of rs1] t Suc.prems by (auto simp: same_flags_def)
qed (simp add: same_flags_def)

lemma peer_destroy_ok:
  assumes "peer_ok p"
  shows "\<exists>p'. bbdd_ssk_peer_destroy rs p = Some p' \<and> peer_ok p' \<and> peer_stream p' = peer_stream p \<and> destroyed p'"
  using peer_flush_ok[OF assms, of 101 rs]
  by (auto simp: bbdd_ssk_peer_destroy_def peer_ok_def peer_stream_def)

lemma peer_nq_ok:
  assumes "peer_ok p" and "sb_room (tx_sb p) (length xs)"
  shows "\<exists>ok p'. bbdd_ssk_peer_nq alloc poll_ok xs p = Some (ok, p') \<and> peer_ok p' \<and> same_flags p p'
    \<and> out p' = out p \<and> peer_stream p' = peer_stream p @ (if ok then xs else [])"
proof -
  obtain sb r where "bbdd_sb_push_len alloc (tx_sb p) xs = Some (sb, r)" "push_result alloc (tx_sb p) xs (sb, r)"
    using push_len_ok[of "tx_sb p" xs] assms by (metis peer_ok_def surj_pair)
  then show ?thesis
    using push_result_bytes[of alloc "tx_sb p" xs sb r] assms(1)
    by (auto simp: bbdd_ssk_peer_nq_def peer_ok_def peer_stream_def same_flags_def)
qed

text \<open>A callback that does nothing to its peer but queue output and mark it done.\<close>

definition queues_only :: "bbdd_ssk_peer \<Rightarrow> bbdd_ssk_peer \<Rightarrow> bool" where
  "queues_only p p' \<longleftrightarrow> peer_ok p' \<and> out p' = out p \<and> destroyed p' = destroyed p
     \<and> (\<exists>d. sb_bytes (tx_sb p') = sb_bytes (tx_sb p) @ d)"

lemma queues_only_trans: "queues_only p q \<Longrightarrow> queues_only q r \<Longrightarrow> queues_only p r"
  by (auto simp: queues_only_def)

lemma peer_rx_ok:
  assumes "peer_ok p"
    and rx: "\<And>xs p w. peer_ok p \<Longrightarrow> \<exists>ok p' w'. rx xs p w = Some (ok, p', w') \<and> queues_only p p'"
    and at_eof: "\<And>p w. peer_ok p \<Longrightarrow> \<exists>p' w'. at_eof p w = Some (p', w') \<and> queues_only p p'"
  shows "\<exists>ok p' w'. bbdd_ssk_peer_rx rx at_eof rs p w = Some (ok, p', w') \<and> queues_only p p'"
  using assms(1)
proof (induction rs arbitrary: p w)
  case Nil
  then show ?case by (auto simp: queues_only_def)
next
  case (Cons r rs)
  show ?case
  proof (cases r)
    case (Received xs)
    show ?thesis
    proof (cases "xs = []")
      case True
      have "peer_ok (p\<lparr>eof := True\<rparr>)" using Cons.prems by (simp add: peer_ok_def)
      then obtain p1 w1 where "at_eof (p\<lparr>eof := True\<rparr>) w = Some (p1, w1)" "queues_only (p\<lparr>eof := True\<rparr>) p1"
        using at_eof by blast
      then show ?thesis using True Received by (auto simp: queues_only_def)
    next
      case False
      obtain ok p1 w1 where c: "rx xs p w = Some (ok, p1, w1)" "queues_only p p1"
        using rx[OF Cons.prems, of xs w] by blast
      then have "peer_ok p1" by (simp add: queues_only_def)
      then obtain ok2 p2 w2 where "bbdd_ssk_peer_rx rx at_eof rs p1 w1 = Some (ok2, p2, w2)" "queues_only p1 p2"
        using Cons.IH[of p1 w1] by blast
      then have "bbdd_ssk_peer_rx rx at_eof (r # rs) p w = Some (if ok then (ok2, p2, w2) else (False, p1, w1))"
          "queues_only p p2"
        using False Received c queues_only_trans by auto
      then show ?thesis using c(2) by (cases ok) auto
    qed
  qed (use Cons in \<open>auto simp: queues_only_def\<close>)
qed

lemma peer_event_ok:
  assumes "peer_ok p" and "\<not> destroyed p"
    and rx: "\<And>xs p w. peer_ok p \<Longrightarrow> \<exists>ok p' w'. rx xs p w = Some (ok, p', w') \<and> queues_only p p'"
    and at_eof: "\<And>p w. peer_ok p \<Longrightarrow> \<exists>p' w'. at_eof p w = Some (p', w') \<and> queues_only p p'"
  shows "\<exists>p' w' d. bbdd_ssk_peer_event rx at_eof recvs sends poll_ok (pin, hup, pout) p w = Some (p', w')
    \<and> peer_stream p' = peer_stream p @ d
    \<and> (\<not> destroyed p' \<longrightarrow> pollout p' = (sb_bytes (tx_sb p') \<noteq> []) \<and> (done_flag p' \<longrightarrow> pollout p'))"
proof -
  obtain ok p1 w1 where r: "(if pin then bbdd_ssk_peer_rx rx at_eof recvs p w else Some (True, p, w)) = Some (ok, p1, w1)"
      "queues_only p p1"
  proof (cases pin)
    case True
    have "\<exists>ok p' w'. bbdd_ssk_peer_rx rx at_eof recvs p w = Some (ok, p', w') \<and> queues_only p p'"
      by (rule peer_rx_ok[OF assms(1) rx at_eof])
    then show thesis using that True by auto
  qed (use assms(1) that in \<open>auto simp: queues_only_def\<close>)
  obtain d where d: "peer_stream p1 = peer_stream p @ d" "peer_ok p1" "\<not> destroyed p1"
    using r(2) assms(2) by (auto simp: queues_only_def peer_stream_def)
  obtain ok2 s2 p2 where t: "(if pout then bbdd_ssk_peer_tx sends p1 else Some (True, sends, p1)) = Some (ok2, s2, p2)"
      "peer_ok p2" "peer_stream p2 = peer_stream p1" "destroyed p2 = destroyed p1"
    using peer_tx_ok[OF d(2), of sends] d(2) by (cases pout) (auto simp: same_flags_def)
  obtain p3 where k1: "bbdd_ssk_peer_destroy sends p1 = Some p3" "peer_stream p3 = peer_stream p1" "destroyed p3"
    using peer_destroy_ok[OF d(2), of sends] by blast
  obtain p4 where k2: "bbdd_ssk_peer_destroy s2 p2 = Some p4" "peer_stream p4 = peer_stream p2" "destroyed p4"
    using peer_destroy_ok[OF t(2), of s2] by blast
  have empty: "bbdd_sb_len (tx_sb p2) = 0 \<longleftrightarrow> sb_bytes (tx_sb p2) = []"
    using length_sb_bytes[of "tx_sb p2"] t(2)
    by (auto simp: bbdd_sb_len_def peer_ok_def unsigned_eq_0_iff)
  show ?thesis
  proof (cases "\<not> ok \<or> hup")
    case True
    then show ?thesis using r(1) k1 d by (auto simp: bbdd_ssk_peer_event_def)
  next
    case False
    have "bbdd_ssk_peer_event rx at_eof recvs sends poll_ok (pin, hup, pout) p w =
        (if \<not> ok2 \<or> bbdd_sb_len (tx_sb p2) = 0 \<and> done_flag p2 \<or> \<not> poll_ok then Some (p4, w1)
         else Some (p2\<lparr>pollout := bbdd_sb_len (tx_sb p2) > 0\<rparr>, w1))"
      using r(1) t(1) k2(1) False by (auto simp: bbdd_ssk_peer_event_def)
    then show ?thesis
      using t k2 d empty by (auto simp: peer_stream_def word_gt_0)
  qed
qed

text \<open>An event of a stream peer loses and reorders nothing: what the kernel has accepted
  followed by what is queued is extended by what the callbacks queued, also when the
  peer is destroyed after its flush; a peer that stays is polled for output exactly
  when output is queued, and one that is marked done stays only for that.  The
  callbacks are those that queue output and mark the peer done.\<close>

theorem peer_event_stream:
  assumes "peer_ok p" and "\<not> destroyed p"
    and "\<And>xs p w. peer_ok p \<Longrightarrow> \<exists>ok p' w'. rx xs p w = Some (ok, p', w') \<and> queues_only p p'"
    and "\<And>p w. peer_ok p \<Longrightarrow> \<exists>p' w'. at_eof p w = Some (p', w') \<and> queues_only p p'"
  shows "\<exists>p' w' d. bbdd_ssk_peer_event rx at_eof recvs sends poll_ok (pin, hup, pout) p w = Some (p', w')
    \<and> peer_stream p' = peer_stream p @ d
    \<and> (\<not> destroyed p' \<longrightarrow> pollout p' = (sb_bytes (tx_sb p') \<noteq> []) \<and> (done_flag p' \<longrightarrow> pollout p'))"
  by (rule peer_event_ok[OF assms])

definition sample_peer :: bbdd_ssk_peer where
  "sample_peer = \<lparr>tx_sb = zero_sb 0, done_flag = False, eof = False, out = [], pollout = False, destroyed = False\<rparr>"

theorem peer_event_stream_witness:
  "\<exists>p' w' d. bbdd_ssk_peer_event (\<lambda>xs p w. Some (True, p\<lparr>done_flag := True\<rparr>, w @ xs)) (\<lambda>p w. Some (p, w))
      [Received [1, 2], Recv_intr, Received []] [Sent 4] True (True, False, True) sample_peer [] = Some (p', w')
    \<and> peer_stream p' = peer_stream sample_peer @ d
    \<and> (\<not> destroyed p' \<longrightarrow> pollout p' = (sb_bytes (tx_sb p') \<noteq> []) \<and> (done_flag p' \<longrightarrow> pollout p'))"
  by (rule peer_event_stream) (auto simp: sample_peer_def peer_ok_def queues_only_def zero_sb_inv)

end
