(* ===== verification/Bfdd_Daemon.thy ===== *)
theory Bfdd_Daemon
  imports Daemon Bfdd Stream_Peer
begin

text \<open>
  The messages of the BFD daemon as the data plane handles them (\<open>bbdd-d.c\<close>): the stream
  is cut into messages, each message is checked and dispatched, and its handler changes
  the sessions or queues an answer.  The theory composes the tokenizer, the decoder and
  the daemon: whatever bytes arrive, no message is read past its end, no assertion fails
  and the daemon stays consistent.
\<close>

subsection \<open>Counters of a session\<close>

definition bbdd_bpf_session_stats_fill :: "bbdd_bpf \<Rightarrow> u32 \<Rightarrow> session_stats option" where
  "bbdd_bpf_session_stats_fill b dd = do {
     bs \<leftarrow> bbdd_bpf_sdir_get_session b dd;
     dat \<leftarrow> data_hash b dd;
     Some (\<lambda>f. data_stats dat f + bs_stats bs f)
   }"

subsection \<open>Handlers\<close>

text \<open>\<open>b_sent\<close> are the messages queued to the BFD daemon, \<open>b_answers\<close> the answers given to the
  requests for an echo.\<close>

record 'j bfdd_world =
  b_daemon :: bbdd_d
  b_echo_peers :: "'j echo_peer list"
  b_answers :: "'j echo_answer list"
  b_sent :: "u8 list list"

text \<open>Whether a message can be queued, the time, and the padding of the counters.\<close>

record bfdd_io =
  io_nq_ok :: "u8 list \<Rightarrow> bool"
  io_now :: u64
  io_pad :: u32

definition bbdd_bfdd_write_enqueue :: "bfdd_io \<Rightarrow> u8 list \<Rightarrow> 'j bfdd_world \<Rightarrow> bool \<times> 'j bfdd_world" where
  "bbdd_bfdd_write_enqueue io msg w = (if io_nq_ok io msg then (True, w\<lparr>b_sent := b_sent w @ [msg]\<rparr>) else (False, w))"

definition bbdd_d_bfdd_handle_add_session :: "d_env \<Rightarrow> u8 list \<Rightarrow> 'j bfdd_world \<Rightarrow> 'j bfdd_world option" where
  "bbdd_d_bfdd_handle_add_session env msg w =
     (case bbdd_bfdd_session_msg_to_c (e_inet env) msg of
        None \<Rightarrow> None
      | Some (Inl (BE_msgsize _)) \<Rightarrow> Some (w\<lparr>b_daemon := count_dp Dp_sess_add_invalid_length (b_daemon w)\<rparr>)
      | Some (Inl _) \<Rightarrow> Some w
      | Some (Inr cs) \<Rightarrow>
          map_option (\<lambda>(d, _). w\<lparr>b_daemon := d\<rparr>) (bbdd_d_bfdd_handle_add_session_vrf env (b_daemon w) cs))"

definition handle_delete_session :: "d_env \<Rightarrow> u8 list \<Rightarrow> 'j bfdd_world \<Rightarrow> 'j bfdd_world option" where
  "handle_delete_session env msg w =
     (case rd32 msg 44 of
        None \<Rightarrow> None
      | Some lid \<Rightarrow>
          map_option (\<lambda>(d, _). w\<lparr>b_daemon := d\<rparr>) (bbdd_d_bfdd_handle_delete_session env (b_daemon w) (ntoh32 lid)))"

text \<open>On an error the answer still goes out, with half the largest value in every counter.\<close>

definition nonsense_stats :: session_stats where
  "nonsense_stats = (\<lambda>_. 0xffffffffffffffff div 2)"

definition bbdd_d_bfdd_handle_session_counters :: "bfdd_io \<Rightarrow> u8 list \<Rightarrow> 'j bfdd_world \<Rightarrow> 'j bfdd_world option" where
  "bbdd_d_bfdd_handle_session_counters io msg w =
     (case (rd32 msg 8, msg_id msg) of
        (Some lid, Some ident) \<Rightarrow>
          let dd = ntoh32 lid; d = b_daemon w;
              (d1, stats) =
                (case bbdd_sess_dir_get_session (d_sdir d) dd of
                   None \<Rightarrow> (count_dp Dp_no_session d, nonsense_stats)
                 | Some _ \<Rightarrow>
                     (case bbdd_bpf_session_stats_fill (d_bpf d) dd of
                        None \<Rightarrow> (count_dp Dp_internal_error d, nonsense_stats)
                      | Some stats \<Rightarrow> (d, stats)));
              (ok, w1) = bbdd_bfdd_write_enqueue io (bbdd_bfdd_c_reply_counters (io_pad io) ident dd stats) (w\<lparr>b_daemon := d1\<rparr>)
          in Some (if ok then w1 else w1\<lparr>b_daemon := count_dp Dp_buffer_error (b_daemon w1)\<rparr>)
      | _ \<Rightarrow> None)"

definition bbdd_d_bfdd_c_handle_echo_request :: "bfdd_io \<Rightarrow> u8 list \<Rightarrow> 'j bfdd_world \<Rightarrow> 'j bfdd_world option" where
  "bbdd_d_bfdd_c_handle_echo_request io msg w = do {
     ident \<leftarrow> msg_id msg;
     reply \<leftarrow> bbdd_bfdd_reply_echo ident (io_now io) msg True;
     Some (snd (bbdd_bfdd_write_enqueue io reply w))
   }"

definition bfdd_message_cb :: "d_env \<Rightarrow> bfdd_io \<Rightarrow> u8 list \<Rightarrow> 'j bfdd_world \<Rightarrow> 'j bfdd_world option" where
  "bfdd_message_cb env io msg w = do {
     version \<leftarrow> rd8 msg 0;
     if version \<noteq> 1 then Some (w\<lparr>b_daemon := count_dp Dp_wrong_version_number (b_daemon w)\<rparr>)
     else do {
       bmt \<leftarrow> msg_type msg;
       if bmt = DP_ADD_SESSION then bbdd_d_bfdd_handle_add_session env msg w
       else if bmt = DP_DELETE_SESSION then handle_delete_session env msg w
       else if bmt = DP_REQUEST_SESSION_COUNTERS then bbdd_d_bfdd_handle_session_counters io msg w
       else if bmt = ECHO_REQUEST then bbdd_d_bfdd_c_handle_echo_request io msg w
       else if bmt = ECHO_REPLY then do {
         (eps, as) \<leftarrow> bbdd_bfdd_echo_handle_reply (b_echo_peers w) msg;
         Some (w\<lparr>b_echo_peers := eps, b_answers := b_answers w @ as\<rparr>)
       }
       else Some (w\<lparr>b_daemon := count_dp Dp_invalid_message_type (b_daemon w)\<rparr>)
     }
   }"

definition bbdd_bfdd_dispatch_message :: "d_env \<Rightarrow> bfdd_io \<Rightarrow> 'j bfdd_world msg_cb" where
  "bbdd_bfdd_dispatch_message env io msg w =
     (case bbdd_bfdd_msg_len_validate msg of
        None \<Rightarrow> None
      | Some (Inl _) \<Rightarrow> Some (False, w)
      | Some (Inr _) \<Rightarrow> map_option (Pair True) (bfdd_message_cb env io msg w))"

subsection \<open>Every message is handled\<close>

lemma write_enqueue_daemon [simp]: "b_daemon (snd (bbdd_bfdd_write_enqueue io msg w)) = b_daemon w"
  by (simp add: bbdd_bfdd_write_enqueue_def)


lemma handle_add_session_ok:
  assumes "framed msg" "bbdd_bfdd_msg_len_validate msg = Some (Inr ())" "msg_type msg = Some DP_ADD_SESSION"
    and ok: "dmn_ok (b_daemon w)" and net: "net_ok (e_net env)"
  shows "\<exists>w'. bbdd_d_bfdd_handle_add_session env msg w = Some w' \<and> dmn_ok (b_daemon w')"
proof -
  obtain r where r: "bbdd_bfdd_session_msg_to_c (e_inet env) msg = Some r"
    using session_msg_to_c_total[OF assms(1-3)] by blast
  show ?thesis
  proof (cases r)
    case (Inl e)
    then show ?thesis using r ok by (cases e) (simp_all add: bbdd_d_bfdd_handle_add_session_def)
  next
    case (Inr cs)
    then obtain d' u where "bbdd_d_bfdd_handle_add_session_vrf env (b_daemon w) cs = Some (d', u)" "dmn_ok d'"
      using bfdd_add_ok[OF ok net, of cs] session_msg_to_c_dst r by blast
    then show ?thesis using r Inr by (simp add: bbdd_d_bfdd_handle_add_session_def)
  qed
qed

lemma handle_delete_ok:
  assumes "framed msg" "bbdd_bfdd_msg_len_validate msg = Some (Inr ())" "msg_type msg = Some DP_DELETE_SESSION"
    and ok: "dmn_ok (b_daemon w)"
  shows "\<exists>w'. handle_delete_session env msg w = Some w' \<and> dmn_ok (b_daemon w')"
proof -
  obtain lid where lid: "rd32 msg 44 = Some lid"
    using validated_length(2)[OF assms(1-3)] rd_within(2)[of 44 msg] by (auto simp: sz_defs)
  obtain d' u where "bbdd_d_bfdd_handle_delete_session env (b_daemon w) (ntoh32 lid) = Some (d', u)" "dmn_ok d'"
    using bfdd_delete_ok[OF ok] by blast
  then show ?thesis using lid by (simp add: handle_delete_session_def)
qed

lemma handle_counters_ok:
  assumes "framed msg" "bbdd_bfdd_msg_len_validate msg = Some (Inr ())" "msg_type msg = Some DP_REQUEST_SESSION_COUNTERS"
    and ok: "dmn_ok (b_daemon w)"
  shows "\<exists>w'. bbdd_d_bfdd_handle_session_counters io msg w = Some w' \<and> dmn_ok (b_daemon w')"
proof -
  obtain lid ident where "rd32 msg 8 = Some lid" "msg_id msg = Some ident"
    using validated_length(3)[OF assms(1-3)] rd_within(2)[of 8 msg] framed_fields[OF assms(1)] by (auto simp: sz_defs)
  then show ?thesis using ok
    by (auto simp: bbdd_d_bfdd_handle_session_counters_def bbdd_bfdd_write_enqueue_def Let_def split: option.split)
qed

lemma message_cb_ok:
  assumes f: "framed msg" and v: "bbdd_bfdd_msg_len_validate msg = Some (Inr ())"
    and ok: "dmn_ok (b_daemon w)" and net: "net_ok (e_net env)"
  shows "\<exists>w'. bfdd_message_cb env io msg w = Some w' \<and> dmn_ok (b_daemon w')"
proof -
  obtain t i where t: "msg_type msg = Some t" "msg_id msg = Some i" using framed_fields[OF f] by blast
  obtain vs where vs: "rd8 msg 0 = Some vs" using f by (cases msg) (auto simp: framed_def sz_defs rd8_def)
  have echo: "\<exists>a b. rdmem msg 8 8 = Some a \<and> rdmem msg 16 8 = Some b" if "t \<in> {ECHO_REQUEST, ECHO_REPLY}"
    using validated_length(1)[OF f v t(1) that] rd_within(3)[of 8 8 msg] rd_within(3)[of 16 8 msg] by (auto simp: sz_defs)
  consider "vs \<noteq> 1" | "vs = 1" "t = DP_ADD_SESSION" | "vs = 1" "t = DP_DELETE_SESSION"
    | "vs = 1" "t = DP_REQUEST_SESSION_COUNTERS" | "vs = 1" "t = ECHO_REQUEST" | "vs = 1" "t = ECHO_REPLY"
    | "vs = 1" "t \<notin> {DP_ADD_SESSION, DP_DELETE_SESSION, DP_REQUEST_SESSION_COUNTERS, ECHO_REQUEST, ECHO_REPLY}"
    by blast
  then show ?thesis
  proof cases
    case 2
    then show ?thesis using handle_add_session_ok[OF f v _ ok net] t vs by (simp add: bfdd_message_cb_def)
  next
    case 3
    then show ?thesis using handle_delete_ok[OF f v _ ok] t vs by (simp add: bfdd_message_cb_def)
  next
    case 4
    then show ?thesis using handle_counters_ok[OF f v _ ok] t vs by (simp add: bfdd_message_cb_def)
  next
    case 5
    then show ?thesis using echo t vs ok
      by (auto simp: bfdd_message_cb_def bbdd_d_bfdd_c_handle_echo_request_def bbdd_bfdd_reply_echo_def)
  next
    case 6
    then show ?thesis using echo t vs ok
      by (auto simp: bfdd_message_cb_def bbdd_bfdd_echo_handle_reply_def rd64_def)
  qed (use t vs ok in \<open>simp_all add: bfdd_message_cb_def\<close>)
qed

lemma dispatch_ok:
  assumes "framed msg" and "dmn_ok (b_daemon w)" and "net_ok (e_net env)"
  shows "\<exists>ok w'. bbdd_bfdd_dispatch_message env io msg w = Some (ok, w') \<and> dmn_ok (b_daemon w')"
proof -
  obtain r where "bbdd_bfdd_msg_len_validate msg = Some r" using framed_validate_total[OF assms(1)] by blast
  then show ?thesis using message_cb_ok[OF assms(1) _ assms(2,3), of io] assms(2)
    by (cases r) (auto simp: bbdd_bfdd_dispatch_message_def)
qed

subsection \<open>A stream of messages\<close>

lemma ntoh16_bytes: "unat (ntoh16 (ucast a OR push_bit 8 (ucast (b :: u8)))) = unat (a :: u8) * 256 + unat b"
proof -
  have "ntoh16 (ucast a OR push_bit 8 (ucast b)) = push_bit 8 (ucast a) OR ucast b" (is "?l = ?r")
  proof (rule bit_word_eqI)
    fix n
    assume "n < LENGTH(16)"
    then consider "n < 8" | "8 \<le> n" "n < 16" by force
    then show "bit ?l n \<longleftrightarrow> bit ?r n"
      by cases (auto simp: ntoh16_def hton16_def bit_simps less_diff_conv2 dest: bit_imp_le_length)
  qed
  also have "\<dots> = push_bit 8 (ucast a) + ucast b"
    by (rule disjunctive_add [symmetric]) (auto simp: bit_simps dest: bit_imp_le_length)
  also have "\<dots> = of_nat (unat a * 256 + unat b)"
    by (simp add: push_bit_eq_mult)
  finally show ?thesis
    using unat_u8_less[of a] unat_u8_less[of b] by (simp add: unsigned_of_nat take_bit_eq_mod del: of_nat_add of_nat_mult)
qed

lemma bfddp_length_msg:
  assumes "8 \<le> length xs"
  shows "map_option unat (msg_length xs) = Some (unat (bfddp_length xs))"
proof -
  have "drop 6 xs = xs ! 6 # xs ! 7 # drop 8 xs"
    using assms Cons_nth_drop_Suc[of 6 xs] Cons_nth_drop_Suc[of 7 xs] by simp
  then show ?thesis using assms ntoh16_bytes[of "xs ! 6" "xs ! 7"]
    by (simp add: msg_length_def rd16_def bfddp_length_unat)
qed

lemma framed_take:
  assumes "8 \<le> unat (bfddp_length xs)" "unat (bfddp_length xs) \<le> length xs"
  shows "framed (take (unat (bfddp_length xs)) xs)"
proof -
  let ?m = "take (unat (bfddp_length xs)) xs"
  have "length ?m = unat (bfddp_length xs)" "bfddp_length ?m = bfddp_length xs"
    using assms bfddp_length_take by simp_all
  then show ?thesis using bfddp_length_msg[of ?m] assms by (simp add: framed_def sz_defs)
qed

lemma frames_preserve:
  assumes cb: "\<And>msg w. framed msg \<Longrightarrow> P w \<Longrightarrow> \<exists>ok w'. cb msg w = Some (ok, w') \<and> P w'"
  shows "P w \<Longrightarrow> \<exists>rest w' r. frames cb xs w = Some (rest, w', r) \<and> P w'"
proof (induction "length xs" arbitrary: xs w rule: less_induct)
  case less
  let ?n = "unat (bfddp_length xs)"
  show ?case
  proof (cases "8 \<le> length xs \<and> 8 \<le> ?n \<and> ?n \<le> length xs")
    case True
    then obtain ok w' where c: "cb (take ?n xs) w = Some (ok, w')" "P w'"
      using cb[OF framed_take less.prems] by blast
    have "length (drop ?n xs) < length xs" unfolding length_drop using True by linarith
    from less.hyps[OF this c(2)] obtain rest w2 r
      where "frames cb (drop ?n xs) w' = Some (rest, w2, r)" "P w2" by blast
    with c True show ?thesis by (auto simp: frames.simps[of cb xs] Let_def)
  next
    case False
    then show ?thesis using less.prems by (auto simp: frames.simps[of cb xs] Let_def not_le)
  qed
qed

lemma feed_dispatch_ok:
  assumes "m = 0 \<or> 66560 \<le> unat m" and "\<forall>c \<in> set cs. length c \<le> 1024" and alloc: "\<And>n. alloc n \<noteq> None"
    and "dmn_ok (b_daemon w)" and net: "net_ok (e_net env)"
  shows "\<exists>sb' w' r. feed alloc (bbdd_bfdd_dispatch_message env io) cs (zero_sb m) w = Some (sb', w', r) \<and> dmn_ok (b_daemon w')"
proof -
  let ?cb = "bbdd_bfdd_dispatch_message env io"
  obtain rest w' r where f: "frames ?cb (concat cs) w = Some (rest, w', r)" "dmn_ok (b_daemon w')"
    using frames_preserve[of "\<lambda>w. dmn_ok (b_daemon w)" ?cb w "concat cs"] dispatch_ok[OF _ _ net] assms(4) by blast
  from feed_fresh[of m cs alloc ?cb w, OF assms(1-3)]
  f show ?thesis by (auto split: option.splits)
qed

lemma del_message:
  "framed (bbdd_bfdd_d_del_session ident dd)" "bbdd_bfdd_msg_len_validate (bbdd_bfdd_d_del_session ident dd) = Some (Inr ())"
  "msg_type (bbdd_bfdd_d_del_session ident dd) = Some DP_DELETE_SESSION" "rd32 (bbdd_bfdd_d_del_session ident dd) 44 = Some (hton32 dd)"
  "rd8 (bbdd_bfdd_d_del_session ident dd) 0 = Some 1"
  by (simp_all add: framed_def bbdd_bfdd_d_del_session_def header_fields bbdd_bfdd_msg_len_validate_def
      bbdd_bfdd_msg_len_ck_def sz_defs rd_simps) (simp add: rd8_def header_bytes_def)

lemma request_counters_message:
  "bbdd_bfdd_msg_len_validate (bbdd_bfdd_d_request_counters ident dd) = Some (Inr ())"
  "msg_type (bbdd_bfdd_d_request_counters ident dd) = Some DP_REQUEST_SESSION_COUNTERS"
  "msg_id (bbdd_bfdd_d_request_counters ident dd) = Some ident"
  "rd32 (bbdd_bfdd_d_request_counters ident dd) 8 = Some (hton32 dd)" "rd8 (bbdd_bfdd_d_request_counters ident dd) 0 = Some 1"
  by (simp_all add: bbdd_bfdd_d_request_counters_def header_fields bbdd_bfdd_msg_len_validate_def
      bbdd_bfdd_msg_len_ck_def sz_defs rd_simps) (simp add: rd8_def header_bytes_def)

lemma dispatch_delete:
  assumes "dmn_ok (b_daemon w)"
  shows "\<exists>w'. bbdd_bfdd_dispatch_message env io (bbdd_bfdd_d_del_session ident dd) w = Some (True, w')
    \<and> d_sdir (b_daemon w') = filter (\<lambda>ds. skey ds \<noteq> dd) (d_sdir (b_daemon w))"
proof -
  obtain d' r where d: "bbdd_d_handle_session_del_one env (b_daemon w) dd = Some (d', r)"
    and r: "case r of Inl _ \<Rightarrow> d' = b_daemon w \<and> dd \<notin> skey ` set (d_sdir (b_daemon w))
       | Inr _ \<Rightarrow> d_sdir d' = filter (\<lambda>ds. skey ds \<noteq> dd) (d_sdir (b_daemon w))
           \<and> (\<exists>ds \<in> set (d_sdir (b_daemon w)). skey ds = dd \<and> sport_taken (d_spa d') = sport_taken (d_spa (b_daemon w)) - {sess_port ds})"
    using del_one_ok[OF assms, of env dd] by blast
  have "d_sdir d' = filter (\<lambda>ds. skey ds \<noteq> dd) (d_sdir (b_daemon w))"
    using r by (cases r) (auto intro!: filter_True[symmetric])
  then show ?thesis
    using d by (cases r) (simp_all add: bbdd_bfdd_dispatch_message_def bfdd_message_cb_def del_message handle_delete_session_def
        bbdd_d_bfdd_handle_delete_session_def count_dp_def)
qed

subsection \<open>Concrete messages\<close>

definition sample_bfdd :: "nat bfdd_world" where
  "sample_bfdd = \<lparr>b_daemon = sample_daemon, b_echo_peers = [], b_answers = [], b_sent = []\<rparr>"

definition sample_io :: bfdd_io where
  "sample_io = \<lparr>io_nq_ok = (\<lambda>_. True), io_now = 77, io_pad = 0\<rparr>"

lemma sample_bfdd_ok: "dmn_ok (b_daemon sample_bfdd)" "net_ok (e_net sample_d_env)"
  using sample_daemon_ok sample_net_ok by (simp_all add: sample_bfdd_def sample_d_env_def)

subsection \<open>Properties\<close>

text \<open>C6. Whatever bytes the BFD daemon sends, and however they are cut into received chunks, the
  data plane handles them: the tokenizer ends, no message is read past its end, no assertion
  fails, and the daemon stays consistent, each session valid, with its kernel side and a source
  port of its own.\<close>

theorem bfdd_stream_safe:
  assumes "m = 0 \<or> 66560 \<le> unat m" and "\<forall>c \<in> set cs. length c \<le> 1024" and "\<And>n. alloc n \<noteq> None"
    and "dmn_ok (b_daemon w)" and "net_ok (e_net env)"
  shows "\<exists>sb' w' r. feed alloc (bbdd_bfdd_dispatch_message env io) cs (zero_sb m) w = Some (sb', w', r) \<and> dmn_ok (b_daemon w')"
  by (rule feed_dispatch_ok[OF assms])

theorem bfdd_stream_safe_witness:
  "\<exists>sb' w' r. feed (\<lambda>_. Some (\<lambda>_. 0)) (bbdd_bfdd_dispatch_message sample_d_env sample_io)
     [take 10 (bbdd_bfdd_d_del_session 1 9), drop 10 (bbdd_bfdd_d_del_session 1 9), [0, 0, 0]] (zero_sb 0) sample_bfdd
     = Some (sb', w', r) \<and> dmn_ok (b_daemon w')"
  by (rule bfdd_stream_safe[OF _ _ _ sample_bfdd_ok]) (simp_all add: bbdd_bfdd_d_del_session_def)

text \<open>A deletion that the bridge sends deletes the session with that discriminator and no
  other, and is no error of the connection if there is no such session.\<close>

theorem bfdd_delete_message:
  assumes "dmn_ok (b_daemon w)"
  shows "\<exists>w'. bbdd_bfdd_dispatch_message env io (bbdd_bfdd_d_del_session ident dd) w = Some (True, w')
    \<and> d_sdir (b_daemon w') = filter (\<lambda>ds. skey ds \<noteq> dd) (d_sdir (b_daemon w))"
  by (rule dispatch_delete[OF assms])

theorem bfdd_delete_message_witness:
  "\<exists>w'. bbdd_bfdd_dispatch_message sample_d_env sample_io (bbdd_bfdd_d_del_session 1 9) sample_bfdd = Some (True, w')
    \<and> d_sdir (b_daemon w') = []"
proof -
  obtain ds where "d_sdir (b_daemon sample_bfdd) = [ds]" "skey ds = 9"
    using sample_daemon_sdir by (auto simp: sample_bfdd_def map_eq_Cons_conv)
  then show ?thesis using bfdd_delete_message[OF sample_bfdd_ok(1), of sample_d_env sample_io 1 9] by simp
qed

text \<open>A request for counters is always answered, under its own id: with the sum of what the
  kernel and the daemon counted, or with half the largest value in every counter if there
  is no such session, so that the BFD daemon does not wait in vain.\<close>

theorem bfdd_counters_answered:
  assumes "\<And>msg. io_nq_ok io msg"
  shows "\<exists>w' stats. bbdd_bfdd_dispatch_message env io (bbdd_bfdd_d_request_counters ident dd) w = Some (True, w')
    \<and> b_sent w' = b_sent w @ [bbdd_bfdd_c_reply_counters (io_pad io) ident dd stats]
    \<and> (case (bbdd_sess_dir_get_session (d_sdir (b_daemon w)) dd, bbdd_bpf_sdir_get_session (d_bpf (b_daemon w)) dd,
             data_hash (d_bpf (b_daemon w)) dd) of
         (Some _, Some bs, Some dat) \<Rightarrow> stats = (\<lambda>f. data_stats dat f + bs_stats bs f) \<and> b_daemon w' = b_daemon w
       | _ \<Rightarrow> stats = nonsense_stats)"
  using assms
  by (auto simp: bbdd_bfdd_dispatch_message_def bfdd_message_cb_def request_counters_message
      bbdd_d_bfdd_handle_session_counters_def bbdd_bfdd_write_enqueue_def Let_def bbdd_bpf_session_stats_fill_def
      split: option.split bind_splits)
theorem bfdd_counters_answered_witness:
  "\<exists>w'. bbdd_bfdd_dispatch_message sample_d_env sample_io (bbdd_bfdd_d_request_counters 3 8) sample_bfdd = Some (True, w')
    \<and> length (b_sent w') = 1"
  using bfdd_counters_answered[of sample_io sample_d_env 3 8 sample_bfdd] by (auto simp: sample_io_def sample_bfdd_def)

end
