(* ===== verification/Daemon_Run.thy ===== *)
theory Daemon_Run
  imports Bfdd_Daemon
begin

text \<open>
  The daemon as a transition system: it starts with no sessions and then serves, in any
  order, the requests of the control socket, the messages of the BFD daemon, the events of
  the kernel, its timers and the socket that became writable.  The theory shows that every
  state that can be reached is consistent and that every event is served without a failed
  assertion, in whatever way the allocations and the system calls turn out.
\<close>

subsection \<open>Events\<close>

datatype 'j d_event =
    Ev_session_add 'j
  | Ev_session_set 'j
  | Ev_session_del 'j
  | Ev_echo bool u64 nat 'j
  | Ev_peer_done nat
  | Ev_bfdd "u8 list"
  | Ev_ring bbdd_bpf_rb_elem
  | Ev_hold u32
  | Ev_shwait u32
  | Ev_writable

text \<open>What one event depends on besides the state.\<close>

record 'j d_ctx =
  x_json :: "'j json_c"
  x_env :: d_env
  x_io :: bfdd_io
  x_ifinfo :: ifinfo_fn

definition on_daemon :: "(bbdd_d \<times> 'r) option \<Rightarrow> 'j bfdd_world \<Rightarrow> 'j bfdd_world option" where
  "on_daemon r w = map_option (\<lambda>(d, _). w\<lparr>b_daemon := d\<rparr>) r"

definition on_world :: "world option \<Rightarrow> 'j bfdd_world \<Rightarrow> 'j bfdd_world option" where
  "on_world r w = map_option (\<lambda>x. w\<lparr>b_daemon := (b_daemon w)\<lparr>d_world := x\<rparr>\<rparr>) r"

fun d_handle :: "'j d_ctx \<Rightarrow> 'j d_event \<Rightarrow> 'j bfdd_world \<Rightarrow> 'j bfdd_world option" where
  "d_handle x (Ev_session_add p) w = on_daemon (bbdd_d_handle_session_add (x_json x) (x_env x) (b_daemon w) p) w"
| "d_handle x (Ev_session_set p) w = on_daemon (bbdd_d_handle_session_set (x_json x) (x_env x) (b_daemon w) p) w"
| "d_handle x (Ev_session_del p) w = on_daemon (bbdd_d_handle_session_del (x_json x) (x_env x) (b_daemon w) p) w"
| "d_handle x (Ev_echo alloc_ok ts p i) w =
     (let msg = bbdd_bfdd_send_echo 1 ts True;
          (eps, as, msgs) = bbdd_bfdd_echo_handle_start (b_echo_peers w) alloc_ok (io_nq_ok (x_io x) msg) ts p i True
      in Some (w\<lparr>b_echo_peers := eps, b_answers := b_answers w @ as, b_sent := b_sent w @ msgs\<rparr>))"
| "d_handle x (Ev_peer_done p) w = Some (w\<lparr>b_echo_peers := bbdd_bfdd_echo_peer_done (b_echo_peers w) p\<rparr>)"
| "d_handle x (Ev_bfdd msg) w = map_option snd (bbdd_bfdd_dispatch_message (x_env x) (x_io x) msg w)"
| "d_handle x (Ev_ring el) w =
     on_world (bbdd_bpf_rb_handle (e_bpf (x_env x)) (x_ifinfo x) bbdd_d_match_session (d_world (b_daemon w)) el) w"
| "d_handle x (Ev_hold dd) w = on_world (map_option snd (bbdd_bpf_hold_timer_cb (e_bpf (x_env x)) dd (d_world (b_daemon w)))) w"
| "d_handle x (Ev_shwait dd) w = on_world (map_option snd (bbdd_bpf_shwait_timer_cb (e_bpf (x_env x)) dd (d_world (b_daemon w)))) w"
| "d_handle x Ev_writable w = on_world (bbdd_bpf_tx_drain (e_bpf (x_env x)) (d_world (b_daemon w))) w"

text \<open>When an event can occur: the tokenizer delivers whole messages, a timer fires for a
  session that waits for it, and the random source comes to a value that is free.  Two
  events are left out, since the daemon may not survive them (see the properties on them in
  \<open>Bpf_Claims\<close>): a timeout that the kernel reported before the session was
  created again, and a shutdown timer that a poll sequence has left armed.\<close>

fun can_occur :: "'j d_ctx \<Rightarrow> 'j d_event \<Rightarrow> 'j bfdd_world \<Rightarrow> bool" where
  "can_occur x (Ev_session_add _) w \<longleftrightarrow> rnd_ok (x_env x) (b_daemon w)"
| "can_occur x (Ev_bfdd msg) w \<longleftrightarrow> framed msg"
| "can_occur x (Ev_ring el) w \<longleftrightarrow> \<not> timeout_on_hold (d_world (b_daemon w)) el"
| "can_occur x (Ev_hold dd) w \<longleftrightarrow>
     (\<exists>bs p. bbdd_bpf_sdir_get_session (d_bpf (b_daemon w)) dd = Some bs \<and> bstate bs = ON_HOLD \<and> bs_hold bs = Some p)"
| "can_occur x (Ev_shwait dd) w \<longleftrightarrow>
     (\<exists>bs. bbdd_bpf_sdir_get_session (d_bpf (b_daemon w)) dd = Some bs \<and> bstate bs = SHUTTING_DOWN)"
| "can_occur x _ w \<longleftrightarrow> True"

definition ctx_ok :: "'j d_ctx \<Rightarrow> bool" where
  "ctx_ok x \<longleftrightarrow> json_ok (x_json x) \<and> net_ok (e_net (x_env x))"

inductive d_step :: "'j bfdd_world \<Rightarrow> 'j bfdd_world \<Rightarrow> bool" where
  event: "ctx_ok x \<Longrightarrow> can_occur x ev w \<Longrightarrow> d_handle x ev w = Some w' \<Longrightarrow> d_step w w'"

inductive d_reach :: "'j bfdd_world \<Rightarrow> bool" where
  start: "d_reach \<lparr>b_daemon = bbdd_d_started rxi txi cap, b_echo_peers = [], b_answers = [], b_sent = []\<rparr>"
| step: "d_reach w \<Longrightarrow> d_step w w' \<Longrightarrow> d_reach w'"

inductive_cases d_stepE: "d_step w w'"

subsection \<open>Every event is served\<close>

lemma on_world_ok:
  assumes "dmn_ok (b_daemon w)" and "r = Some x" "world_ok x" "ucfgs x = ucfgs (d_world (b_daemon w))"
  shows "\<exists>w'. on_world r w = Some w' \<and> dmn_ok (b_daemon w')"
  using assms dmn_ok_cfg by (simp add: on_world_def)

lemma on_daemon_ok: "r = Some (d, y) \<Longrightarrow> dmn_ok d \<Longrightarrow> \<exists>w'. on_daemon r w = Some w' \<and> dmn_ok (b_daemon w')"
  by (simp add: on_daemon_def)

lemma d_handle_ok:
  assumes x: "ctx_ok x" and o: "can_occur x ev w" and d: "dmn_ok (b_daemon w)"
  shows "\<exists>w'. d_handle x ev w = Some w' \<and> dmn_ok (b_daemon w')"
proof -
  have J: "json_ok (x_json x)" and N: "net_ok (e_net (x_env x))" using x by (simp_all add: ctx_ok_def)
  have w: "world_ok (d_world (b_daemon w))" using d by (simp add: dmn_ok_def)
  show ?thesis
  proof (cases ev)
    case (Ev_session_add p)
    then obtain d' r where "bbdd_d_handle_session_add (x_json x) (x_env x) (b_daemon w) p = Some (d', r)" "dmn_ok d'"
      using handle_session_add_ok[OF d J N] o by force
    then show ?thesis using Ev_session_add on_daemon_ok[of _ d' r w] by simp
  next
    case (Ev_session_set p)
    obtain d' r where "bbdd_d_handle_session_set (x_json x) (x_env x) (b_daemon w) p = Some (d', r)" "dmn_ok d'"
      using handle_session_set_ok[OF d J N] by blast
    then show ?thesis using Ev_session_set on_daemon_ok[of _ d' r w] by simp
  next
    case (Ev_session_del p)
    obtain d' r where "bbdd_d_handle_session_del (x_json x) (x_env x) (b_daemon w) p = Some (d', r)" "dmn_ok d'"
      using handle_session_del_ok[OF d J N] by blast
    then show ?thesis using Ev_session_del on_daemon_ok[of _ d' r w] by simp
  next
    case (Ev_bfdd msg)
    then obtain k w' where "bbdd_bfdd_dispatch_message (x_env x) (x_io x) msg w = Some (k, w')" "dmn_ok (b_daemon w')"
      using dispatch_ok[OF _ d N] o by force
    then show ?thesis using Ev_bfdd by simp
  next
    case (Ev_ring el)
    then obtain w' where "bbdd_bpf_rb_handle (e_bpf (x_env x)) (x_ifinfo x) bbdd_d_match_session (d_world (b_daemon w)) el = Some w'"
      "world_ok w'" "ucfgs w' = ucfgs (d_world (b_daemon w))" using rb_handle_ok[OF w match_session_sound] o by force
    then show ?thesis using Ev_ring on_world_ok[OF d refl] by simp
  next
    case (Ev_hold dd)
    then obtain bs p where "bbdd_bpf_sdir_get_session (d_bpf (b_daemon w)) dd = Some bs" "bstate bs = ON_HOLD" "bs_hold bs = Some p"
      using o by auto
    from hold_cb_ok[OF w this, of "e_bpf (x_env x)"] show ?thesis using Ev_hold on_world_ok[OF d] by force
  next
    case (Ev_shwait dd)
    then obtain bs where "bbdd_bpf_sdir_get_session (d_bpf (b_daemon w)) dd = Some bs" "bstate bs = SHUTTING_DOWN" using o by auto
    from shwait_cb_ok[OF w this, of "e_bpf (x_env x)"] show ?thesis using Ev_shwait on_world_ok[OF d] by force
  next
    case Ev_writable
    obtain w' where "bbdd_bpf_tx_drain (e_bpf (x_env x)) (d_world (b_daemon w)) = Some w'" "world_ok w'" "wsdir w' = wsdir (d_world (b_daemon w))"
      using tx_drain_ok[OF w] by blast
    then show ?thesis using Ev_writable on_world_ok[OF d] by (simp add: ucfgs_def)
  qed (use d in \<open>simp_all add: Let_def split: prod.split\<close>)
qed

lemma reach_ok: "d_reach w \<Longrightarrow> dmn_ok (b_daemon w)"
proof (induction rule: d_reach.induct)
  case (step w w')
  from step.hyps(2) obtain x ev where "ctx_ok x" "can_occur x ev w" "d_handle x ev w = Some w'" by (rule d_stepE)
  then show ?case using d_handle_ok[of x ev w] step.IH by auto
qed (simp add: started_ok)

lemma session_count:
  assumes "dmn_ok d"
  shows "length (d_sdir d) \<le> 16384"
proof -
  have p: "distinct (map sess_port (d_sdir d))" "\<forall>q \<in> set (map sess_port (d_sdir d)). sport_valid q"
    using assms unfolding dmn_ok_def owned_def by blast+
  let ?f = "\<lambda>q :: u16. unat q - 49152"
  have lt: "unat q < 65536" for q :: u16 using unsigned_less[of q] by simp
  have "?f q \<in> {..<16384}" for q using lt[of q] unfolding lessThan_iff by linarith
  then have "?f ` set (map sess_port (d_sdir d)) \<subseteq> {..<16384}" by (rule image_subsetI)
  moreover have "inj_on ?f (set (map sess_port (d_sdir d)))"
    using p(2) by (intro inj_onI) (auto simp: sport_valid_def sport_consts eq_diff_iff word_unat_eq_iff)
  ultimately have "card (set (map sess_port (d_sdir d))) \<le> card {..<16384 :: nat}"
    by (metis card_image card_mono finite_lessThan)
  then show ?thesis using distinct_card[OF p(1)] by simp
qed

subsection \<open>A concrete run\<close>

definition fresh_bfdd :: "jval bfdd_world" where
  "fresh_bfdd = \<lparr>b_daemon = bbdd_d_started 1 2 4, b_echo_peers = [], b_answers = [], b_sent = []\<rparr>"

definition sample_ctx :: "jval d_ctx" where
  "sample_ctx = \<lparr>x_json = sample_json, x_env = sample_d_env, x_io = sample_io, x_ifinfo = (\<lambda>_. None)\<rparr>"
lemma sample_ctx_ok: "ctx_ok sample_ctx" "d_reach fresh_bfdd"
  using sample_json_ok sample_net_ok d_reach.start by (simp_all add: ctx_ok_def sample_ctx_def sample_d_env_def fresh_bfdd_def)

lemma sample_can_occur: "can_occur sample_ctx (Ev_session_add (JObj [])) fresh_bfdd"
  by (auto simp: rnd_ok_def sample_ctx_def sample_d_env_def fresh_bfdd_def bbdd_d_started_def bbdd_sess_dir_get_session_def kget_def)

lemma sample_step: "\<exists>w. d_handle sample_ctx (Ev_session_add (JObj [])) fresh_bfdd = Some w \<and> d_reach w"
proof -
  obtain w where h: "d_handle sample_ctx (Ev_session_add (JObj [])) fresh_bfdd = Some w"
    using d_handle_ok[OF sample_ctx_ok(1) sample_can_occur reach_ok[OF sample_ctx_ok(2)]] by blast
  then show ?thesis using d_reach.step[OF sample_ctx_ok(2) d_step.event[OF sample_ctx_ok(1) sample_can_occur h]] by blast
qed

subsection \<open>Properties\<close>





text \<open>C40. The daemon never has more than 16384 sessions, the number of source ports.\<close>

theorem daemon_session_limit:
  assumes "d_reach w"
  shows "length (d_sdir (b_daemon w)) \<le> 16384"
  by (rule session_count[OF reach_ok[OF assms]])

theorem daemon_session_limit_witness:
  "\<exists>w. d_handle sample_ctx (Ev_session_add (JObj [])) fresh_bfdd = Some w \<and> length (d_sdir (b_daemon w)) \<le> 16384"
  using sample_step daemon_session_limit by blast

end
