(* ===== verification/Bpf_Prog.thy ===== *)
theory Bpf_Prog
  imports Bfd_Codec
begin

text \<open>
  The programs that run in the kernel (\<open>bbdd-prog.bpf.c\<close>): the looper that sends
  the periodic packets (\<open>bbdd_xmit_veth_tx\<close>), the re-arm hook
  (\<open>bbdd_xmit_veth_rx_xmit\<close>), the receive filter (\<open>bbdd_recv\<close>) and the socket
  selection (\<open>bbdd_sk_lookup\<close>).  Every BPF helper is a field of \<open>bpf_helpers\<close>; the
  two hash maps, the global counters and the ring buffer are the state.
\<close>

record sk_buff =
  skb_data :: "u8 list"
  skb_net :: "u8 list"
  skb_protocol :: be16
  skb_mark :: u32
  skb_hash :: u32
  skb_len :: u32
  skb_ingress_ifindex :: u32
  skb_tstamp :: u64

text \<open>\<open>skb_data\<close> is what a dynptr on the buffer covers (from the Ethernet header
  in the tc programs, from the UDP header in the socket program), \<open>skb_net\<close> the
  bytes from the network header.\<close>

record bpf_helpers =
  h_dynptr_from_skb :: "sk_buff \<Rightarrow> bool"
  h_dynptr_slice :: "sk_buff \<Rightarrow> nat \<Rightarrow> nat \<Rightarrow> u8 list option"
  h_dynptr_store :: "sk_buff \<Rightarrow> nat \<Rightarrow> u8 list \<Rightarrow> sk_buff option"
  h_load_net :: "sk_buff \<Rightarrow> nat \<Rightarrow> u8 list option"
  h_l3_csum_replace :: "sk_buff \<Rightarrow> nat \<Rightarrow> u32 \<Rightarrow> u32 \<Rightarrow> sk_buff option"
  h_l4_csum_replace :: "sk_buff \<Rightarrow> nat \<Rightarrow> u32 \<Rightarrow> u32 \<Rightarrow> bool \<Rightarrow> sk_buff option"
  h_fib_lookup :: "sk_buff \<Rightarrow> bpf_fib_lookup \<Rightarrow> u32 \<Rightarrow> int \<times> bpf_fib_lookup"
  h_redirect :: "u32 \<Rightarrow> int"
  h_clone_redirect :: "sk_buff \<Rightarrow> u32 \<Rightarrow> int"
  h_prandom_u32 :: u32
  h_ktime_ns :: u64
  h_ringbuf_reserve :: bool
  h_timer_init :: int
  h_timer_set_callback :: int
  h_timer_start :: int

record prog =
  p_config_hash :: "u32 \<Rightarrow> bbdd_prog_session_config option"
  p_data_hash :: "u32 \<Rightarrow> bbdd_prog_session_data option"
  p_diag :: global_diag_stats
  p_rb :: "bbdd_bpf_rb_elem list"
  p_veth_tx_ifindex :: u32

abbreviation (input) TC_ACT_OK :: int where "TC_ACT_OK \<equiv> 0"
abbreviation (input) TC_ACT_SHOT :: int where "TC_ACT_SHOT \<equiv> 2"
abbreviation (input) TC_ACT_STOLEN :: int where "TC_ACT_STOLEN \<equiv> 4"
abbreviation (input) TC_ACT_REDIRECT :: int where "TC_ACT_REDIRECT \<equiv> 7"

definition bump_global :: "global_diag \<Rightarrow> prog \<Rightarrow> prog" where
  "bump_global c g = g\<lparr>p_diag := bump c (p_diag g)\<rparr>"

definition upd_data :: "u32 \<Rightarrow> (bbdd_prog_session_data \<Rightarrow> bbdd_prog_session_data) \<Rightarrow> prog \<Rightarrow> prog" where
  "upd_data d f g = g\<lparr>p_data_hash := (p_data_hash g)(d := map_option f (p_data_hash g d))\<rparr>"

definition bump_sess :: "u32 \<Rightarrow> session_diag \<Rightarrow> prog \<Rightarrow> prog" where
  "bump_sess d c g = upd_data d (\<lambda>x. x\<lparr>data_diag_stats := bump c (data_diag_stats x)\<rparr>) g"

definition release :: "prog \<Rightarrow> prog" where
  "release g = bump_global Sk_released_count g"

subsection \<open>Notifications\<close>

definition rb_submit :: "bpf_helpers \<Rightarrow> bbdd_bpf_rb_elem \<Rightarrow> prog \<Rightarrow> prog" where
  "rb_submit h el g =
     (if \<not> h_ringbuf_reserve h then bump_global Ring_buffer_error g
      else g\<lparr>p_rb := p_rb g @ [el]\<rparr>)"

definition bbdd_tx_notify_no_neigh :: "bpf_helpers \<Rightarrow> be16 \<Rightarrow> bpf_fib_lookup \<Rightarrow> prog \<Rightarrow> prog" where
  "bbdd_tx_notify_no_neigh h proto params g =
     rb_submit h
       (RB_TX_NO_NEIGH (fib_ifindex params) (ntoh16 proto)
          (if proto = hton16 0x0800 then (ipv4_dst params, 0, 0, 0) else ipv6_dst params)) g"

definition bbdd_rx_notify_timeout :: "bpf_helpers \<Rightarrow> u32 \<Rightarrow> prog \<Rightarrow> prog" where
  "bbdd_rx_notify_timeout h d g = rb_submit h (RB_RX_TIMEOUT d) g"

record rx_pkt_digest =
  rd_ttl :: u8
  rd_multihop :: bool
  rd_wire_len :: u32
  rd_saddr :: bbdd_bpf_addr
  rd_daddr :: bbdd_bpf_addr

definition bbdd_rx_notify_discr_0 ::
  "bpf_helpers \<Rightarrow> sk_buff \<Rightarrow> rx_pkt_digest \<Rightarrow> bbdd_bfd_pkt \<Rightarrow> prog \<Rightarrow> prog"
where
  "bbdd_rx_notify_discr_0 h skb dg p g =
     rb_submit h
       (RB_RX_DISCR_0
          \<lparr>el_ifindex = skb_ingress_ifindex skb, el_wire_len = rd_wire_len dg,
           el_ethtype = ntoh16 (skb_protocol skb), el_ttl = rd_ttl dg,
           el_multihop = rd_multihop dg, el_saddr = rd_saddr dg, el_daddr = rd_daddr dg,
           el_packet = p\<rparr>) g"

definition bbdd_rx_notify_unx_pkt :: "bpf_helpers \<Rightarrow> bbdd_bfd_pkt \<Rightarrow> u8 \<Rightarrow> u32 \<Rightarrow> prog \<Rightarrow> prog" where
  "bbdd_rx_notify_unx_pkt h p ttl wire_len g = rb_submit h (RB_RX_UNX_PKT wire_len ttl p) g"

subsection \<open>Recognising own packets\<close>

definition bbdd_tx_is_bfd_ipv4 :: "bpf_helpers \<Rightarrow> sk_buff \<Rightarrow> nat \<Rightarrow> (nat \<times> u16) option" where
  "bbdd_tx_is_bfd_ipv4 h skb off =
     (case h_dynptr_slice h skb off 20 of
        None \<Rightarrow> None
      | Some iph \<Rightarrow> if iph ! 9 \<noteq> 17 then None
                    else Some (off + 20, ntoh16 (load16 (drop 2 iph))))"

definition bbdd_tx_is_bfd_ipv6 :: "bpf_helpers \<Rightarrow> sk_buff \<Rightarrow> nat \<Rightarrow> (nat \<times> u16) option" where
  "bbdd_tx_is_bfd_ipv6 h skb off =
     (case h_dynptr_slice h skb off 40 of
        None \<Rightarrow> None
      | Some ip6h \<Rightarrow> if ip6h ! 6 \<noteq> 17 then None
                     else Some (off + 40, ntoh16 (load16 (drop 4 ip6h)) + 40))"

definition bbdd_tx_get_bfd :: "bpf_helpers \<Rightarrow> sk_buff \<Rightarrow> (bbdd_bfd_pkt \<times> u16) option" where
  "bbdd_tx_get_bfd h skb =
     (let proto = skb_protocol skb
      in if proto \<noteq> hton16 0x0800 \<and> proto \<noteq> hton16 0x86DD then None
         else if \<not> h_dynptr_from_skb h skb then None
         else
           (case (if proto = hton16 0x0800 then bbdd_tx_is_bfd_ipv4 h skb 14
                  else bbdd_tx_is_bfd_ipv6 h skb 14) of
              None \<Rightarrow> None
            | Some (off, tot_len) \<Rightarrow>
                (case h_dynptr_slice h skb off 8 of
                   None \<Rightarrow> None
                 | Some udph \<Rightarrow>
                     if load16 (drop 2 udph) \<noteq> hton16 BFD_SINGLE_HOP_PORT
                        \<and> load16 (drop 2 udph) \<noteq> hton16 BFD_MULTI_HOP_PORT then None
                     else (case h_dynptr_slice h skb (off + 8) 24 of
                             None \<Rightarrow> None
                           | Some bfd \<Rightarrow> Some (bfd_of_bytes bfd, tot_len)))))"

subsection \<open>Filling in addresses\<close>

text \<open>A helper that fails leaves the buffer as it was; what earlier helpers wrote
  stays written.\<close>

definition bbdd_tx_update_ipv4 :: "bpf_helpers \<Rightarrow> sk_buff \<Rightarrow> bpf_fib_lookup \<Rightarrow> bool \<times> sk_buff" where
  "bbdd_tx_update_ipv4 h skb params =
     (case h_dynptr_slice h skb 14 20 of
        None \<Rightarrow> (False, skb)
      | Some iph \<Rightarrow>
          let old_saddr = load32 (drop 12 iph);
              iph' = take 12 iph @ bytes32 (ipv4_src params) @ drop 16 iph
          in case h_dynptr_store h skb 14 iph' of
               None \<Rightarrow> (False, skb)
             | Some skb1 \<Rightarrow>
                 (case h_l3_csum_replace h skb1 (14 + 10) old_saddr (ipv4_src params) of
                    None \<Rightarrow> (False, skb1)
                  | Some skb2 \<Rightarrow>
                      (case h_l4_csum_replace h skb2 (14 + 20 + 6) old_saddr (ipv4_src params) True of
                         None \<Rightarrow> (False, skb2)
                       | Some skb3 \<Rightarrow> (True, skb3))))"

fun in6_word :: "in6_addr \<Rightarrow> nat \<Rightarrow> u32" where
  "in6_word (a, b, c, d) i = (if i = 0 then a else if i = 1 then b else if i = 2 then c else d)"

fun l4_replace_words ::
  "bpf_helpers \<Rightarrow> in6_addr \<Rightarrow> in6_addr \<Rightarrow> nat list \<Rightarrow> sk_buff \<Rightarrow> bool \<times> sk_buff"
where
  "l4_replace_words h old new [] skb = (True, skb)"
| "l4_replace_words h old new (i # is) skb =
     (case h_l4_csum_replace h skb (14 + 40 + 6) (in6_word old i) (in6_word new i) False of
        None \<Rightarrow> (False, skb)
      | Some skb' \<Rightarrow> l4_replace_words h old new is skb')"

definition bbdd_tx_update_ipv6 :: "bpf_helpers \<Rightarrow> sk_buff \<Rightarrow> bpf_fib_lookup \<Rightarrow> bool \<times> sk_buff" where
  "bbdd_tx_update_ipv6 h skb params =
     (case h_dynptr_slice h skb 14 40 of
        None \<Rightarrow> (False, skb)
      | Some ip6h \<Rightarrow>
          let old = (load32 (drop 8 ip6h), load32 (drop 12 ip6h),
                     load32 (drop 16 ip6h), load32 (drop 20 ip6h));
              ip6h' = take 8 ip6h @ bytes_in6 (ipv6_src params) @ drop 24 ip6h
          in case h_dynptr_store h skb 14 ip6h' of
               None \<Rightarrow> (False, skb)
             | Some skb1 \<Rightarrow> l4_replace_words h old (ipv6_src params) [0, 1, 2, 3] skb1)"

definition bbdd_tx_update :: "bpf_helpers \<Rightarrow> sk_buff \<Rightarrow> bpf_fib_lookup \<Rightarrow> bool \<times> sk_buff" where
  "bbdd_tx_update h skb params =
     (if \<not> h_dynptr_from_skb h skb then (False, skb)
      else case h_dynptr_slice h skb 0 14 of
             None \<Rightarrow> (False, skb)
           | Some eth \<Rightarrow>
               (case h_dynptr_store h skb 0 (dmac params @ smac params @ drop 12 eth) of
                  None \<Rightarrow> (False, skb)
                | Some skb1 \<Rightarrow>
                    if skb_protocol skb = hton16 0x0800 then bbdd_tx_update_ipv4 h skb1 params
                    else bbdd_tx_update_ipv6 h skb1 params))"

subsection \<open>The looper\<close>

text \<open>The counter for a result of the route lookup that ends the attempt; the
  codes are those of \<open>BPF_FIB_LKUP_RET\<close>.\<close>

definition fib_ret_diag :: "int \<Rightarrow> session_diag option" where
  "fib_ret_diag ret =
     (if ret < 0 then Some Tx_fail_lookup
      else if ret = 1 then Some Tx_dst_blackholed
      else if ret = 2 then Some Tx_dst_unreachable
      else if ret = 3 then Some Tx_dst_prohibited
      else if ret = 4 then Some Tx_not_forwarded
      else if ret = 5 then Some Tx_indev_no_forwarding
      else if ret = 6 then Some Tx_req_encap
      else if ret = 8 then Some Tx_req_fragmentation
      else if ret = 9 then Some Tx_no_src_addr
      else None)"

definition jitter_interval :: "bpf_helpers \<Rightarrow> bbdd_prog_session_config \<Rightarrow> u64" where
  "jitter_interval h config =
     (let interval_us = (ucast (max_interval_us config - min_interval_us config) :: u64);
          interval_us = ucast (h_prandom_u32 h) * interval_us div ucast (- 1 :: u32)
      in interval_us + ucast (min_interval_us config))"

definition tx_out ::
  "bpf_helpers \<Rightarrow> bbdd_prog_session_config \<Rightarrow> bool \<Rightarrow> int \<Rightarrow> sk_buff \<Rightarrow> prog \<Rightarrow> int \<times> sk_buff \<times> prog"
where
  "tx_out h config final final_rc skb g =
     (if final then (final_rc, skb, release g)
      else (TC_ACT_OK, skb\<lparr>skb_tstamp := h_ktime_ns h + jitter_interval h config * 1000\<rparr>, g))"

definition tx_forward ::
  "bpf_helpers \<Rightarrow> u32 \<Rightarrow> bbdd_prog_session_config \<Rightarrow> bool \<Rightarrow> bpf_fib_lookup \<Rightarrow> sk_buff \<Rightarrow> prog
   \<Rightarrow> int \<times> sk_buff \<times> prog"
where
  "tx_forward h d config final params skb g =
     (if fib_ifindex params = p_veth_tx_ifindex g
      then tx_out h config final TC_ACT_SHOT skb (bump_sess d Tx_loopback_filter g)
      else case bbdd_tx_update h skb params of
             (False, skb1) \<Rightarrow> tx_out h config final TC_ACT_SHOT skb1 (bump_sess d Tx_fail_update g)
           | (True, skb1) \<Rightarrow>
               let sent = upd_data d (\<lambda>x. x\<lparr>data_stats :=
                     (let s = bump Tx_packets (data_stats x)
                      in s(Tx_bytes := s Tx_bytes + ucast (skb_len skb1)))\<rparr>) g
               in if final
                  then let final_rc = h_redirect h (fib_ifindex params)
                       in if final_rc = TC_ACT_SHOT
                          then (final_rc, skb1, release (bump_sess d Tx_fail_redir g))
                          else tx_out h config final final_rc skb1 sent
                  else if h_clone_redirect h skb1 (fib_ifindex params) < 0
                       then tx_out h config final TC_ACT_SHOT skb1 (bump_sess d Tx_fail_redir g)
                       else tx_out h config final TC_ACT_SHOT skb1 sent)"

definition bbdd_xmit_veth_tx :: "bpf_helpers \<Rightarrow> sk_buff \<Rightarrow> prog \<Rightarrow> int \<times> sk_buff \<times> prog" where
  "bbdd_xmit_veth_tx h skb g =
     (case bbdd_tx_get_bfd h skb of
        None \<Rightarrow> (TC_ACT_SHOT, skb, bump_global Tx_not_bfd g)
      | Some (bfd, tot_len) \<Rightarrow>
          let final = (bbdd_bfd_pkt_bits bfd AND BIT_FINAL \<noteq> 0);
              d = ntoh32 (my_disc bfd)
          in case (p_config_hash g d, p_data_hash g d) of
               (Some config, Some dat) \<Rightarrow>
                 if skb_mark skb \<noteq> cfg_gen_id config
                 then (TC_ACT_SHOT, skb, release (bump_sess d Tx_wrong_gen_id g))
                 else
                   let skb1 = (if skb_hash skb = 0
                               then skb\<lparr>skb_hash := d XOR (cfg_gen_id config * 2654435761)\<rparr>
                               else skb)
                   in (case h_fib_lookup h skb1 ((fib_lookup config)\<lparr>fib_tot_len := tot_len\<rparr>)
                              (bpf_fib_lookup_flags config) of
                         (ret, params) \<Rightarrow>
                           if ret = 7
                           then let g1 = bbdd_tx_notify_no_neigh h (skb_protocol skb1) params g
                                in if final
                                   then (TC_ACT_STOLEN, skb1,
                                         release (bump_sess d Tx_no_neigh_final g1))
                                   else tx_out h config final TC_ACT_SHOT skb1
                                          (bump_sess d Tx_no_neigh g1)
                           else (case fib_ret_diag ret of
                                   Some c \<Rightarrow> tx_out h config final TC_ACT_SHOT skb1 (bump_sess d c g)
                                 | None \<Rightarrow> tx_forward h d config final params skb1 g))
             | _ \<Rightarrow> (TC_ACT_SHOT, skb, release (bump_global Tx_no_session g)))"

definition bbdd_xmit_veth_rx :: "bpf_helpers \<Rightarrow> prog \<Rightarrow> int" where
  "bbdd_xmit_veth_rx h g = h_redirect h (p_veth_tx_ifindex g)"

subsection \<open>The detection timer\<close>

definition bfd_session_expired :: "bpf_helpers \<Rightarrow> u32 \<Rightarrow> prog \<Rightarrow> prog" where
  "bfd_session_expired h d g = bbdd_rx_notify_timeout h d (bump_sess d Rx_timeout g)"

definition bbdd_recv_rearm_timer :: "bpf_helpers \<Rightarrow> u32 \<Rightarrow> bbdd_prog_session_config \<Rightarrow> prog \<Rightarrow> prog" where
  "bbdd_recv_rearm_timer h d config g =
     (if \<not> rearm_timer config then g
      else
        let initd = (case p_data_hash g d of None \<Rightarrow> False | Some x \<Rightarrow> timer_initd x)
        in if \<not> initd \<and> h_timer_init h \<noteq> 0 \<and> h_timer_init h \<noteq> - 16
           then bump_sess d Ra_fail_timer g
           else if \<not> initd \<and> h_timer_set_callback h \<noteq> 0
           then bump_sess d Ra_fail_timer g
           else
             let g1 = (if initd then g else upd_data d (\<lambda>x. x\<lparr>timer_initd := True\<rparr>) g);
                 detect_time_ns = ucast (detect_time_us config) * 1000
             in if h_timer_start h \<noteq> 0 then bump_sess d Ra_fail_timer g1
                else upd_data d (\<lambda>x. x\<lparr>timer_armed_ns := Some detect_time_ns\<rparr>) g1)"

definition bbdd_xmit_veth_rx_xmit :: "bpf_helpers \<Rightarrow> sk_buff \<Rightarrow> prog \<Rightarrow> int \<times> prog" where
  "bbdd_xmit_veth_rx_xmit h skb g =
     (case bbdd_tx_get_bfd h skb of
        None \<Rightarrow> (TC_ACT_SHOT, bump_global Ra_not_bfd g)
      | Some (bfd, tot_len) \<Rightarrow>
          let d = ntoh32 (my_disc bfd)
          in case (p_config_hash g d, p_data_hash g d) of
               (Some config, Some dat) \<Rightarrow>
                 (TC_ACT_STOLEN, release (bbdd_recv_rearm_timer h d config g))
             | _ \<Rightarrow> (TC_ACT_SHOT, release (bump_global Ra_no_session g)))"

subsection \<open>Receiving\<close>

definition bbdd_recv_parse_ipv4 :: "bpf_helpers \<Rightarrow> sk_buff \<Rightarrow> rx_pkt_digest \<Rightarrow> rx_pkt_digest option" where
  "bbdd_recv_parse_ipv4 h skb dg =
     (case h_load_net h skb 20 of
        None \<Rightarrow> None
      | Some iph \<Rightarrow>
          Some (dg\<lparr>rd_ttl := iph ! 8,
                   rd_wire_len := 14 + ucast (ntoh16 (load16 (drop 2 iph))),
                   rd_saddr := (load32 (drop 12 iph), snd (rd_saddr dg)),
                   rd_daddr := (load32 (drop 16 iph), snd (rd_daddr dg))\<rparr>))"

definition bbdd_recv_parse_ipv6 :: "bpf_helpers \<Rightarrow> sk_buff \<Rightarrow> rx_pkt_digest \<Rightarrow> rx_pkt_digest option" where
  "bbdd_recv_parse_ipv6 h skb dg =
     (case h_load_net h skb 40 of
        None \<Rightarrow> None
      | Some ip6h \<Rightarrow>
          Some (dg\<lparr>rd_ttl := ip6h ! 7,
                   rd_wire_len := 14 + 40 + ucast (ntoh16 (load16 (drop 4 ip6h))),
                   rd_saddr := (load32 (drop 8 ip6h), load32 (drop 12 ip6h),
                                load32 (drop 16 ip6h), load32 (drop 20 ip6h)),
                   rd_daddr := (load32 (drop 24 ip6h), load32 (drop 28 ip6h),
                                load32 (drop 32 ip6h), load32 (drop 36 ip6h))\<rparr>))"

definition bbdd_recv_get_bfd ::
  "bpf_helpers \<Rightarrow> sk_buff \<Rightarrow> rx_pkt_digest \<Rightarrow> (bbdd_bfd_pkt \<times> rx_pkt_digest) option"
where
  "bbdd_recv_get_bfd h skb dg =
     (case (if skb_protocol skb = hton16 0x0800 then bbdd_recv_parse_ipv4 h skb dg
            else bbdd_recv_parse_ipv6 h skb dg) of
        None \<Rightarrow> None
      | Some dg1 \<Rightarrow>
          if \<not> h_dynptr_from_skb h skb then None
          else (case h_dynptr_slice h skb 0 8 of
                  None \<Rightarrow> None
                | Some udph \<Rightarrow>
                    let dg2 = dg1\<lparr>rd_multihop := (load16 (drop 2 udph) = hton16 BFD_MULTI_HOP_PORT)\<rparr>
                    in (case h_dynptr_slice h skb 8 24 of
                          None \<Rightarrow> None
                        | Some bfd \<Rightarrow> Some (bfd_of_bytes bfd, dg2))))"

definition zero_digest :: rx_pkt_digest where
  "zero_digest = \<lparr>rd_ttl = 0, rd_multihop = False, rd_wire_len = 0, rd_saddr = (0, 0, 0, 0),
                  rd_daddr = (0, 0, 0, 0)\<rparr>"

definition bbdd_recv :: "bpf_helpers \<Rightarrow> sk_buff \<Rightarrow> prog \<Rightarrow> int \<times> prog" where
  "bbdd_recv h skb g =
     (case bbdd_recv_get_bfd h skb zero_digest of
        None \<Rightarrow> (TC_ACT_OK, bump_global Rx_not_bfd g)
      | Some (bfd, dg) \<Rightarrow>
          if bbdd_bfd_pkt_version bfd \<noteq> 1
          then (TC_ACT_SHOT, bump_global Rx_wrong_version_number g)
          else if pkt_length bfd \<noteq> 24
          then (TC_ACT_SHOT, bump_global Rx_invalid_length g)
          else if ntoh32 (your_disc bfd) = 0
          then (TC_ACT_SHOT, bbdd_rx_notify_discr_0 h skb dg bfd (bump_global Rx_your_discr_0 g))
          else
            let d = ntoh32 (your_disc bfd)
            in case (p_data_hash g d, p_config_hash g d) of
                 (Some dat, Some config) \<Rightarrow>
                   if admin_down config then (TC_ACT_SHOT, bump_sess d Rx_admin_down g)
                   else if cfg_ttl config > rd_ttl dg
                   then (TC_ACT_SHOT, bump_sess d Rx_ttl_low g)
                   else if bfd \<noteq> rx_expect config
                   then (TC_ACT_SHOT, bbdd_rx_notify_unx_pkt h bfd (rd_ttl dg) (rd_wire_len dg) g)
                   else
                     (TC_ACT_SHOT,
                      upd_data d (\<lambda>x. x\<lparr>data_stats :=
                        (let s = bump Rx_packets (data_stats x)
                         in s(Rx_bytes := s Rx_bytes + ucast (rd_wire_len dg)))\<rparr>)
                        (bbdd_recv_rearm_timer h d config g))
               | _ \<Rightarrow> (TC_ACT_SHOT, bump_global Rx_no_session g))"

subsection \<open>Socket selection\<close>

definition recv_sock_ix :: "nat \<Rightarrow> u16 \<Rightarrow> nat option" where
  "recv_sock_ix family port =
     (if family = AF_INET \<and> port = BFD_SINGLE_HOP_PORT then Some 0
      else if family = AF_INET6 \<and> port = BFD_SINGLE_HOP_PORT then Some 1
      else if family = AF_INET \<and> port = BFD_MULTI_HOP_PORT then Some 2
      else if family = AF_INET6 \<and> port = BFD_MULTI_HOP_PORT then Some 3
      else None)"

text \<open>\<open>sock\<close> is the contents of the socket map, \<open>assign\<close> the result of
  \<open>bpf_sk_assign\<close>; the result is \<open>SK_PASS\<close> and the socket that was assigned.\<close>

definition bbdd_sk_lookup ::
  "(nat \<Rightarrow> 's option) \<Rightarrow> ('s \<Rightarrow> int) \<Rightarrow> nat \<Rightarrow> nat \<Rightarrow> u16 \<Rightarrow> prog \<Rightarrow> bool \<times> 's option \<times> prog"
where
  "bbdd_sk_lookup sock assign protocol family port g =
     (if protocol \<noteq> 17 then (True, None, g)
      else case recv_sock_ix family port of
             None \<Rightarrow> (True, None, g)
           | Some ix \<Rightarrow>
               (case sock ix of
                  None \<Rightarrow> (True, None, bump_global Sk_lookup_no_socket g)
                | Some sk \<Rightarrow>
                    if assign sk \<noteq> 0 then (False, None, bump_global Sk_lookup_assign_error g)
                    else (True, Some sk, g)))"

text \<open>The counter of packets that left the transmit socket.\<close>

definition released :: "prog \<Rightarrow> u64" where
  "released g = p_diag g Sk_released_count"

text \<open>Concrete helpers with the documented behaviour on a linear buffer, and a
  packet and program state to evaluate on.\<close>

definition ref_helpers :: bpf_helpers where
  "ref_helpers =
     \<lparr>h_dynptr_from_skb = (\<lambda>_. True),
      h_dynptr_slice = (\<lambda>skb off n. if off + n \<le> length (skb_data skb)
                          then Some (take n (drop off (skb_data skb))) else None),
      h_dynptr_store = (\<lambda>skb off bs. if off + length bs \<le> length (skb_data skb)
                          then Some (skb\<lparr>skb_data := take off (skb_data skb) @ bs
                                        @ drop (off + length bs) (skb_data skb)\<rparr>) else None),
      h_load_net = (\<lambda>skb n. if n \<le> length (skb_net skb) then Some (take n (skb_net skb)) else None),
      h_l3_csum_replace = (\<lambda>skb _ _ _. Some skb),
      h_l4_csum_replace = (\<lambda>skb _ _ _ _. Some skb),
      h_fib_lookup = (\<lambda>_ params _. (0, params)),
      h_redirect = (\<lambda>_. TC_ACT_REDIRECT),
      h_clone_redirect = (\<lambda>_ _. 0),
      h_prandom_u32 = 7,
      h_ktime_ns = 0,
      h_ringbuf_reserve = True,
      h_timer_init = 0,
      h_timer_set_callback = 0,
      h_timer_start = 0\<rparr>"

definition sample_skb :: "bbdd_bfd_pkt \<Rightarrow> sk_buff" where
  "sample_skb p =
     \<lparr>skb_data = replicate 14 0 @ inject_frame_ipv4 sample_session p,
      skb_net = [], skb_protocol = hton16 0x0800, skb_mark = 0, skb_hash = 0, skb_len = 66,
      skb_ingress_ifindex = 0, skb_tstamp = 0\<rparr>"

definition sample_prog :: prog where
  "sample_prog = \<lparr>p_config_hash = (\<lambda>_. None), p_data_hash = (\<lambda>_. None), p_diag = (\<lambda>_. 0),
                  p_rb = [], p_veth_tx_ifindex = 5\<rparr>"

definition sample_config :: bbdd_prog_session_config where
  "sample_config =
     \<lparr>fib_lookup = \<lparr>fib_family = 2, l4_protocol = 17, fib_sport = 0, fib_dport = 0, fib_tot_len = 0,
        fib_ifindex = 3, ipv4_src = 0, ipv4_dst = 0, ipv6_src = (0, 0, 0, 0),
        ipv6_dst = (0, 0, 0, 0), fib_tbid = 0, fib_mark = 0, smac = [], dmac = []\<rparr>,
      bpf_fib_lookup_flags = 0, min_interval_us = 75000, max_interval_us = 100000,
      detect_time_us = 300000, cfg_gen_id = 0, admin_down = False, rearm_timer = True, cfg_ttl = 255,
      rx_expect = sample_pkt\<rparr>"

definition sample_data :: bbdd_prog_session_data where
  "sample_data = \<lparr>timer_armed_ns = None, data_stats = (\<lambda>_. 0), data_diag_stats = (\<lambda>_. 0),
                  timer_initd = False\<rparr>"

definition sample_prog2 :: prog where
  "sample_prog2 = sample_prog\<lparr>p_config_hash := [9 \<mapsto> sample_config],
                              p_data_hash := [9 \<mapsto> sample_data]\<rparr>"

definition sample_rx_skb :: "bbdd_bfd_pkt \<Rightarrow> sk_buff" where
  "sample_rx_skb p =
     \<lparr>skb_data = udphdr_bytes 0 (hton16 BFD_SINGLE_HOP_PORT) (hton16 32) 0 @ bfd_bytes p,
      skb_net = iphdr_bytes (hton16 52) 255 0 1 2, skb_protocol = hton16 0x0800, skb_mark = 0,
      skb_hash = 0, skb_len = 32, skb_ingress_ifindex = 0, skb_tstamp = 0\<rparr>"

definition sample_digest :: rx_pkt_digest where
  "sample_digest = \<lparr>rd_ttl = 255, rd_multihop = False, rd_wire_len = 66, rd_saddr = (1, 0, 0, 0),
                    rd_daddr = (2, 0, 0, 0)\<rparr>"

definition sample_pkt2 :: bbdd_bfd_pkt where
  "sample_pkt2 = sample_pkt\<lparr>detection_multiplier := 5\<rparr>"

subsection \<open>Counters and notifications\<close>

lemma p_diag_simps [simp]:
  "p_diag (bump_global c g) = bump c (p_diag g)" "p_diag (upd_data d f g) = p_diag g"
  "p_diag (bump_sess d c' g) = p_diag g" "p_diag (release g) = bump Sk_released_count (p_diag g)"
  by (simp_all add: bump_global_def upd_data_def bump_sess_def release_def)

lemma p_rb_simps [simp]:
  "p_rb (bump_global c g) = p_rb g" "p_rb (upd_data d f g) = p_rb g"
  "p_rb (bump_sess d c' g) = p_rb g" "p_rb (release g) = p_rb g"
  by (simp_all add: bump_global_def upd_data_def bump_sess_def release_def)

lemma rb_submit_released [simp]:
  "p_diag (rb_submit h el g) Sk_released_count = p_diag g Sk_released_count"
  by (simp add: rb_submit_def)

lemma rb_submit_rb: "h_ringbuf_reserve h \<Longrightarrow> p_rb (rb_submit h el g) = p_rb g @ [el]"
  by (simp add: rb_submit_def)

lemma rearm_rb [simp]: "p_rb (bbdd_recv_rearm_timer h d c g) = p_rb g"
  by (simp add: bbdd_recv_rearm_timer_def Let_def)

lemma rearm_diag [simp]: "p_diag (bbdd_recv_rearm_timer h d c g) = p_diag g"
  by (simp add: bbdd_recv_rearm_timer_def Let_def)

lemma tx_out_released:
  assumes "tx_out h config final frc skb g = (rc, skb', g')" "frc \<noteq> TC_ACT_OK"
  shows "released g' = released g + (if rc = TC_ACT_OK then 0 else 1)"
  using assms by (auto simp: tx_out_def released_def split: if_splits)

lemma tx_forward_released:
  assumes "tx_forward h d config final params skb g = (rc, skb', g')"
    and redir: "\<And>i. h_redirect h i = TC_ACT_SHOT \<or> h_redirect h i = TC_ACT_REDIRECT"
  shows "released g' = released g + (if rc = TC_ACT_OK then 0 else 1)"
  using assms(1) redir[of "fib_ifindex params"]
  by (auto simp: tx_forward_def Let_def released_def dest!: tx_out_released split: if_splits prod.splits bool.splits)

lemma veth_tx_released:
  assumes "bbdd_xmit_veth_tx h skb g = (rc, skb', g')" and "bbdd_tx_get_bfd h skb = Some b"
    and redir: "\<And>i. h_redirect h i = TC_ACT_SHOT \<or> h_redirect h i = TC_ACT_REDIRECT"
  shows "released g' = released g + (if rc = TC_ACT_OK then 0 else 1)"
  using assms(1,2)
  by (auto simp: bbdd_xmit_veth_tx_def Let_def released_def bbdd_tx_notify_no_neigh_def
      dest!: tx_out_released tx_forward_released[OF _ redir] split: if_splits prod.splits option.splits)

lemma veth_rx_xmit_released:
  assumes "bbdd_xmit_veth_rx_xmit h skb g = (rc, g')" and "bbdd_tx_get_bfd h skb = Some b"
  shows "released g' = released g + 1 \<and> rc \<noteq> TC_ACT_OK"
  using assms by (auto simp: bbdd_xmit_veth_rx_xmit_def Let_def released_def split: prod.splits option.splits)

lemma jitter_bounds:
  assumes "min_interval_us c \<le> max_interval_us c"
  shows "unat (min_interval_us c) \<le> unat (jitter_interval h c)
    \<and> unat (jitter_interval h c) \<le> unat (max_interval_us c)"
proof -
  let ?r = "unat (h_prandom_u32 h)" and ?mn = "unat (min_interval_us c)" and ?mx = "unat (max_interval_us c)"
  let ?M = "4294967295 :: nat"
  have le: "?mn \<le> ?mx" using assms by (simp add: word_le_nat_alt)
  have diff: "unat (max_interval_us c - min_interval_us c) = ?mx - ?mn"
    using assms by (rule unat_sub)
  have b: "?r \<le> ?M" "?mx \<le> ?M" using unat_u32_less[of "h_prandom_u32 h"] unat_u32_less[of "max_interval_us c"] by auto
  have prod: "?r * (?mx - ?mn) \<le> ?M * (?mx - ?mn)" using b by (intro mult_right_mono) auto
  also have "\<dots> \<le> ?M * ?M" using b by (intro mult_left_mono) auto
  finally have p64: "?r * (?mx - ?mn) < 2 ^ 64" by simp
  have u1: "unat (ucast (h_prandom_u32 h) * ucast (max_interval_us c - min_interval_us c) :: u64) = ?r * (?mx - ?mn)"
    using p64 by (subst unat_mult_no_wrap) (simp_all add: unat_ucast_up diff)
  have m1: "unat (ucast (- 1 :: u32) :: u64) = ?M" by (simp add: unat_ucast_up unat_minus_1_u32)
  have q: "unat (ucast (h_prandom_u32 h) * ucast (max_interval_us c - min_interval_us c) div ucast (- 1 :: u32) :: u64)
     = ?r * (?mx - ?mn) div ?M"
    unfolding unat_div u1 m1 ..
  have ql: "?r * (?mx - ?mn) div ?M \<le> ?mx - ?mn"
    using div_le_mono[OF prod, of ?M] by simp
  have "unat (jitter_interval h c) = ?r * (?mx - ?mn) div ?M + ?mn"
    unfolding jitter_interval_def Let_def
    using q ql le b by (subst unat_add_no_wrap) (simp_all add: unat_ucast_up)
  then show ?thesis using ql le by simp
qed

subsection \<open>Frames built by the daemon are recognised\<close>

text \<open>The documented behaviour of the dynptr helpers.\<close>

locale skb_access =
  fixes h :: bpf_helpers
  assumes from_skb: "h_dynptr_from_skb h skb"
    and slice: "h_dynptr_slice h skb off n =
      (if off + n \<le> length (skb_data skb) then Some (take n (drop off (skb_data skb))) else None)"
begin

lemma slice_app:
  assumes "skb_data skb = pre @ mid @ post" "length pre = off" "length mid = n"
  shows "h_dynptr_slice h skb off n = Some mid"
  using assms by (simp add: slice)

lemma get_bfd_ipv4:
  assumes proto: "skb_protocol skb = hton16 0x0800"
    and dat: "skb_data skb = eth @ inject_frame_ipv4 dsess bfd" "length eth = 14"
    and port: "sa_port (dst dsess) = hton16 BFD_SINGLE_HOP_PORT \<or> sa_port (dst dsess) = hton16 BFD_MULTI_HOP_PORT"
  shows "bbdd_tx_get_bfd h skb = Some (bfd, 52)"
proof -
  obtain ck where fr: "inject_frame_ipv4 dsess bfd =
      iphdr_bytes (hton16 52) 255 ck (sin_addr (src dsess)) (sin_addr (dst dsess))
      @ udphdr_bytes (sa_port (src dsess)) (sa_port (dst dsess)) (hton16 32) 0 @ bfd_bytes bfd"
    by (auto simp: inject_frame_ipv4_def Let_def)
  let ?ip = "iphdr_bytes (hton16 52) 255 ck (sin_addr (src dsess)) (sin_addr (dst dsess))"
  let ?udp = "udphdr_bytes (sa_port (src dsess)) (sa_port (dst dsess)) (hton16 32) 0"
  have len: "length ?ip = 20" "length ?udp = 8" by (simp_all add: iphdr_bytes_def udphdr_bytes_def)
  have s1: "h_dynptr_slice h skb 14 20 = Some ?ip"
    using slice_app[of skb eth ?ip "?udp @ bfd_bytes bfd" 14 20] dat fr len by simp
  have s2: "h_dynptr_slice h skb 34 8 = Some ?udp"
    using slice_app[of skb "eth @ ?ip" ?udp "bfd_bytes bfd" 34 8] dat fr len by simp
  have s3: "h_dynptr_slice h skb 42 24 = Some (bfd_bytes bfd)"
    using slice_app[of skb "eth @ ?ip @ ?udp" "bfd_bytes bfd" "[]" 42 24] dat fr len by simp
  have i1: "?ip ! 9 = 17" "load16 (drop 2 ?ip) = hton16 52"
    using load16_bytes16[of "hton16 52"] by (simp_all add: iphdr_bytes_def bytes16_def)
  have i2: "load16 (drop 2 ?udp) = sa_port (dst dsess)"
    using load16_bytes16[of "sa_port (dst dsess)" "[]"] by (simp add: udphdr_bytes_def bytes16_def)
  have i3: "bfd_of_bytes (bfd_bytes bfd) = bfd" using bfd_bytes_roundtrip[of bfd "[]"] by simp
  show ?thesis
    using proto port by (auto simp: bbdd_tx_get_bfd_def bbdd_tx_is_bfd_ipv4_def from_skb s1 s2 s3 i1 i2 i3)
qed

lemma get_bfd_ipv6:
  assumes proto: "skb_protocol skb = hton16 0x86DD"
    and dat: "skb_data skb = eth @ inject_frame_ipv6 dsess bfd" "length eth = 14"
    and port: "sa_port (dst dsess) = hton16 BFD_SINGLE_HOP_PORT \<or> sa_port (dst dsess) = hton16 BFD_MULTI_HOP_PORT"
  shows "bbdd_tx_get_bfd h skb = Some (bfd, 72)"
proof -
  obtain ck where fr: "inject_frame_ipv6 dsess bfd =
      ip6hdr_bytes (hton16 32) 255 (sin6_addr (src dsess)) (sin6_addr (dst dsess))
      @ udphdr_bytes (sa_port (src dsess)) (sa_port (dst dsess)) (hton16 32) ck @ bfd_bytes bfd"
    by (auto simp: inject_frame_ipv6_def Let_def)
  let ?ip = "ip6hdr_bytes (hton16 32) 255 (sin6_addr (src dsess)) (sin6_addr (dst dsess))"
  let ?udp = "udphdr_bytes (sa_port (src dsess)) (sa_port (dst dsess)) (hton16 32) ck"
  have len: "length ?ip = 40" "length ?udp = 8" by (simp_all add: ip6hdr_bytes_def udphdr_bytes_def)
  have s1: "h_dynptr_slice h skb 14 40 = Some ?ip"
    using slice_app[of skb eth ?ip "?udp @ bfd_bytes bfd" 14 40] dat fr len by simp
  have s2: "h_dynptr_slice h skb 54 8 = Some ?udp"
    using slice_app[of skb "eth @ ?ip" ?udp "bfd_bytes bfd" 54 8] dat fr len by simp
  have s3: "h_dynptr_slice h skb 62 24 = Some (bfd_bytes bfd)"
    using slice_app[of skb "eth @ ?ip @ ?udp" "bfd_bytes bfd" "[]" 62 24] dat fr len by simp
  have i1: "?ip ! 6 = 17" "load16 (drop 4 ?ip) = hton16 32"
    using load16_bytes16[of "hton16 32"] by (simp_all add: ip6hdr_bytes_def bytes16_def)
  have i2: "load16 (drop 2 ?udp) = sa_port (dst dsess)"
    using load16_bytes16[of "sa_port (dst dsess)" "[]"] by (simp add: udphdr_bytes_def bytes16_def)
  have i3: "bfd_of_bytes (bfd_bytes bfd) = bfd" using bfd_bytes_roundtrip[of bfd "[]"] by simp
  have ne: "hton16 0x86DD \<noteq> (hton16 0x0800 :: be16)" by (simp add: hton16_def)
  show ?thesis
    using proto port ne by (auto simp: bbdd_tx_get_bfd_def bbdd_tx_is_bfd_ipv6_def from_skb s1 s2 s3 i1 i2 i3)
qed

end

subsection \<open>What is reported to the daemon\<close>

lemma recv_reports:
  assumes get: "bbdd_recv_get_bfd h skb zero_digest = Some (bfd, dg)"
    and ver: "bbdd_bfd_pkt_version bfd = 1" "pkt_length bfd = 24"
    and cfg: "p_config_hash g (ntoh32 (your_disc bfd)) = Some config"
      "p_data_hash g (ntoh32 (your_disc bfd)) = Some dat"
    and ok: "your_disc bfd \<noteq> 0" "\<not> admin_down config" "cfg_ttl config \<le> rd_ttl dg" "h_ringbuf_reserve h"
    and res: "bbdd_recv h skb g = (rc, g')"
  shows "rc = TC_ACT_SHOT" "p_rb g' = p_rb g @ (if bfd = rx_expect config then []
           else [RB_RX_UNX_PKT (rd_wire_len dg) (rd_ttl dg) bfd])"
  using assms by (auto simp: bbdd_recv_def Let_def bbdd_rx_notify_unx_pkt_def rb_submit_rb not_less split: if_splits)

lemma recv_rearms:
  assumes get: "bbdd_recv_get_bfd h skb zero_digest = Some (rx_expect config, dg)"
    and ver: "bbdd_bfd_pkt_version (rx_expect config) = 1" "pkt_length (rx_expect config) = 24"
    and d: "d = ntoh32 (your_disc (rx_expect config))" "d \<noteq> 0"
    and cfg: "p_config_hash g d = Some config" "p_data_hash g d = Some dat"
    and ok: "\<not> admin_down config" "cfg_ttl config \<le> rd_ttl dg" "rearm_timer config"
      "h_timer_init h = 0" "h_timer_set_callback h = 0" "h_timer_start h = 0"
    and res: "bbdd_recv h skb g = (rc, g')"
  shows "\<exists>dat'. p_data_hash g' d = Some dat'
    \<and> timer_armed_ns dat' = Some (ucast (detect_time_us config) * 1000)
    \<and> data_stats dat' Rx_packets = data_stats dat Rx_packets + 1
    \<and> data_stats dat' Rx_bytes = data_stats dat Rx_bytes + ucast (rd_wire_len dg)"
  using assms by (auto simp: bbdd_recv_def Let_def bbdd_recv_rearm_timer_def upd_data_def not_less split: if_splits)

interpretation rh: skb_access ref_helpers
  by unfold_locales (simp_all add: ref_helpers_def)

lemma sample_rx_get:
  "bbdd_recv_get_bfd ref_helpers (sample_rx_skb p) zero_digest = Some (p, sample_digest)"
proof -
  let ?udp = "udphdr_bytes 0 (hton16 BFD_SINGLE_HOP_PORT) (hton16 32) 0"
  have s1: "h_dynptr_slice ref_helpers (sample_rx_skb p) 0 8 = Some ?udp"
    using rh.slice_app[of "sample_rx_skb p" "[]" ?udp "bfd_bytes p" 0 8]
    by (simp add: sample_rx_skb_def udphdr_bytes_def)
  have s2: "h_dynptr_slice ref_helpers (sample_rx_skb p) 8 24 = Some (bfd_bytes p)"
    using rh.slice_app[of "sample_rx_skb p" ?udp "bfd_bytes p" "[]" 8 24]
    by (simp add: sample_rx_skb_def udphdr_bytes_def)
  have "bfd_of_bytes (bfd_bytes p) = p" using bfd_bytes_roundtrip[of p "[]"] by simp
  moreover have "h_load_net ref_helpers (sample_rx_skb p) 20 = Some (iphdr_bytes (hton16 52) 255 0 1 2)"
    by (simp add: ref_helpers_def sample_rx_skb_def iphdr_bytes_def)
  ultimately show ?thesis
    using s1 s2 rh.from_skb[of "sample_rx_skb p"]
    by (simp add: bbdd_recv_get_bfd_def bbdd_recv_parse_ipv4_def sample_rx_skb_def zero_digest_def
        sample_digest_def iphdr_bytes_def udphdr_bytes_def bytes16_def bytes32_def hton16_def
        ntoh16_def BFD_SINGLE_HOP_PORT_def BFD_MULTI_HOP_PORT_def)
qed

subsection \<open>Properties\<close>

text \<open>C8. Release accounting of the looper: a BFD packet is counted as released
  exactly once when the program lets go of it (any verdict but \<open>TC_ACT_OK\<close>), and not
  at all when it stays queued for its next transmission, provided \<open>bpf_redirect\<close>
  returns one of its two documented verdicts.\<close>

theorem looper_releases_once:
  assumes "bbdd_xmit_veth_tx h skb g = (rc, skb', g')"
    and "bbdd_tx_get_bfd h skb = Some b"
    and "\<And>i. h_redirect h i = TC_ACT_SHOT \<or> h_redirect h i = TC_ACT_REDIRECT"
  shows "released g' = released g + (if rc = TC_ACT_OK then 0 else 1)"
  by (rule veth_tx_released[OF assms])

theorem looper_releases_once_witness:
  "\<exists>rc skb' g'. bbdd_xmit_veth_tx ref_helpers (sample_skb sample_pkt) sample_prog = (rc, skb', g')
     \<and> rc = TC_ACT_SHOT \<and> released g' = 1"
proof -
  have get: "bbdd_tx_get_bfd ref_helpers (sample_skb sample_pkt) = Some (sample_pkt, 52)"
    by (rule rh.get_bfd_ipv4[where eth = "replicate 14 0" and dsess = sample_session])
      (simp_all add: sample_skb_def sample_session_def)
  obtain rc skb' g' where r:
    "bbdd_xmit_veth_tx ref_helpers (sample_skb sample_pkt) sample_prog = (rc, skb', g')"
    by (metis surj_pair)
  then have "rc = TC_ACT_SHOT" using get
    by (simp add: bbdd_xmit_veth_tx_def sample_prog_def)
  then show ?thesis
    using r looper_releases_once[OF r get] by (simp add: ref_helpers_def released_def sample_prog_def)
qed

text \<open>The re-arm hook releases every BFD packet it sees exactly once and never
  lets it through.\<close>

theorem rearm_hook_releases_once:
  assumes "bbdd_xmit_veth_rx_xmit h skb g = (rc, g')" and "bbdd_tx_get_bfd h skb = Some b"
  shows "released g' = released g + 1 \<and> rc \<noteq> TC_ACT_OK"
  by (rule veth_rx_xmit_released[OF assms])

theorem rearm_hook_releases_once_witness:
  "\<exists>rc g'. bbdd_xmit_veth_rx_xmit ref_helpers (sample_skb sample_pkt) sample_prog = (rc, g')
     \<and> released g' = 1"
proof -
  have get: "bbdd_tx_get_bfd ref_helpers (sample_skb sample_pkt) = Some (sample_pkt, 52)"
    by (rule rh.get_bfd_ipv4[where eth = "replicate 14 0" and dsess = sample_session])
      (simp_all add: sample_skb_def sample_session_def)
  obtain rc g' where r:
    "bbdd_xmit_veth_rx_xmit ref_helpers (sample_skb sample_pkt) sample_prog = (rc, g')"
    by (metis surj_pair)
  then show ?thesis
    using rearm_hook_releases_once[OF r get] by (simp add: released_def sample_prog_def)
qed

text \<open>Jitter: when the configured bounds are in order, the delay to the next
  transmission lies between them whatever the random number is.\<close>

theorem looper_interval_in_bounds:
  assumes "min_interval_us c \<le> max_interval_us c"
  shows "unat (min_interval_us c) \<le> unat (jitter_interval h c)
    \<and> unat (jitter_interval h c) \<le> unat (max_interval_us c)"
  by (rule jitter_bounds[OF assms])

theorem looper_interval_in_bounds_witness:
  "unat (jitter_interval ref_helpers sample_config) \<le> 100000"
  using looper_interval_in_bounds[of sample_config ref_helpers] by (simp add: sample_config_def)

text \<open>C25. Frames built by the daemon, behind an Ethernet header, are recognised by the
  kernel programs as BFD, over IPv4 and over IPv6, and the packet is read back
  unchanged together with the length of the IP datagram.\<close>

theorem own_frames_recognised:
  assumes "skb_access h" and "length eth = 14"
    and "sa_port (dst dsess) = hton16 BFD_SINGLE_HOP_PORT
         \<or> sa_port (dst dsess) = hton16 BFD_MULTI_HOP_PORT"
  shows "bbdd_tx_get_bfd h (skb\<lparr>skb_protocol := hton16 0x0800,
           skb_data := eth @ inject_frame_ipv4 dsess bfd\<rparr>) = Some (bfd, 52)
    \<and> bbdd_tx_get_bfd h (skb\<lparr>skb_protocol := hton16 0x86DD,
           skb_data := eth @ inject_frame_ipv6 dsess bfd\<rparr>) = Some (bfd, 72)"
  using assms by (simp add: skb_access.get_bfd_ipv4[where eth = eth and dsess = dsess]
      skb_access.get_bfd_ipv6[where eth = eth and dsess = dsess])

theorem own_frames_recognised_witness:
  "bbdd_tx_get_bfd ref_helpers (sample_skb sample_pkt) = Some (sample_pkt, 52)"
  using own_frames_recognised[of ref_helpers "replicate 14 0" sample_session,
      where skb = "sample_skb sample_pkt" and bfd = sample_pkt] rh.skb_access_axioms
  by (simp add: sample_session_def sample_skb_def)

text \<open>Receiving for a known session whose checks pass: the packet is reported to
  the daemon exactly when it differs from the expected one, in a single element
  that carries the packet, its TTL and its length; the socket never gets it.\<close>

theorem recv_reports_unexpected:
  assumes "bbdd_recv_get_bfd h skb zero_digest = Some (bfd, dg)"
    and "bbdd_bfd_pkt_version bfd = 1" and "pkt_length bfd = 24"
    and "p_config_hash g (ntoh32 (your_disc bfd)) = Some config"
    and "p_data_hash g (ntoh32 (your_disc bfd)) = Some dat"
    and "your_disc bfd \<noteq> 0" and "\<not> admin_down config" and "cfg_ttl config \<le> rd_ttl dg"
    and "h_ringbuf_reserve h"
    and "bbdd_recv h skb g = (rc, g')"
  shows "rc = TC_ACT_SHOT \<and> p_rb g' = p_rb g @ (if bfd = rx_expect config then []
           else [RB_RX_UNX_PKT (rd_wire_len dg) (rd_ttl dg) bfd])"
  using recv_reports[OF assms] by simp

theorem recv_reports_unexpected_witness:
  "\<exists>rc g'. bbdd_recv ref_helpers (sample_rx_skb sample_pkt2) sample_prog2 = (rc, g')
     \<and> p_rb g' = [RB_RX_UNX_PKT 66 255 sample_pkt2]"
proof -
  obtain rc g' where r: "bbdd_recv ref_helpers (sample_rx_skb sample_pkt2) sample_prog2 = (rc, g')"
    by (metis surj_pair)
  have get: "bbdd_recv_get_bfd ref_helpers (sample_rx_skb sample_pkt2) zero_digest
      = Some (sample_pkt2, sample_digest)"
    by (rule sample_rx_get)
  have "rc = TC_ACT_SHOT \<and> p_rb g' = p_rb sample_prog2 @ (if sample_pkt2 = rx_expect sample_config then []
           else [RB_RX_UNX_PKT (rd_wire_len sample_digest) (rd_ttl sample_digest) sample_pkt2])"
    by (rule recv_reports_unexpected[OF get _ _ _ _ _ _ _ _ r, where dat = sample_data])
      (simp_all add: sample_pkt2_def sample_prog2_def sample_config_def sample_digest_def
        ref_helpers_def bbdd_bfd_pkt_version_def sample_pkt_def)
  then show ?thesis
    using r by (simp add: sample_prog_def sample_prog2_def sample_digest_def sample_config_def
        sample_pkt2_def sample_pkt_def)
qed

text \<open>An expected packet re-arms the detection timer with the configured
  detection time in nanoseconds and counts the packet and its bytes.\<close>

theorem recv_rearms_expected:
  assumes "bbdd_recv_get_bfd h skb zero_digest = Some (rx_expect config, dg)"
    and "bbdd_bfd_pkt_version (rx_expect config) = 1" and "pkt_length (rx_expect config) = 24"
    and "d = ntoh32 (your_disc (rx_expect config))" and "d \<noteq> 0"
    and "p_config_hash g d = Some config" and "p_data_hash g d = Some dat"
    and "\<not> admin_down config" and "cfg_ttl config \<le> rd_ttl dg" and "rearm_timer config"
    and "h_timer_init h = 0" and "h_timer_set_callback h = 0" and "h_timer_start h = 0"
    and "bbdd_recv h skb g = (rc, g')"
  shows "\<exists>dat'. p_data_hash g' d = Some dat'
    \<and> timer_armed_ns dat' = Some (ucast (detect_time_us config) * 1000)
    \<and> data_stats dat' Rx_packets = data_stats dat Rx_packets + 1
    \<and> data_stats dat' Rx_bytes = data_stats dat Rx_bytes + ucast (rd_wire_len dg)"
  by (rule recv_rearms[OF assms])

theorem recv_rearms_expected_witness:
  "\<exists>rc g' dat'. bbdd_recv ref_helpers (sample_rx_skb sample_pkt) sample_prog2 = (rc, g')
     \<and> p_data_hash g' 9 = Some dat' \<and> timer_armed_ns dat' = Some 300000000"
proof -
  obtain rc g' where r: "bbdd_recv ref_helpers (sample_rx_skb sample_pkt) sample_prog2 = (rc, g')"
    by (metis surj_pair)
  have get: "bbdd_recv_get_bfd ref_helpers (sample_rx_skb sample_pkt) zero_digest
      = Some (rx_expect sample_config, sample_digest)"
    using sample_rx_get[of sample_pkt] by (simp add: sample_config_def)
  from recv_rearms_expected[OF get _ _ refl _ _ _ _ _ _ _ _ _ r, where dat = sample_data]
  show ?thesis
    using r by (auto simp: sample_prog2_def sample_config_def sample_digest_def ref_helpers_def
        bbdd_bfd_pkt_version_def sample_pkt_def)
qed

end
