(* ===== verification/Client.thy ===== *)
theory Client
  imports Csess
begin

text \<open>
  The command line of \<open>bbdd session\<close> (\<open>bbdd-c.c\<close>).  The theory shows that every command
  line is read to its end without a failed assertion, and what holds of the sessions that
  it describes.  Messages to the user are left out: a failure is the fact that there was one.
\<close>

subsection \<open>Keywords\<close>

text \<open>What a parser makes of the arguments: the keyword is another one (0), there was an
  error (-1), an assertion failed, or a value was read and these arguments are left (1).\<close>

datatype 'a parsed = No_match | Failed | Aborted | Parsed 'a "string list"

definition pbind :: "'a parsed \<Rightarrow> ('a \<Rightarrow> string list \<Rightarrow> 'b parsed) \<Rightarrow> 'b parsed" where
  "pbind m f = (case m of No_match \<Rightarrow> No_match | Failed \<Rightarrow> Failed | Aborted \<Rightarrow> Aborted | Parsed a rest \<Rightarrow> f a rest)"

text \<open>Parsers tried one after the other, until one of them knows the keyword.\<close>

fun first_of :: "'a parsed list \<Rightarrow> 'a parsed" where
  "first_of [] = No_match"
| "first_of (r # rs) = (case r of No_match \<Rightarrow> first_of rs | _ \<Rightarrow> r)"

definition bbdd_c_parse_kw :: "string \<Rightarrow> bool \<Rightarrow> (string \<Rightarrow> 'v option) \<Rightarrow> string list \<Rightarrow> 'v parsed" where
  "bbdd_c_parse_kw kw seen parser args =
     (case args of
        [] \<Rightarrow> Aborted
      | a # rest \<Rightarrow>
          if a \<noteq> kw then No_match
          else if seen then Failed
          else (case rest of
                  [] \<Rightarrow> Failed
                | v # rest \<Rightarrow> (case parser v of None \<Rightarrow> Failed | Some x \<Rightarrow> Parsed x rest)))"

definition bbdd_c_parse_kw_flag :: "string \<Rightarrow> bool \<Rightarrow> string list \<Rightarrow> bool parsed" where
  "bbdd_c_parse_kw_flag kw seen args =
     (case args of
        [] \<Rightarrow> Aborted
      | a # rest \<Rightarrow>
          if a = ''no'' then
            (case rest of
               [] \<Rightarrow> Failed
             | b # rest \<Rightarrow> if b \<noteq> kw then No_match else if seen then Failed else Parsed False rest)
          else if a \<noteq> kw then No_match else if seen then Failed else Parsed True rest)"

subsection \<open>Values\<close>

definition ok_of :: "('e, 'a) res \<Rightarrow> 'a option" where
  "ok_of r = (case r of Inl _ \<Rightarrow> None | Inr a \<Rightarrow> Some a)"

definition bbdd_c_parse_u8 :: "bool \<Rightarrow> string \<Rightarrow> u8 option" where
  "bbdd_c_parse_u8 einval str = ok_of (bbdd_sock_parse_u8 einval str)"

definition bbdd_c_parse_u32 :: "bool \<Rightarrow> string \<Rightarrow> u32 option" where
  "bbdd_c_parse_u32 einval str = ok_of (bbdd_sock_parse_u32 einval str)"

definition bbdd_c_parse_ifname :: "string \<Rightarrow> string option" where
  "bbdd_c_parse_ifname str = (if length str \<ge> IFNAMSIZ then None else Some str)"

definition bbdd_c_parse_addr :: "inet \<Rightarrow> string \<Rightarrow> (string \<times> nat) option" where
  "bbdd_c_parse_addr I str =
     (if length str \<ge> INET6_ADDRSTRLEN then None
      else if pton4 I str \<noteq> None then Some (str, AF_INET)
      else if pton6 I str \<noteq> None then Some (str, AF_INET6)
      else None)"

definition bbdd_c_parse_time_us :: "string \<Rightarrow> u32 option" where
  "bbdd_c_parse_time_us str = ok_of (bbdd_util_parse_time_us str)"

definition bbdd_c_parse_kw_u8 :: "bool \<Rightarrow> string \<Rightarrow> u8 option \<Rightarrow> string list \<Rightarrow> u8 parsed" where
  "bbdd_c_parse_kw_u8 einval kw ret = bbdd_c_parse_kw kw (ret \<noteq> None) (bbdd_c_parse_u8 einval)"

definition bbdd_c_parse_kw_u32 :: "bool \<Rightarrow> string \<Rightarrow> u32 option \<Rightarrow> string list \<Rightarrow> u32 parsed" where
  "bbdd_c_parse_kw_u32 einval kw ret = bbdd_c_parse_kw kw (ret \<noteq> None) (bbdd_c_parse_u32 einval)"

definition bbdd_c_parse_kw_u32_no :: "bool \<Rightarrow> string \<Rightarrow> u32 option \<Rightarrow> string list \<Rightarrow> u32 parsed" where
  "bbdd_c_parse_kw_u32_no einval kw ret args =
     first_of [bbdd_c_parse_kw_u32 einval kw ret args,
       pbind (bbdd_c_parse_kw_flag kw (ret \<noteq> None) args)
         (\<lambda>value rest. if value then Aborted else Parsed 0 rest)]"

definition bbdd_c_parse_kw_time_us :: "string \<Rightarrow> u32 option \<Rightarrow> string list \<Rightarrow> u32 parsed" where
  "bbdd_c_parse_kw_time_us kw ret = bbdd_c_parse_kw kw (ret \<noteq> None) bbdd_c_parse_time_us"

definition bbdd_c_parse_kw_ifname :: "string \<Rightarrow> string option \<Rightarrow> string list \<Rightarrow> string parsed" where
  "bbdd_c_parse_kw_ifname kw ret = bbdd_c_parse_kw kw (ret \<noteq> None) bbdd_c_parse_ifname"

definition bbdd_c_parse_kw_addr :: "inet \<Rightarrow> string \<Rightarrow> nat \<Rightarrow> string list \<Rightarrow> (string \<times> nat) parsed" where
  "bbdd_c_parse_kw_addr I kw af = bbdd_c_parse_kw kw (af \<noteq> 0) (bbdd_c_parse_addr I)"

subsection \<open>Names, interfaces and addresses\<close>

definition bbdd_c_session_parse_str :: "string \<Rightarrow> bbdd_c_session_str \<Rightarrow> string list \<Rightarrow> bbdd_c_session_str parsed" where
  "bbdd_c_session_parse_str kw str args =
     first_of
       [pbind (bbdd_c_parse_kw_ifname kw (s_val str) args)
          (\<lambda>val rest. if s_unset str then Failed else Parsed (str\<lparr>s_val := Some val\<rparr>) rest),
        pbind (bbdd_c_parse_kw_flag kw (s_val str \<noteq> None) args)
          (\<lambda>value rest. if value then Aborted else Parsed (str\<lparr>s_unset := True\<rparr>) rest)]"

definition bbdd_c_session_parse_netif_check_apply ::
  "bbdd_c_session_netif \<Rightarrow> bbdd_c_session_netif \<Rightarrow> string list \<Rightarrow> bbdd_c_session_netif parsed"
where
  "bbdd_c_session_parse_netif_check_apply ret_netif new_netif rest =
     (if n_unset ret_netif then Failed else Parsed new_netif rest)"

definition bbdd_c_session_parse_netif_ifindex ::
  "bool \<Rightarrow> string \<Rightarrow> bbdd_c_session_netif \<Rightarrow> string list \<Rightarrow> bbdd_c_session_netif parsed"
where
  "bbdd_c_session_parse_netif_ifindex einval ix_kw netif args =
     pbind (bbdd_c_parse_kw_u32 einval ix_kw (n_ifindex netif) args)
       (\<lambda>ifindex. bbdd_c_session_parse_netif_check_apply netif (netif\<lparr>n_ifindex := Some ifindex\<rparr>))"

definition bbdd_c_session_parse_netif_kw ::
  "string \<Rightarrow> bbdd_c_session_netif \<Rightarrow> string list \<Rightarrow> bbdd_c_session_netif parsed"
where
  "bbdd_c_session_parse_netif_kw kw netif args =
     pbind (bbdd_c_parse_kw_ifname kw (n_name netif) args)
       (\<lambda>name. bbdd_c_session_parse_netif_check_apply netif (netif\<lparr>n_name := Some name\<rparr>))"

definition bbdd_c_session_parse_netif_flag ::
  "string \<Rightarrow> bbdd_c_session_netif \<Rightarrow> string list \<Rightarrow> bbdd_c_session_netif parsed"
where
  "bbdd_c_session_parse_netif_flag kw netif args =
     pbind (bbdd_c_parse_kw_flag kw (n_unset netif) args)
       (\<lambda>value rest.
          if n_name netif \<noteq> None then Failed
          else if n_ifindex netif \<noteq> None then Failed
          else Parsed (netif\<lparr>n_unset := True\<rparr>) rest)"

definition bbdd_c_session_parse_netif ::
  "bool \<Rightarrow> string \<Rightarrow> bbdd_c_session_netif \<Rightarrow> string list \<Rightarrow> bbdd_c_session_netif parsed"
where
  "bbdd_c_session_parse_netif einval kw netif args =
     first_of [bbdd_c_session_parse_netif_ifindex einval (kw @ ''-index'') netif args,
               bbdd_c_session_parse_netif_kw kw netif args,
               bbdd_c_session_parse_netif_flag kw netif args]"

definition bbdd_c_session_parse_addr_kw ::
  "inet \<Rightarrow> string \<Rightarrow> bbdd_c_session_addr \<Rightarrow> string list \<Rightarrow> bbdd_c_session_addr parsed"
where
  "bbdd_c_session_parse_addr_kw I kw addr args =
     pbind (bbdd_c_parse_kw_addr I kw (a_af addr) args)
       (\<lambda>(str, af) rest. if a_unset addr then Failed else Parsed (addr\<lparr>a_str := str, a_af := af\<rparr>) rest)"

definition bbdd_c_session_parse_addr_flag ::
  "string \<Rightarrow> bbdd_c_session_addr \<Rightarrow> string list \<Rightarrow> bbdd_c_session_addr parsed"
where
  "bbdd_c_session_parse_addr_flag kw addr args =
     pbind (bbdd_c_parse_kw_flag kw (a_unset addr) args)
       (\<lambda>value rest. if a_af addr \<noteq> 0 then Failed else Parsed (addr\<lparr>a_unset := True\<rparr>) rest)"

definition bbdd_c_session_parse_addr ::
  "inet \<Rightarrow> string \<Rightarrow> bbdd_c_session_addr \<Rightarrow> string list \<Rightarrow> bbdd_c_session_addr parsed"
where
  "bbdd_c_session_parse_addr I kw addr args =
     first_of [bbdd_c_session_parse_addr_kw I kw addr args, bbdd_c_session_parse_addr_flag kw addr args]"

subsection \<open>The command line\<close>

record bbdd_c_session_command =
  cmd_name :: string
  allow_bulk :: bool
  allow_diag :: bool
  allow_query :: bool
  allow_change :: bool
  rpc :: string
  rpc_diag :: "string option"
  expected_result_type :: json_type

definition bbdd_c_session_commands :: "bbdd_c_session_command list" where
  "bbdd_c_session_commands =
     [\<lparr>cmd_name = ''add'', allow_bulk = False, allow_diag = False, allow_query = False, allow_change = True,
       rpc = ''session-add'', rpc_diag = None, expected_result_type = json_type_null\<rparr>,
      \<lparr>cmd_name = ''set'', allow_bulk = True, allow_diag = False, allow_query = True, allow_change = True,
       rpc = ''session-set'', rpc_diag = None, expected_result_type = json_type_null\<rparr>,
      \<lparr>cmd_name = ''del'', allow_bulk = True, allow_diag = False, allow_query = True, allow_change = False,
       rpc = ''session-del'', rpc_diag = None, expected_result_type = json_type_null\<rparr>,
      \<lparr>cmd_name = ''show'', allow_bulk = False, allow_diag = False, allow_query = True, allow_change = False,
       rpc = ''session-show'', rpc_diag = None, expected_result_type = json_type_object\<rparr>,
      \<lparr>cmd_name = ''stats'', allow_bulk = False, allow_diag = True, allow_query = True, allow_change = False,
       rpc = ''session-stats'', rpc_diag = Some ''session-stats-diag'', expected_result_type = json_type_object\<rparr>]"

text \<open>Where \<open>csess\<close> points to, and the variables of \<open>bbdd_c_session\<close>.\<close>

datatype csess_ptr = To_select | To_change | To_null

record cmdline =
  k_select :: bbdd_c_session
  k_change :: bbdd_c_session
  k_csess :: csess_ptr
  k_seen_arg :: bool
  k_bulk :: "bool option"
  k_diag :: "bool option"
  k_command :: "bbdd_c_session_command option"

definition init_cmdline :: cmdline where
  "init_cmdline = \<lparr>k_select = zero_c_session, k_change = zero_c_session, k_csess = To_select,
     k_seen_arg = False, k_bulk = None, k_diag = None, k_command = None\<rparr>"

definition on_field :: "('v \<Rightarrow> string list \<Rightarrow> 'w parsed) \<Rightarrow> 'v \<Rightarrow> ('w \<Rightarrow> 's) \<Rightarrow> string list \<Rightarrow> 's parsed" where
  "on_field p v put args = pbind (p v args) (\<lambda>x rest. Parsed (put x) rest)"

definition flag_kw :: "string \<Rightarrow> bool option \<Rightarrow> string list \<Rightarrow> bool parsed" where
  "flag_kw kw flag = bbdd_c_parse_kw_flag kw (flag \<noteq> None)"

definition session_params :: "bool \<Rightarrow> inet \<Rightarrow> bbdd_c_session \<Rightarrow> string list \<Rightarrow> bbdd_c_session parsed list" where
  "session_params einval I cs args =
     (let fs = c_flags cs; vrf = c_vrf cs in
      [on_field (flag_kw ''multihop'') (f_multihop fs) (\<lambda>b. cs\<lparr>c_flags := fs\<lparr>f_multihop := Some b\<rparr>\<rparr>) args,
       on_field (flag_kw ''cpi'') (f_cpi fs) (\<lambda>b. cs\<lparr>c_flags := fs\<lparr>f_cpi := Some b\<rparr>\<rparr>) args,
       on_field (flag_kw ''passive'') (f_passive fs) (\<lambda>b. cs\<lparr>c_flags := fs\<lparr>f_passive := Some b\<rparr>\<rparr>) args,
       on_field (flag_kw ''shutdown'') (f_shutdown fs) (\<lambda>b. cs\<lparr>c_flags := fs\<lparr>f_shutdown := Some b\<rparr>\<rparr>) args,
       on_field (bbdd_c_parse_kw_u32 einval ''discr'') (c_discr cs) (\<lambda>v. cs\<lparr>c_discr := Some v\<rparr>) args,
       on_field (bbdd_c_parse_kw_u32_no einval ''remote-discr'') (c_remote_discr cs) (\<lambda>v. cs\<lparr>c_remote_discr := Some v\<rparr>) args,
       on_field (bbdd_c_session_parse_str ''name'') (c_name cs) (\<lambda>v. cs\<lparr>c_name := v\<rparr>) args,
       on_field (bbdd_c_parse_kw_time_us ''min-tx'') (c_min_tx_us cs) (\<lambda>v. cs\<lparr>c_min_tx_us := Some v\<rparr>) args,
       on_field (bbdd_c_parse_kw_time_us ''min-rx'') (c_min_rx_us cs) (\<lambda>v. cs\<lparr>c_min_rx_us := Some v\<rparr>) args,
       on_field (bbdd_c_parse_kw_time_us ''hold-time'') (c_hold_time_us cs) (\<lambda>v. cs\<lparr>c_hold_time_us := Some v\<rparr>) args,
       on_field (bbdd_c_parse_kw_u8 einval ''ttl'') (c_ttl cs) (\<lambda>v. cs\<lparr>c_ttl := Some v\<rparr>) args,
       on_field (bbdd_c_parse_kw_u8 einval ''detect-mult'') (c_detect_mult cs) (\<lambda>v. cs\<lparr>c_detect_mult := Some v\<rparr>) args,
       on_field (bbdd_c_session_parse_addr I ''src'') (c_src cs) (\<lambda>v. cs\<lparr>c_src := v\<rparr>) args,
       on_field (bbdd_c_session_parse_addr I ''dst'') (c_dst cs) (\<lambda>v. cs\<lparr>c_dst := v\<rparr>) args,
       on_field (bbdd_c_session_parse_netif einval ''netif'') (c_netif cs) (\<lambda>v. cs\<lparr>c_netif := v\<rparr>) args,
       on_field (bbdd_c_session_parse_netif einval ''vrf'') (v_netif vrf) (\<lambda>v. cs\<lparr>c_vrf := vrf\<lparr>v_netif := v\<rparr>\<rparr>) args,
       on_field (bbdd_c_parse_kw_u32 einval ''vrf-table'') (v_table vrf) (\<lambda>v. cs\<lparr>c_vrf := vrf\<lparr>v_table := Some v\<rparr>\<rparr>) args])"

text \<open>The parameters of the session that \<open>csess\<close> points to, then \<open>bulk\<close> and \<open>diag\<close>, which
  stand before the command.\<close>

definition put_csess :: "cmdline \<Rightarrow> bbdd_c_session \<Rightarrow> cmdline" where
  "put_csess k cs = (if k_csess k = To_change then k\<lparr>k_change := cs\<rparr> else k\<lparr>k_select := cs\<rparr>)"

definition get_csess :: "cmdline \<Rightarrow> bbdd_c_session" where
  "get_csess k = (if k_csess k = To_change then k_change k else k_select k)"

definition param_arg :: "bool \<Rightarrow> inet \<Rightarrow> cmdline \<Rightarrow> string list \<Rightarrow> cmdline parsed" where
  "param_arg einval I k args =
     first_of
       ([on_field (\<lambda>cs args. first_of (session_params einval I cs args)) (get_csess k) (put_csess k) args]
        @ (if k_command k = None
           then [on_field (flag_kw ''bulk'') (k_bulk k) (\<lambda>b. k\<lparr>k_bulk := Some b\<rparr>) args,
                 on_field (flag_kw ''diag'') (k_diag k) (\<lambda>b. k\<lparr>k_diag := Some b\<rparr>) args]
           else []))"

datatype arg_result = Next cmdline "string list" | Exit_success | Exit_failure | Abort

text \<open>One round of the loop.\<close>

definition session_arg :: "bool \<Rightarrow> inet \<Rightarrow> cmdline \<Rightarrow> string \<Rightarrow> string list \<Rightarrow> arg_result" where
  "session_arg einval I k arg rest =
     (case find (\<lambda>c. cmd_name c = arg) bbdd_c_session_commands of
        Some command \<Rightarrow>
          if k_command k \<noteq> None then Exit_failure
          else if \<not> allow_query command \<and> k_seen_arg k then Exit_failure
          else Next (k\<lparr>k_command := Some command, k_csess := (if allow_change command then To_change else To_null)\<rparr>) rest
      | None \<Rightarrow>
          if arg = ''help'' then Exit_success
          else if k_csess k = To_null then (if k_command k = None then Abort else Exit_failure)
          else (case param_arg einval I (k\<lparr>k_seen_arg := True\<rparr>) (arg # rest) of
                  Parsed k' rest' \<Rightarrow> Next k' rest'
                | Failed \<Rightarrow> Exit_failure
                | Aborted \<Rightarrow> Abort
                | No_match \<Rightarrow> Exit_failure))"

subsection \<open>Reading a command line ends\<close>

definition shrinks :: "string list \<Rightarrow> 'a parsed \<Rightarrow> bool" where
  "shrinks args r \<longleftrightarrow> (\<forall>v rest. r = Parsed v rest \<longrightarrow> length rest < length args)"

lemma shrinks_simps [simp]: "shrinks args No_match" "shrinks args Failed" "shrinks args Aborted"
  "shrinks args (Parsed v rest) \<longleftrightarrow> length rest < length args"
  by (simp_all add: shrinks_def)

lemma shrinks_pbind [intro]: "shrinks args m \<Longrightarrow> (\<And>v rest. length rest < length args \<Longrightarrow> shrinks args (f v rest)) \<Longrightarrow> shrinks args (pbind m f)"
  by (auto simp: pbind_def split: parsed.split)

lemma shrinks_first_of [intro]: "list_all (shrinks args) rs \<Longrightarrow> shrinks args (first_of rs)"
  by (induction rs) (auto split: parsed.split)

declare first_of.simps [simp del]

lemma shrinks_kw [simp]: "shrinks args (bbdd_c_parse_kw kw seen p args)" "shrinks args (bbdd_c_parse_kw_flag kw seen args)"
  by (auto simp: bbdd_c_parse_kw_def bbdd_c_parse_kw_flag_def split: list.split option.split)

lemmas value_parsers = bbdd_c_parse_kw_u8_def bbdd_c_parse_kw_u32_def bbdd_c_parse_kw_time_us_def
  bbdd_c_parse_kw_ifname_def bbdd_c_parse_kw_addr_def flag_kw_def

lemmas field_parsers = bbdd_c_parse_kw_u32_no_def bbdd_c_session_parse_str_def bbdd_c_session_parse_netif_check_apply_def
  bbdd_c_session_parse_netif_ifindex_def bbdd_c_session_parse_netif_kw_def bbdd_c_session_parse_netif_flag_def
  bbdd_c_session_parse_netif_def bbdd_c_session_parse_addr_kw_def bbdd_c_session_parse_addr_flag_def bbdd_c_session_parse_addr_def

lemma shrinks_fields [simp]:
  "shrinks args (bbdd_c_parse_kw_u32_no einval kw v args)"
  "shrinks args (bbdd_c_session_parse_str kw str args)"
  "shrinks args (bbdd_c_session_parse_netif einval kw netif args)"
  "shrinks args (bbdd_c_session_parse_addr I kw addr args)"
  by (auto simp: field_parsers value_parsers intro!: shrinks_first_of shrinks_pbind)

lemma shrinks_param: "shrinks args (param_arg einval I k args)"
  by (auto simp: param_arg_def session_params_def Let_def on_field_def value_parsers intro!: shrinks_first_of shrinks_pbind)

lemma session_arg_shrinks: "session_arg einval I k arg rest = Next k' rest' \<Longrightarrow> length rest' \<le> length rest"
  using shrinks_param[of "arg # rest" einval I "k\<lparr>k_seen_arg := True\<rparr>"]
  by (auto simp: session_arg_def split: option.splits if_splits parsed.splits)

function session_args :: "bool \<Rightarrow> inet \<Rightarrow> cmdline \<Rightarrow> string list \<Rightarrow> arg_result" where
  "session_args einval I k [] = Next k []"
| "session_args einval I k (arg # rest) =
     (case session_arg einval I k arg rest of Next k' rest' \<Rightarrow> session_args einval I k' rest' | r \<Rightarrow> r)"
  by pat_completeness auto
termination
  by (relation "measure (\<lambda>(_, _, _, args). length args)") (auto dest: session_arg_shrinks)

subsection \<open>What a command line leaves behind\<close>

definition name_ok :: "bbdd_c_session_str \<Rightarrow> bool" where
  "name_ok s \<longleftrightarrow> (s_unset s \<longrightarrow> s_val s = None) \<and> (\<forall>v. s_val s = Some v \<longrightarrow> length v < IFNAMSIZ)"

definition netif_ok :: "bbdd_c_session_netif \<Rightarrow> bool" where
  "netif_ok n \<longleftrightarrow> (n_unset n \<longrightarrow> n_name n = None \<and> n_ifindex n = None) \<and> (\<forall>v. n_name n = Some v \<longrightarrow> length v < IFNAMSIZ)"

definition addr_ok :: "bbdd_c_session_addr \<Rightarrow> bool" where
  "addr_ok a \<longleftrightarrow> (a_unset a \<longrightarrow> a_af a = 0) \<and> a_af a \<in> {0, AF_INET, AF_INET6}
     \<and> (a_af a = 0 \<longrightarrow> a_str a = []) \<and> length (a_str a) < INET6_ADDRSTRLEN"

definition csess_ok :: "bbdd_c_session \<Rightarrow> bool" where
  "csess_ok cs \<longleftrightarrow> name_ok (c_name cs) \<and> netif_ok (c_netif cs) \<and> netif_ok (v_netif (c_vrf cs))
     \<and> addr_ok (c_src cs) \<and> addr_ok (c_dst cs)"

definition gives :: "('a \<Rightarrow> bool) \<Rightarrow> 'a parsed \<Rightarrow> bool" where
  "gives P r \<longleftrightarrow> (case r of Aborted \<Rightarrow> False | Parsed v _ \<Rightarrow> P v | _ \<Rightarrow> True)"

lemma gives_simps [simp]: "gives P No_match" "gives P Failed" "\<not> gives P Aborted" "gives P (Parsed v rest) \<longleftrightarrow> P v"
  by (simp_all add: gives_def)

lemma gives_pbind: "gives Q m \<Longrightarrow> (\<And>v rest. Q v \<Longrightarrow> gives P (f v rest)) \<Longrightarrow> gives P (pbind m f)"
  by (cases m) (simp_all add: pbind_def)

lemma gives_first_of: "list_all (gives P) rs \<Longrightarrow> gives P (first_of rs)"
  by (induction rs) (auto simp: first_of.simps split: parsed.split)

lemma gives_kw: "args \<noteq> [] \<Longrightarrow> (\<And>s v. p s = Some v \<Longrightarrow> P v) \<Longrightarrow> gives P (bbdd_c_parse_kw kw seen p args)"
  by (auto simp: bbdd_c_parse_kw_def split: list.split option.split)

lemma gives_flag: "args \<noteq> [] \<Longrightarrow> gives (\<lambda>_. True) (bbdd_c_parse_kw_flag kw seen args)"
  by (auto simp: bbdd_c_parse_kw_flag_def split: list.split)

lemma parse_ifname_len: "bbdd_c_parse_ifname s = Some v \<Longrightarrow> length v < IFNAMSIZ"
  by (auto simp: bbdd_c_parse_ifname_def split: if_splits)

lemma parse_addr_ok:
  "bbdd_c_parse_addr I s = Some (str, af) \<Longrightarrow> af \<in> {AF_INET, AF_INET6} \<and> length str < INET6_ADDRSTRLEN"
  by (auto simp: bbdd_c_parse_addr_def split: if_splits)

lemmas first_of_simps = first_of.simps pbind_def

lemma parse_str_ok:
  assumes "args \<noteq> []" "name_ok s"
  shows "gives name_ok (bbdd_c_session_parse_str kw s args)"
  using assms parse_ifname_len
  by (auto simp: bbdd_c_session_parse_str_def value_parsers bbdd_c_parse_kw_def bbdd_c_parse_kw_flag_def first_of_simps name_ok_def
      split: list.split option.split)

lemma parse_u32_no_ok:
  assumes "args \<noteq> []"
  shows "gives (\<lambda>_. True) (bbdd_c_parse_kw_u32_no einval kw v args)"
  using assms
  by (auto simp: bbdd_c_parse_kw_u32_no_def value_parsers bbdd_c_parse_kw_def bbdd_c_parse_kw_flag_def first_of_simps
      split: list.split option.split)

lemma parse_netif_ok:
  assumes a: "args \<noteq> []" and n: "netif_ok n"
  shows "gives netif_ok (bbdd_c_session_parse_netif einval kw n args)"
proof -
  have "gives netif_ok (bbdd_c_session_parse_netif_ifindex einval ix n args)" for ix
    unfolding bbdd_c_session_parse_netif_ifindex_def value_parsers
    by (rule gives_pbind[OF gives_kw[OF a, where P = "\<lambda>_. True"]])
      (use n in \<open>auto simp: bbdd_c_session_parse_netif_check_apply_def netif_ok_def\<close>)
  moreover have "gives netif_ok (bbdd_c_session_parse_netif_kw kw n args)"
    unfolding bbdd_c_session_parse_netif_kw_def value_parsers
    by (rule gives_pbind[OF gives_kw[OF a parse_ifname_len]])
      (use n in \<open>auto simp: bbdd_c_session_parse_netif_check_apply_def netif_ok_def\<close>)
  moreover have "gives netif_ok (bbdd_c_session_parse_netif_flag kw n args)"
    unfolding bbdd_c_session_parse_netif_flag_def
    by (rule gives_pbind[OF gives_flag[OF a]]) (use n in \<open>auto simp: netif_ok_def\<close>)
  ultimately show ?thesis unfolding bbdd_c_session_parse_netif_def by (intro gives_first_of) simp
qed

lemma parse_addr_field_ok:
  assumes a: "args \<noteq> []" and n: "addr_ok n"
  shows "gives addr_ok (bbdd_c_session_parse_addr I kw n args)"
proof -
  have "gives (\<lambda>(str, af). af \<in> {AF_INET, AF_INET6} \<and> length str < INET6_ADDRSTRLEN) (bbdd_c_parse_kw_addr I kw af args)" for af
    unfolding value_parsers by (rule gives_kw[OF a]) (use parse_addr_ok in blast)
  then have "gives addr_ok (bbdd_c_session_parse_addr_kw I kw n args)"
    unfolding bbdd_c_session_parse_addr_kw_def by (rule gives_pbind) (use n in \<open>auto simp: addr_ok_def\<close>)
  moreover have "gives addr_ok (bbdd_c_session_parse_addr_flag kw n args)"
    unfolding bbdd_c_session_parse_addr_flag_def
    by (rule gives_pbind[OF gives_flag[OF a]]) (use n in \<open>auto simp: addr_ok_def\<close>)
  ultimately show ?thesis unfolding bbdd_c_session_parse_addr_def by (intro gives_first_of) simp
qed

lemma gives_on_field: "gives Q (p v args) \<Longrightarrow> (\<And>x. Q x \<Longrightarrow> P (put x)) \<Longrightarrow> gives P (on_field p v put args)"
  unfolding on_field_def by (rule gives_pbind[where Q = Q]) simp_all

lemma value_gives:
  assumes "args \<noteq> []"
  shows "gives (\<lambda>_. True) (flag_kw kw b args)" "gives (\<lambda>_. True) (bbdd_c_parse_kw_u32 einval kw v args)"
    "gives (\<lambda>_. True) (bbdd_c_parse_kw_u8 einval kw w args)" "gives (\<lambda>_. True) (bbdd_c_parse_kw_time_us kw v args)"
  unfolding value_parsers using gives_kw[OF assms, where P = "\<lambda>_. True"] gives_flag[OF assms] by auto

lemma on_field_gives:
  assumes "args \<noteq> []"
  shows "(\<And>x. P (put x)) \<Longrightarrow> gives P (on_field (flag_kw kw) b put args)"
    "(\<And>x. P (put1 x)) \<Longrightarrow> gives P (on_field (bbdd_c_parse_kw_u32 einval kw) v put1 args)"
    "(\<And>x. P (put1 x)) \<Longrightarrow> gives P (on_field (bbdd_c_parse_kw_u32_no einval kw) v put1 args)"
    "(\<And>x. P (put1 x)) \<Longrightarrow> gives P (on_field (bbdd_c_parse_kw_time_us kw) v put1 args)"
    "(\<And>x. P (put2 x)) \<Longrightarrow> gives P (on_field (bbdd_c_parse_kw_u8 einval kw) w put2 args)"
    "name_ok s \<Longrightarrow> (\<And>x. name_ok x \<Longrightarrow> P (put3 x)) \<Longrightarrow> gives P (on_field (bbdd_c_session_parse_str kw) s put3 args)"
    "netif_ok n \<Longrightarrow> (\<And>x. netif_ok x \<Longrightarrow> P (put4 x)) \<Longrightarrow> gives P (on_field (bbdd_c_session_parse_netif einval kw) n put4 args)"
    "addr_ok d \<Longrightarrow> (\<And>x. addr_ok x \<Longrightarrow> P (put5 x)) \<Longrightarrow> gives P (on_field (bbdd_c_session_parse_addr I kw) d put5 args)"
  using value_gives[OF assms] parse_u32_no_ok[OF assms] parse_str_ok[OF assms] parse_netif_ok[OF assms] parse_addr_field_ok[OF assms]
  by (metis gives_on_field)+

lemma session_params_ok:
  assumes "args \<noteq> []" and "csess_ok cs"
  shows "gives csess_ok (first_of (session_params einval I cs args))"
  using assms(2) unfolding session_params_def Let_def
  by (intro gives_first_of) (simp add: csess_ok_def on_field_gives[OF assms(1)])

definition cmdline_ok :: "cmdline \<Rightarrow> bool" where
  "cmdline_ok k \<longleftrightarrow> csess_ok (k_select k) \<and> csess_ok (k_change k) \<and> (k_csess k = To_null \<longrightarrow> k_command k \<noteq> None)
     \<and> (\<forall>c. k_command k = Some c \<longrightarrow> c \<in> set bbdd_c_session_commands)"

lemma zero_csess_ok: "csess_ok zero_c_session"
  by (simp add: csess_ok_def zero_c_session_def name_ok_def netif_ok_def addr_ok_def zero_c_netif_def zero_c_addr_def INET6_ADDRSTRLEN_def)

lemma init_cmdline_ok: "cmdline_ok init_cmdline"
  by (simp add: cmdline_ok_def init_cmdline_def zero_csess_ok)

lemma param_arg_ok:
  assumes a: "args \<noteq> []" and k: "cmdline_ok k"
  shows "gives cmdline_ok (param_arg einval I k args)"
proof -
  have "csess_ok (get_csess k)" using k by (simp add: cmdline_ok_def get_csess_def)
  from session_params_ok[OF a this]
  have "gives cmdline_ok (on_field (\<lambda>cs args. first_of (session_params einval I cs args)) (get_csess k) (put_csess k) args)"
    by (rule gives_on_field) (use k in \<open>simp add: cmdline_ok_def put_csess_def\<close>)
  moreover have "gives cmdline_ok (on_field (flag_kw kw) v (\<lambda>b. k\<lparr>k_bulk := Some b\<rparr>) args)"
    "gives cmdline_ok (on_field (flag_kw kw) v (\<lambda>b. k\<lparr>k_diag := Some b\<rparr>) args)" for kw v
    using k by (auto simp: cmdline_ok_def intro!: on_field_gives[OF a])
  ultimately show ?thesis unfolding param_arg_def by (intro gives_first_of) simp
qed

lemma session_arg_ok:
  assumes k: "cmdline_ok k"
  shows "case session_arg einval I k arg rest of Next k' _ \<Rightarrow> cmdline_ok k' | Abort \<Rightarrow> False | _ \<Rightarrow> True"
proof (cases "find (\<lambda>c. cmd_name c = arg) bbdd_c_session_commands")
  case None
  have "cmdline_ok (k\<lparr>k_seen_arg := True\<rparr>)" using k by (simp add: cmdline_ok_def)
  from param_arg_ok[OF _ this, of "arg # rest" einval I] show ?thesis using None k
    by (auto simp: session_arg_def cmdline_ok_def gives_def split: parsed.splits)
next
  case (Some c)
  then have "c \<in> set bbdd_c_session_commands" by (auto simp: find_Some_iff)
  then show ?thesis using Some k by (simp add: session_arg_def cmdline_ok_def)
qed

lemma session_args_ok:
  "cmdline_ok k \<Longrightarrow> case session_args einval I k args of Next k' _ \<Rightarrow> cmdline_ok k' | Abort \<Rightarrow> False | _ \<Rightarrow> True"
proof (induction einval I k args rule: session_args.induct)
  case (2 einval I k arg rest)
  then show ?case using session_arg_ok[OF 2(2), of einval I arg rest] by (cases "session_arg einval I k arg rest") auto
qed simp

end
