(* ===== verification/Client_Request.thy ===== *)
theory Client_Request
  imports Client
begin

text \<open>
  The request of \<open>bbdd session\<close> (\<open>bbdd-c.c\<close>): how the client builds it from the command line
  and how the daemon reads it.  The theory shows that the client never fails an assertion and
  that the daemon reads from the request exactly the sessions the command line described.
\<close>

subsection \<open>The request\<close>

text \<open>Calls on an object under construction.  The string of an unknown address family is
  \<open>NULL\<close>, which \<open>json_object_new_string\<close> does not survive.\<close>

type_synonym 'j dbuilder = "'j builder \<Rightarrow> 'j builder dres"

fun dchain :: "'j dbuilder list \<Rightarrow> 'j dbuilder" where
  "dchain [] b = Some (Inr b)"
| "dchain (f # fs) b = dbind (f b) (dchain fs)"

definition if_seen :: "'v option \<Rightarrow> ('v \<Rightarrow> 'j builder \<Rightarrow> (jrpc_err, 'j builder) res) \<Rightarrow> 'j dbuilder" where
  "if_seen v f b = (case v of None \<Rightarrow> Some (Inr b) | Some x \<Rightarrow> of_jrpc (f x b))"

definition if_unset :: "bool \<Rightarrow> ('j builder \<Rightarrow> (jrpc_err, 'j builder) res) \<Rightarrow> 'j dbuilder" where
  "if_unset u f b = (if u then of_jrpc (f b) else Some (Inr b))"

definition bbdd_c_jrpc_append_netif :: "'j json_c \<Rightarrow> (nat \<Rightarrow> bool) \<Rightarrow> string \<Rightarrow> bbdd_c_session_netif \<Rightarrow> 'j dbuilder" where
  "bbdd_c_jrpc_append_netif J ok base netif =
     dchain [if_unset (n_unset netif) (bbdd_jrpc_append_null J ok (base @ ''_name'')),
             if_seen (n_name netif) (bbdd_jrpc_append_str J ok (base @ ''_name'')),
             if_seen (n_ifindex netif) (\<lambda>i. bbdd_jrpc_append_int J ok (base @ ''_index'') (uint i))]"

definition bbdd_util_jrpc_addr_obj :: "'j json_c \<Rightarrow> (nat \<Rightarrow> bool) \<Rightarrow> string \<Rightarrow> nat \<Rightarrow> nat \<Rightarrow> ('j \<times> nat) dres" where
  "bbdd_util_jrpc_addr_obj J ok addr af n =
     dbind (of_jrpc (bbdd_jrpc_json_new_object ok n))
     (\<lambda>b. dbind (of_jrpc (bbdd_jrpc_append_str J ok ''addr'' addr b))
     (\<lambda>b. case bbdd_sock_af_to_str af of
            None \<Rightarrow> None
          | Some family \<Rightarrow>
              dbind (of_jrpc (bbdd_jrpc_append_str J ok ''family'' family b))
              (\<lambda>(es, n). Some (Inr (new_object J es, n)))))"

definition bbdd_c_jrpc_append_addr :: "'j json_c \<Rightarrow> (nat \<Rightarrow> bool) \<Rightarrow> string \<Rightarrow> bbdd_c_session_addr \<Rightarrow> 'j dbuilder" where
  "bbdd_c_jrpc_append_addr J ok kw addr b =
     (if a_unset addr then of_jrpc (bbdd_jrpc_append_null J ok kw b)
      else if a_af addr = 0 then Some (Inr b)
      else dbind (bbdd_util_jrpc_addr_obj J ok (a_str addr) (a_af addr) (snd b))
        (\<lambda>(obj, n). of_jrpc (bbdd_jrpc_append_obj ok kw obj (fst b, n))))"

definition bbdd_c_jrpc_append_name :: "'j json_c \<Rightarrow> (nat \<Rightarrow> bool) \<Rightarrow> string \<Rightarrow> bbdd_c_session_str \<Rightarrow> 'j dbuilder" where
  "bbdd_c_jrpc_append_name J ok key str =
     dchain [if_unset (s_unset str) (bbdd_jrpc_append_null J ok key),
             if_seen (s_val str) (bbdd_jrpc_append_str J ok key)]"

definition session_fields :: "'j json_c \<Rightarrow> (nat \<Rightarrow> bool) \<Rightarrow> bbdd_c_session \<Rightarrow> 'j dbuilder list" where
  "session_fields J ok cs =
     (let flag = (\<lambda>k v. if_seen v (bbdd_jrpc_append_bool J ok k));
          u32 = (\<lambda>k (v :: u32 option). if_seen v (\<lambda>x. bbdd_jrpc_append_int J ok k (uint x)));
          u8 = (\<lambda>k (v :: u8 option). if_seen v (\<lambda>x. bbdd_jrpc_append_int J ok k (uint x)))
      in [flag ''multihop'' (f_multihop (c_flags cs)), flag ''cpi'' (f_cpi (c_flags cs)),
          flag ''passive'' (f_passive (c_flags cs)), flag ''shutdown'' (f_shutdown (c_flags cs)),
          u32 ''discr'' (c_discr cs), u32 ''remote_discr'' (c_remote_discr cs),
          bbdd_c_jrpc_append_name J ok ''name'' (c_name cs),
          u32 ''min_tx_us'' (c_min_tx_us cs), u32 ''min_rx_us'' (c_min_rx_us cs), u32 ''hold_time_us'' (c_hold_time_us cs),
          u8 ''ttl'' (c_ttl cs), u8 ''detect_mult'' (c_detect_mult cs),
          bbdd_c_jrpc_append_addr J ok ''src'' (c_src cs), bbdd_c_jrpc_append_addr J ok ''dst'' (c_dst cs),
          bbdd_c_jrpc_append_netif J ok ''netif'' (c_netif cs), bbdd_c_jrpc_append_netif J ok ''vrf'' (v_netif (c_vrf cs)),
          u32 ''vrf_table'' (v_table (c_vrf cs))])"

definition bbdd_c_jrpc_session_obj :: "'j json_c \<Rightarrow> (nat \<Rightarrow> bool) \<Rightarrow> bbdd_c_session \<Rightarrow> nat \<Rightarrow> ('j \<times> nat) dres" where
  "bbdd_c_jrpc_session_obj J ok cs n =
     dbind (of_jrpc (bbdd_jrpc_json_new_object ok n))
     (\<lambda>b. dbind (dchain (session_fields J ok cs) b) (\<lambda>(es, n). Some (Inr (new_object J es, n))))"

definition obj_if :: "bool \<Rightarrow> (nat \<Rightarrow> ('j \<times> nat) dres) \<Rightarrow> nat \<Rightarrow> ('j option \<times> nat) dres" where
  "obj_if c f n = (if c then dbind (f n) (\<lambda>(obj, n). Some (Inr (Some obj, n))) else Some (Inr (None, n)))"

text \<open>The request that is handed to \<open>bbdd_c_interact\<close>.\<close>

definition bbdd_c_session_jrpc ::
  "'j json_c \<Rightarrow> (nat \<Rightarrow> bool) \<Rightarrow> bbdd_c_session_command \<Rightarrow> bbdd_c_session \<Rightarrow> bbdd_c_session
     \<Rightarrow> bool option \<Rightarrow> bool option \<Rightarrow> 'j dres"
where
  "bbdd_c_session_jrpc J ok command select change bulk dg =
     dbind (obj_if (allow_query command) (bbdd_c_jrpc_session_obj J ok select) 0)
     (\<lambda>(select_obj, n). dbind (obj_if (allow_change command) (bbdd_c_jrpc_session_obj J ok change) n)
     (\<lambda>(change_obj, n).
        case (if dg = Some True then rpc_diag command else Some (rpc command)) of
          None \<Rightarrow> None
        | Some meth \<Rightarrow>
            dbind (of_jrpc (bbdd_jrpc_new_request J ok 1 meth n))
            (\<lambda>(res, n). dbind (of_jrpc (bbdd_jrpc_json_new_object ok n))
            (\<lambda>b. dbind (dchain
                    [if_seen select_obj (bbdd_jrpc_append_obj ok ''select''),
                     if_seen change_obj (bbdd_jrpc_append_obj ok ''change''),
                     if_unset (bulk = Some True) (bbdd_jrpc_append_bool J ok ''bulk'' True)] b)
            (\<lambda>(pes, n). dbind (of_jrpc (bbdd_jrpc_append_obj ok ''params'' (new_object J pes) (res, n)))
            (\<lambda>(res, n). Some (Inr (new_object J res))))))))"

definition bbdd_c_session_check_params_netif :: "bbdd_c_session_netif \<Rightarrow> unit option" where
  "bbdd_c_session_check_params_netif netif =
     (if n_unset netif \<and> (n_name netif \<noteq> None \<or> n_ifindex netif \<noteq> None) then None else Some ())"

definition bbdd_c_session_check_params :: "bbdd_c_session \<Rightarrow> unit option" where
  "bbdd_c_session_check_params cs =
     (case bbdd_c_session_check_params_netif (c_netif cs) of
        None \<Rightarrow> None
      | Some _ \<Rightarrow> bbdd_c_session_check_params_netif (v_netif (c_vrf cs)))"

text \<open>The client shows its help, fails before anything was sent, fails an assertion, or
  sends a request and waits for an answer of some type.\<close>

datatype 'j client_run = Help | Failure | Crash | Send 'j json_type

definition session_run :: "'j json_c \<Rightarrow> (nat \<Rightarrow> bool) \<Rightarrow> cmdline \<Rightarrow> 'j client_run" where
  "session_run J ok k =
     (case k_command k of
        None \<Rightarrow> Failure
      | Some command \<Rightarrow>
          if k_bulk k \<noteq> None \<and> \<not> allow_bulk command then Failure
          else if k_diag k \<noteq> None \<and> \<not> allow_diag command then Failure
          else if bbdd_c_session_check_params (k_select k) = None \<or> bbdd_c_session_check_params (k_change k) = None then Crash
          else (case bbdd_c_session_jrpc J ok command (k_select k) (k_change k) (k_bulk k) (k_diag k) of
                  None \<Rightarrow> Crash
                | Some (Inl e) \<Rightarrow> Failure
                | Some (Inr request) \<Rightarrow> Send request (expected_result_type command)))"

definition bbdd_c_session_main :: "'j json_c \<Rightarrow> (nat \<Rightarrow> bool) \<Rightarrow> bool \<Rightarrow> inet \<Rightarrow> string list \<Rightarrow> 'j client_run" where
  "bbdd_c_session_main J ok einval I args =
     (case session_args einval I init_cmdline args of
        Exit_success \<Rightarrow> Help
      | Exit_failure \<Rightarrow> Failure
      | Abort \<Rightarrow> Crash
      | Next k _ \<Rightarrow> session_run J ok k)"

subsection \<open>Global statistics\<close>

datatype global_result = Global_end bool "bool option" | Global_help | Global_failure

function global_args :: "bool \<Rightarrow> bool option \<Rightarrow> string list \<Rightarrow> global_result" where
  "global_args seen_stats dg [] = Global_end seen_stats dg"
| "global_args seen_stats dg (arg # rest) =
     (if arg = ''stats'' then (if seen_stats then Global_failure else global_args True dg rest)
      else if arg = ''help'' then Global_help
      else case flag_kw ''diag'' dg (arg # rest) of
             Parsed b rest' \<Rightarrow> global_args seen_stats (Some b) rest'
           | _ \<Rightarrow> Global_failure)"
  by pat_completeness auto
termination
proof (relation "measure (\<lambda>(_, _, args). length args)")
  fix dg :: "bool option" and arg rest b rest'
  assume "flag_kw ''diag'' dg (arg # rest) = Parsed b rest'"
  then have "shrinks (arg # rest) (Parsed b rest')"
    unfolding flag_kw_def using shrinks_kw(2)[of "arg # rest" "''diag''" "dg \<noteq> None"] by metis
  then show "((seen_stats, Some b, rest'), (seen_stats, dg, arg # rest)) \<in> measure (\<lambda>(_, _, args). length args)" for seen_stats :: bool
    by simp
qed simp_all

definition bbdd_c_global_stats_get_jrpc :: "'j json_c \<Rightarrow> (nat \<Rightarrow> bool) \<Rightarrow> 'j client_run" where
  "bbdd_c_global_stats_get_jrpc J ok =
     (case bbdd_jrpc_new_request J ok 1 ''global-stats-diag'' 0 of
        Inl _ \<Rightarrow> Failure
      | Inr b \<Rightarrow> Send (new_object J (fst b)) json_type_object)"

definition bbdd_c_global :: "'j json_c \<Rightarrow> (nat \<Rightarrow> bool) \<Rightarrow> string list \<Rightarrow> 'j client_run" where
  "bbdd_c_global J ok args =
     (case global_args False None args of
        Global_help \<Rightarrow> Help
      | Global_failure \<Rightarrow> Failure
      | Global_end seen_stats dg \<Rightarrow>
          if \<not> seen_stats then Failure
          else if dg \<noteq> Some True then Failure
          else bbdd_c_global_stats_get_jrpc J ok)"

subsection \<open>The members of a session object\<close>

text \<open>The keys a session object may have, each with its value when it is there.\<close>

definition present :: "(string \<times> 'j option) list \<Rightarrow> (string \<times> 'j) list" where
  "present sl = concat (map (\<lambda>(k, v). case v of None \<Rightarrow> [] | Some x \<Rightarrow> [(k, x)]) sl)"

lemma present_simps [simp]: "present [] = []" "present ((k, None) # sl) = present sl" "present ((k, Some x) # sl) = (k, x) # present sl"
  "present (xs @ ys) = present xs @ present ys"
  by (simp_all add: present_def)

lemma present_mem: "(k, x) \<in> set (present sl) \<longleftrightarrow> (k, Some x) \<in> set sl"
  by (auto simp: present_def split: option.splits)

lemma present_keys: "fst ` set (present sl) \<subseteq> fst ` set sl"
  by (auto simp: present_mem image_iff) (metis fst_conv)

lemma present_distinct: "distinct (map fst sl) \<Longrightarrow> distinct (map fst (present sl))"
proof (induction sl)
  case (Cons a sl)
  then have "fst a \<notin> fst ` set (present sl)" using present_keys[of sl] by auto
  then show ?case using Cons by (cases a; cases "snd a") auto
qed simp

lemma map_of_present:
  assumes "distinct (map fst sl)"
  shows "map_of (present sl) k = Option.bind (map_of sl k) id"
  using assms
proof (induction sl)
  case (Cons a sl)
  then have "map_of (present sl) (fst a) = None"
    using present_keys[of sl] by (auto simp: map_of_eq_None_iff)
  then show ?case using Cons by (cases a; cases "snd a") auto
qed simp

lemma present_concat: "present (concat sls) = concat (map present sls)"
  by (induction sls) simp_all

definition name_slot :: "'j json_c \<Rightarrow> bool \<Rightarrow> string option \<Rightarrow> 'j option" where
  "name_slot J unset v = (if unset then Some (json_null J) else map_option (new_string J) v)"

definition num_slot :: "'j json_c \<Rightarrow> 'a::len word option \<Rightarrow> 'j option" where
  "num_slot J v = map_option (\<lambda>x. new_int64 J (uint x)) v"

definition addr_obj :: "'j json_c \<Rightarrow> bbdd_c_session_addr \<Rightarrow> 'j" where
  "addr_obj J a = new_object J [(''addr'', new_string J (a_str a)),
     (''family'', new_string J (if a_af a = AF_INET then ''ipv4'' else ''ipv6''))]"

definition addr_slot :: "'j json_c \<Rightarrow> bbdd_c_session_addr \<Rightarrow> 'j option" where
  "addr_slot J a = (if a_unset a then Some (json_null J) else if a_af a = 0 then None else Some (addr_obj J a))"

definition slot_groups :: "'j json_c \<Rightarrow> bbdd_c_session \<Rightarrow> (string \<times> 'j option) list list" where
  "slot_groups J cs =
     (let flag = map_option (new_boolean J); fs = c_flags cs; n = c_netif cs; v = v_netif (c_vrf cs) in
      [[(''multihop'', flag (f_multihop fs))], [(''cpi'', flag (f_cpi fs))],
       [(''passive'', flag (f_passive fs))], [(''shutdown'', flag (f_shutdown fs))],
       [(''discr'', num_slot J (c_discr cs))], [(''remote_discr'', num_slot J (c_remote_discr cs))],
       [(''name'', name_slot J (s_unset (c_name cs)) (s_val (c_name cs)))],
       [(''min_tx_us'', num_slot J (c_min_tx_us cs))], [(''min_rx_us'', num_slot J (c_min_rx_us cs))],
       [(''hold_time_us'', num_slot J (c_hold_time_us cs))],
       [(''ttl'', num_slot J (c_ttl cs))], [(''detect_mult'', num_slot J (c_detect_mult cs))],
       [(''src'', addr_slot J (c_src cs))], [(''dst'', addr_slot J (c_dst cs))],
       [(''netif_name'', name_slot J (n_unset n) (n_name n)), (''netif_index'', num_slot J (n_ifindex n))],
       [(''vrf_name'', name_slot J (n_unset v) (n_name v)), (''vrf_index'', num_slot J (n_ifindex v))],
       [(''vrf_table'', num_slot J (v_table (c_vrf cs)))]])"

definition session_slots :: "'j json_c \<Rightarrow> bbdd_c_session \<Rightarrow> (string \<times> 'j option) list" where
  "session_slots J cs = concat (slot_groups J cs)"

lemma session_slots_distinct: "distinct (map fst (session_slots J cs))"
  by (simp add: session_slots_def slot_groups_def Let_def)

subsection \<open>The builder makes these members\<close>

definition dappends :: "'j dbuilder \<Rightarrow> (string \<times> 'j) list \<Rightarrow> bool" where
  "dappends f ms \<longleftrightarrow> (\<forall>es n. distinct (map fst (es @ ms)) \<longrightarrow>
     (\<exists>r. f (es, n) = Some r \<and> (\<forall>es' n'. r = Inr (es', n') \<longrightarrow> es' = es @ ms)))"

lemma dappendsD:
  "dappends f ms \<Longrightarrow> distinct (map fst (es @ ms)) \<Longrightarrow> \<exists>r. f (es, n) = Some r \<and> (\<forall>es' n'. r = Inr (es', n') \<longrightarrow> es' = es @ ms)"
  by (simp add: dappends_def)

lemma dappends_of_jrpc: "appends f ms \<Longrightarrow> dappends (\<lambda>b. of_jrpc (f b)) ms"
  unfolding dappends_def appends_def of_jrpc_def by (auto simp: map_sum_def split: sum.splits)

lemma dappends_skip: "dappends (\<lambda>b. Some (Inr b)) []"
  by (simp add: dappends_def)

lemma dappends_seen:
  assumes "\<And>x. appends (f x) [(k, g x)]"
  shows "dappends (if_seen v f) (present [(k, map_option g v)])"
  using dappends_of_jrpc[OF assms] dappends_skip by (cases v) (simp_all add: if_seen_def[abs_def])

lemma dappends_dchain:
  assumes "list_all2 dappends fs mss"
  shows "dappends (dchain fs) (concat mss)"
  using assms
proof (induction rule: list_all2_induct)
  case (Cons f fs ms mss)
  show ?case unfolding dappends_def
  proof (intro allI impI)
    fix es n
    assume d: "distinct (map fst (es @ concat (ms # mss)))"
    then have "distinct (map fst (es @ ms))" by auto
    then obtain r where r: "f (es, n) = Some r" "\<forall>es' n'. r = Inr (es', n') \<longrightarrow> es' = es @ ms"
      using Cons(1) unfolding dappends_def by blast
    show "\<exists>r. dchain (f # fs) (es, n) = Some r \<and> (\<forall>es' n'. r = Inr (es', n') \<longrightarrow> es' = es @ concat (ms # mss))"
    proof (cases r)
      case (Inr b)
      then obtain m where b: "b = (es @ ms, m)" using r(2) by (cases b) simp
      have "distinct (map fst ((es @ ms) @ concat mss))" using d by simp
      then obtain q where "dchain fs (es @ ms, m) = Some q" "\<forall>es' n'. q = Inr (es', n') \<longrightarrow> es' = (es @ ms) @ concat mss"
        using Cons(3) unfolding dappends_def by blast
      then show ?thesis using r(1) Inr b by simp
    qed (use r in simp)
  qed
qed (simp add: dappends_def)

lemma dappends_name:
  assumes "s_unset s \<longrightarrow> s_val s = None"
  shows "dappends (bbdd_c_jrpc_append_name J ok k s) (present [(k, name_slot J (s_unset s) (s_val s))])"
proof -
  have n: "dappends (if_unset u (bbdd_jrpc_append_null J ok k)) (if u then [(k, json_null J)] else [])" for u
    using dappends_of_jrpc[OF append_appends(5)] dappends_skip by (cases u) (simp_all add: if_unset_def[abs_def])
  have "dappends (bbdd_c_jrpc_append_name J ok k s)
    (concat [if s_unset s then [(k, json_null J)] else [], present [(k, map_option (new_string J) (s_val s))]])"
    unfolding bbdd_c_jrpc_append_name_def
    by (rule dappends_dchain) (simp add: n dappends_seen[OF append_appends(1)])
  then show ?thesis using assms by (auto simp: name_slot_def)
qed

lemma dappends_netif:
  assumes "netif_ok n"
  shows "dappends (bbdd_c_jrpc_append_netif J ok base n)
    (present [(base @ ''_name'', name_slot J (n_unset n) (n_name n)), (base @ ''_index'', num_slot J (n_ifindex n))])"
proof -
  have n: "dappends (if_unset u (bbdd_jrpc_append_null J ok k)) (if u then [(k, json_null J)] else [])" for u k
    using dappends_of_jrpc[OF append_appends(5)] dappends_skip by (cases u) (simp_all add: if_unset_def[abs_def])
  have "dappends (bbdd_c_jrpc_append_netif J ok base n)
    (concat [if n_unset n then [(base @ ''_name'', json_null J)] else [],
       present [(base @ ''_name'', map_option (new_string J) (n_name n))],
       present [(base @ ''_index'', map_option (\<lambda>i. new_int64 J (uint i)) (n_ifindex n))]])"
    unfolding bbdd_c_jrpc_append_netif_def
    by (rule dappends_dchain) (simp add: n dappends_seen[OF append_appends(1)] dappends_seen[OF append_appends(2)])
  then show ?thesis using assms by (cases "n_name n"; cases "n_ifindex n") (auto simp: name_slot_def num_slot_def netif_ok_def)
qed

lemma af_to_str: "bbdd_sock_af_to_str AF_INET = Some ''ipv4''" "bbdd_sock_af_to_str AF_INET6 = Some ''ipv6''"
  by (simp_all add: bbdd_sock_af_to_str_def bbdd_sock_protos_def)

lemma addr_obj_built:
  assumes "a_af a \<in> {AF_INET, AF_INET6}"
  shows "\<exists>r. bbdd_util_jrpc_addr_obj J ok (a_str a) (a_af a) n = Some r \<and> (\<forall>obj n'. r = Inr (obj, n') \<longrightarrow> obj = addr_obj J a)"
  using assms af_to_str
  by (auto simp: bbdd_util_jrpc_addr_obj_def bbdd_jrpc_json_new_object_def append_defs append_new_def object_add_def addr_obj_def
      of_jrpc_def dbind_def)

lemma dappends_addr:
  assumes "addr_ok a"
  shows "dappends (bbdd_c_jrpc_append_addr J ok k a) (present [(k, addr_slot J a)])"
proof -
  consider "a_unset a" | "\<not> a_unset a" "a_af a = 0" | "\<not> a_unset a" "a_af a \<noteq> 0" "a_af a \<in> {AF_INET, AF_INET6}"
    using assms unfolding addr_ok_def by auto
  then show ?thesis
  proof cases
    case 1 then show ?thesis using dappends_of_jrpc[OF append_appends(5)]
      by (simp add: bbdd_c_jrpc_append_addr_def[abs_def] addr_slot_def)
  next
    case 2 then show ?thesis using dappends_skip by (simp add: bbdd_c_jrpc_append_addr_def[abs_def] addr_slot_def)
  next
    case 3
    have o: "dappends (\<lambda>b. of_jrpc (bbdd_jrpc_append_obj ok k (addr_obj J a) b)) [(k, addr_obj J a)]"
      by (rule dappends_of_jrpc[OF append_appends(4)])
    show ?thesis unfolding dappends_def
    proof (intro allI impI)
      fix es n assume d: "distinct (map fst (es @ present [(k, addr_slot J a)]))"
      obtain r where r: "bbdd_util_jrpc_addr_obj J ok (a_str a) (a_af a) n = Some r" "\<forall>obj n'. r = Inr (obj, n') \<longrightarrow> obj = addr_obj J a"
        using addr_obj_built[OF 3(3)] by blast
      then show "\<exists>r. bbdd_c_jrpc_append_addr J ok k a (es, n) = Some r \<and> (\<forall>es' n'. r = Inr (es', n') \<longrightarrow> es' = es @ present [(k, addr_slot J a)])"
        using o d 3(1,2) unfolding dappends_def
        by (cases r) (auto simp: bbdd_c_jrpc_append_addr_def addr_slot_def)
    qed
  qed
qed

lemma session_obj_built:
  assumes "csess_ok cs"
  shows "\<exists>r. bbdd_c_jrpc_session_obj J ok cs n = Some r
    \<and> (\<forall>obj n'. r = Inr (obj, n') \<longrightarrow> obj = new_object J (present (session_slots J cs)))"
proof -
  have c: "s_unset (c_name cs) \<longrightarrow> s_val (c_name cs) = None" "netif_ok (c_netif cs)" "netif_ok (v_netif (c_vrf cs))"
    "addr_ok (c_src cs)" "addr_ok (c_dst cs)" using assms by (simp_all add: csess_ok_def name_ok_def)
  have "list_all2 dappends (session_fields J ok cs) (map present (slot_groups J cs))"
    unfolding session_fields_def slot_groups_def Let_def
    by (simp only: list.map list.rel_inject dappends_name[OF c(1)] dappends_addr[OF c(4)] dappends_addr[OF c(5)]
        dappends_netif[OF c(2), of J ok "''netif''", unfolded num_slot_def append_Cons append_Nil] dappends_netif[OF c(3), of J ok "''vrf''", unfolded num_slot_def append_Cons append_Nil]
        dappends_seen[OF append_appends(3)] dappends_seen[OF append_appends(2)] num_slot_def simp_thms list.rel_intros)
  then have "dappends (dchain (session_fields J ok cs)) (present (session_slots J cs))"
    unfolding session_slots_def present_concat by (rule dappends_dchain)
  from dappendsD[OF this, of "[]" "Suc n"] present_distinct[OF session_slots_distinct[of J cs]]
  obtain r where r: "dchain (session_fields J ok cs) ([], Suc n) = Some r"
    "\<forall>es' n'. r = Inr (es', n') \<longrightarrow> es' = present (session_slots J cs)" by (simp only: append_Nil) blast
  show ?thesis
  proof (cases "ok n")
    case True
    then show ?thesis using r by (cases r) (auto simp: bbdd_c_jrpc_session_obj_def bbdd_jrpc_json_new_object_def)
  qed (simp add: bbdd_c_jrpc_session_obj_def bbdd_jrpc_json_new_object_def)
qed

subsection \<open>The daemon reads the session back\<close>

lemma uint_range: "- (2 ^ 63) \<le> uint (x :: u32)" "uint x < 2 ^ 63" "- (2 ^ 63) \<le> uint (y :: u8)" "uint y < 2 ^ 63"
  using uint_lt2p[of x] uint_lt2p[of y] by (simp_all add: order_trans[OF _ unsigned_greater_eq])

lemma json_simps:
  assumes "json_ok J"
  shows "get_string J (new_string J s) = s" "get_type J (new_string J s) = json_type_string"
    "get_boolean J (new_boolean J b) = b" "get_type J (new_boolean J b) = json_type_boolean"
    "get_type J (new_int64 J i) = json_type_int" "get_type J (json_null J) = json_type_null"
    "distinct (map fst es) \<Longrightarrow> get_type J (new_object J es) = json_type_object"
    "distinct (map fst es) \<Longrightarrow> iter J (new_object J es) = es"
  using assms by (simp_all add: json_ok_def)

lemma read_u32:
  assumes "json_ok J"
  shows "bbdd_jrpc_get_uint32 J (new_int64 J (uint (x :: u32))) = Inr x"
proof -
  have "get_int64 J (new_int64 J (uint x)) = (uint x, False)" using assms uint_range(1,2)[of x] by (simp add: json_ok_def)
  then show ?thesis using uint_lt2p[of x] by (simp add: bbdd_jrpc_get_uint32_def bbdd_jrpc_get_uint_def)
qed

lemma read_u8:
  assumes "json_ok J"
  shows "bbdd_jrpc_get_uint8 J (new_int64 J (uint (x :: u8))) = Inr x"
proof -
  have "get_int64 J (new_int64 J (uint x)) = (uint x, False)" using assms uint_range(3,4)[of x] by (simp add: json_ok_def)
  moreover have "ucast (word_of_int (uint x) :: u32) = x" by (rule bit_word_eqI) (simp add: bit_ucast_iff)
  ultimately show ?thesis using uint_lt2p[of x] by (simp add: bbdd_jrpc_get_uint8_def bbdd_jrpc_get_uint_def)
qed

lemma read_nums:
  assumes "json_ok J"
  shows "dissect_num (num_slot J v) (bbdd_jrpc_get_uint32 J) = Some (Inr v)"
    "dissect_num (num_slot J w) (bbdd_jrpc_get_uint8 J) = Some (Inr w)"
    "v \<noteq> Some 0 \<Longrightarrow> dissect_num (num_slot J v) (bbdd_jrpc_get_uint32_non0 J) = Some (Inr v)"
  using read_u32[OF assms] read_u8[OF assms]
  by (cases v; cases w; simp add: dissect_num_def when_seen_def num_slot_def bbdd_jrpc_get_uint32_non0_def)+

lemma read_str:
  assumes J: "json_ok J" and "unset \<longrightarrow> v = None" "\<forall>s. v = Some s \<longrightarrow> length s < IFNAMSIZ"
  shows "when_seen (name_slot J unset v) (bbdd_d_jrpc_dissect_str J) \<lparr>s_unset = False, s_val = None\<rparr> = Some (Inr \<lparr>s_unset = unset, s_val = v\<rparr>)"
    "when_seen (name_slot J unset v) (bbdd_d_jrpc_dissect_netif_name J) zero_c_netif
     = Some (Inr \<lparr>n_unset = unset, n_name = v, n_ifindex = None\<rparr>)"
  using assms(2,3) json_new_null[OF J] json_simps[OF J]
  by (cases v; cases unset; simp add: when_seen_def name_slot_def bbdd_d_jrpc_dissect_netif_name_def bbdd_d_jrpc_dissect_str_def
      bbdd_jrpc_strcpy_def zero_c_netif_def)+

lemma read_addr_obj:
  assumes J: "json_ok J" and a: "a_af a \<in> {AF_INET, AF_INET6}" "length (a_str a) < INET6_ADDRSTRLEN" "\<not> a_unset a"
  shows "bbdd_d_jrpc_dissect_addr_obj J (addr_obj J a) = Some (Inr a)"
proof -
  let ?fam = "if a_af a = AF_INET then ''ipv4'' else ''ipv6''"
  let ?es = "[(''addr'', new_string J (a_str a)), (''family'', new_string J ?fam)]"
  have it: "iter J (addr_obj J a) = ?es" "get_type J (addr_obj J a) = json_type_object"
    by (simp_all add: addr_obj_def json_simps[OF J])
  have "dissect_ok J (addr_obj J a) addr_policy"
    unfolding dissect_ok_def it by (simp add: addr_policy_def policy_accepts_def json_simps[OF J])
  moreover have "policy_wf addr_policy" by (simp add: policy_wf_def addr_policy_def)
  ultimately have "bbdd_jrpc_dissect J (addr_obj J a) addr_policy = Inr [Some (new_string J (a_str a)), Some (new_string J ?fam)]"
    using dissect_accepts[of addr_policy J "addr_obj J a"] unfolding it
    by (simp add: addr_policy_def member_of_def)
  moreover have "a = \<lparr>a_unset = False, a_str = a_str a, a_af = a_af a\<rparr>" using a(3) by simp
  ultimately show ?thesis using a(1,2)
    by (auto simp: bbdd_d_jrpc_dissect_addr_obj_def value_of_def json_simps[OF J] json_new_null[OF J] bbdd_jrpc_strcpy_def)
qed

lemma addr_obj_not_null: "json_ok J \<Longrightarrow> addr_obj J a \<noteq> json_null J"
  unfolding addr_obj_def by (rule json_new_null(4)) simp_all

lemma read_addr:
  assumes J: "json_ok J" and a: "addr_ok a"
  shows "when_seen (addr_slot J a) (bbdd_d_jrpc_dissect_addr J) zero_c_addr = Some (Inr a)"
proof (cases "a_af a = 0")
  case True
  then have "a = zero_c_addr\<lparr>a_unset := a_unset a\<rparr>" using a by (simp add: addr_ok_def zero_c_addr_def)
  then show ?thesis using True by (cases "a_unset a") (auto simp: when_seen_def addr_slot_def bbdd_d_jrpc_dissect_addr_def zero_c_addr_def)
next
  case False
  then show ?thesis using read_addr_obj[OF J, of a] a addr_obj_not_null[OF J, of a]
    by (auto simp: addr_ok_def when_seen_def addr_slot_def bbdd_d_jrpc_dissect_addr_def)
qed

text \<open>What the daemon accepts of what the client can say.\<close>

definition readable :: "bbdd_c_session \<Rightarrow> bool" where
  "readable cs \<longleftrightarrow> c_discr cs \<noteq> Some 0 \<and> n_ifindex (c_netif cs) \<noteq> Some 0 \<and> n_ifindex (v_netif (c_vrf cs)) \<noteq> Some 0
     \<and> \<not> a_unset (c_dst cs)"

definition session_json :: "'j json_c \<Rightarrow> bbdd_c_session \<Rightarrow> 'j" where
  "session_json J cs = new_object J (present (session_slots J cs))"

lemma session_json_object:
  assumes "json_ok J"
  shows "iter J (session_json J cs) = present (session_slots J cs)" "get_type J (session_json J cs) = json_type_object"
  using present_distinct[OF session_slots_distinct, of J cs] by (simp_all add: session_json_def json_simps[OF assms])

lemma slot_types:
  assumes J: "json_ok J"
  shows "num_slot J v = Some x \<Longrightarrow> get_type J x = json_type_int"
    "name_slot J u s = Some x \<Longrightarrow> get_type J x = json_type_string \<or> get_type J x = json_type_null"
    "addr_slot J a = Some x \<Longrightarrow> get_type J x = json_type_object \<or> a_unset a \<and> get_type J x = json_type_null"
    "map_option (new_boolean J) b = Some x \<Longrightarrow> get_type J x = json_type_boolean"
  using json_simps[OF J] by (auto simp: num_slot_def name_slot_def addr_slot_def addr_obj_def split: if_splits)

definition slot_accepted :: "'j json_c \<Rightarrow> bbdd_jrpc_policy list \<Rightarrow> string \<times> 'j option \<Rightarrow> bool" where
  "slot_accepted J pols s \<longleftrightarrow>
     (\<forall>x. snd s = Some x \<longrightarrow> (\<exists>pol \<in> set pols. \<not> ignored pol \<and> pol_key pol = fst s \<and> policy_accepts J pol x))"

lemma slot_acceptedI:
  assumes J: "json_ok J"
  shows "policy k json_type_int \<in> set pols \<Longrightarrow> slot_accepted J pols (k, num_slot J v)"
    "policy k json_type_boolean \<in> set pols \<Longrightarrow> slot_accepted J pols (k, map_option (new_boolean J) b)"
    "(policy k json_type_string)\<lparr>nullable := True\<rparr> \<in> set pols \<Longrightarrow> slot_accepted J pols (k, name_slot J u s)"
    "(policy k json_type_object)\<lparr>nullable := True\<rparr> \<in> set pols \<Longrightarrow> slot_accepted J pols (k, addr_slot J a)"
    "policy k json_type_object \<in> set pols \<Longrightarrow> \<not> a_unset a \<Longrightarrow> slot_accepted J pols (k, addr_slot J a)"
  unfolding slot_accepted_def policy_accepts_def using slot_types[OF J]
  by (metis bbdd_jrpc_policy.select_convs bbdd_jrpc_policy.simps fst_conv snd_conv)+

lemma session_accepted:
  assumes J: "json_ok J" and d: "\<not> a_unset (c_dst cs)"
  shows "list_all (slot_accepted J session_policy) (session_slots J cs)"
  unfolding session_slots_def slot_groups_def Let_def
  by (simp add: slot_acceptedI[OF J] d session_policy_def)

lemma session_dissected:
  assumes J: "json_ok J" and d: "\<not> a_unset (c_dst cs)"
  shows "bbdd_jrpc_dissect J (session_json J cs) session_policy
    = Inr (map (\<lambda>pol. Option.bind (map_of (session_slots J cs) (pol_key pol)) id) session_policy)"
proof -
  have "\<forall>(k, v) \<in> set (present (session_slots J cs)). \<exists>pol \<in> set session_policy. \<not> ignored pol \<and> pol_key pol = k \<and> policy_accepts J pol v"
    using session_accepted[OF assms] by (fastforce simp: present_mem slot_accepted_def list_all_iff)
  moreover have "\<forall>pol \<in> set session_policy. \<not> required pol \<and> \<not> ignored pol" by (simp add: session_policy_def)
  ultimately have "dissect_ok J (session_json J cs) session_policy"
    unfolding dissect_ok_def session_json_object[OF J]
    using present_distinct[OF session_slots_distinct, of J cs] by blast
  from dissect_accepts[OF session_policy_wf this]
  show ?thesis unfolding session_json_object[OF J]
    by (simp add: member_of_def map_of_present[OF session_slots_distinct] session_policy_def)
qed

lemma slot_values:
  "Option.bind (map_of (session_slots J cs) ''multihop'') id = map_option (new_boolean J) (f_multihop (c_flags cs))"
  "Option.bind (map_of (session_slots J cs) ''cpi'') id = map_option (new_boolean J) (f_cpi (c_flags cs))"
  "Option.bind (map_of (session_slots J cs) ''passive'') id = map_option (new_boolean J) (f_passive (c_flags cs))"
  "Option.bind (map_of (session_slots J cs) ''shutdown'') id = map_option (new_boolean J) (f_shutdown (c_flags cs))"
  "Option.bind (map_of (session_slots J cs) ''discr'') id = num_slot J (c_discr cs)"
  "Option.bind (map_of (session_slots J cs) ''remote_discr'') id = num_slot J (c_remote_discr cs)"
  "Option.bind (map_of (session_slots J cs) ''name'') id = name_slot J (s_unset (c_name cs)) (s_val (c_name cs))"
  "Option.bind (map_of (session_slots J cs) ''min_tx_us'') id = num_slot J (c_min_tx_us cs)"
  "Option.bind (map_of (session_slots J cs) ''min_rx_us'') id = num_slot J (c_min_rx_us cs)"
  "Option.bind (map_of (session_slots J cs) ''hold_time_us'') id = num_slot J (c_hold_time_us cs)"
  "Option.bind (map_of (session_slots J cs) ''ttl'') id = num_slot J (c_ttl cs)"
  "Option.bind (map_of (session_slots J cs) ''detect_mult'') id = num_slot J (c_detect_mult cs)"
  "Option.bind (map_of (session_slots J cs) ''src'') id = addr_slot J (c_src cs)"
  "Option.bind (map_of (session_slots J cs) ''dst'') id = addr_slot J (c_dst cs)"
  "Option.bind (map_of (session_slots J cs) ''netif_name'') id = name_slot J (n_unset (c_netif cs)) (n_name (c_netif cs))"
  "Option.bind (map_of (session_slots J cs) ''netif_index'') id = num_slot J (n_ifindex (c_netif cs))"
  "Option.bind (map_of (session_slots J cs) ''vrf_name'') id = name_slot J (n_unset (v_netif (c_vrf cs))) (n_name (v_netif (c_vrf cs)))"
  "Option.bind (map_of (session_slots J cs) ''vrf_index'') id = num_slot J (n_ifindex (v_netif (c_vrf cs)))"
  "Option.bind (map_of (session_slots J cs) ''vrf_table'') id = num_slot J (v_table (c_vrf cs))"
  by (simp_all add: session_slots_def slot_groups_def Let_def)

lemma session_read:
  assumes J: "json_ok J" and c: "csess_ok cs" and r: "readable cs"
  shows "bbdd_d_jrpc_dissect_session_one J (session_json J cs) = Some (Inr cs)"
proof -
  have d: "\<not> a_unset (c_dst cs)" and n0: "c_discr cs \<noteq> Some 0" "n_ifindex (c_netif cs) \<noteq> Some 0" "n_ifindex (v_netif (c_vrf cs)) \<noteq> Some 0"
    using r by (simp_all add: readable_def)
  have ok: "addr_ok (c_src cs)" "addr_ok (c_dst cs)" using c by (simp_all add: csess_ok_def)
  have st: "s_unset (c_name cs) \<longrightarrow> s_val (c_name cs) = None" "\<forall>s. s_val (c_name cs) = Some s \<longrightarrow> length s < IFNAMSIZ"
    "n_unset (c_netif cs) \<longrightarrow> n_name (c_netif cs) = None" "\<forall>s. n_name (c_netif cs) = Some s \<longrightarrow> length s < IFNAMSIZ"
    "n_unset (v_netif (c_vrf cs)) \<longrightarrow> n_name (v_netif (c_vrf cs)) = None"
    "\<forall>s. n_name (v_netif (c_vrf cs)) = Some s \<longrightarrow> length s < IFNAMSIZ"
    using c by (simp_all add: csess_ok_def name_ok_def netif_ok_def)
  have b: "map_option (get_boolean J) (map_option (new_boolean J) f) = f" for f
    by (cases f) (simp_all add: json_simps[OF J])
  note vs = session_dissected[OF J d]
  show ?thesis
    unfolding bbdd_d_jrpc_dissect_session_one_def vs
    by (simp add: session_policy_def slot_values b read_nums[OF J] n0 read_str(1)[OF J st(1,2)] read_str(2)[OF J st(3,4)] read_str(2)[OF J st(5,6)]
        read_addr[OF J ok(1)] read_addr[OF J ok(2)] del: option.map_comp)
qed

subsection \<open>The whole request\<close>

lemma obj_if_built:
  assumes "csess_ok cs"
  shows "\<exists>r. obj_if c (bbdd_c_jrpc_session_obj J ok cs) n = Some r
    \<and> (\<forall>obj n'. r = Inr (obj, n') \<longrightarrow> obj = (if c then Some (session_json J cs) else None))"
proof -
  obtain r where "bbdd_c_jrpc_session_obj J ok cs n = Some r" "\<forall>obj n'. r = Inr (obj, n') \<longrightarrow> obj = session_json J cs"
    using session_obj_built[OF assms, of J ok n] unfolding session_json_def by blast
  then show ?thesis by (cases r) (auto simp: obj_if_def)
qed

text \<open>The members of \<open>params\<close>.\<close>

definition param_slots ::
  "'j json_c \<Rightarrow> bbdd_c_session_command \<Rightarrow> bbdd_c_session \<Rightarrow> bbdd_c_session \<Rightarrow> bool option \<Rightarrow> (string \<times> 'j option) list"
where
  "param_slots J c select change bulk =
     [(''select'', if allow_query c then Some (session_json J select) else None),
      (''change'', if allow_change c then Some (session_json J change) else None),
      (''bulk'', if bulk = Some True then Some (new_boolean J True) else None)]"

lemma param_slots_distinct: "distinct (map fst (param_slots J c select change bulk))"
  by (simp add: param_slots_def)

lemma dappends_params:
  "dappends (dchain [if_seen (if allow_query c then Some (session_json J select) else None) (bbdd_jrpc_append_obj ok ''select''),
      if_seen (if allow_change c then Some (session_json J change) else None) (bbdd_jrpc_append_obj ok ''change''),
      if_unset (bulk = Some True) (bbdd_jrpc_append_bool J ok ''bulk'' True)])
    (present (param_slots J c select change bulk))"
proof -
  have s: "dappends (if_seen v (bbdd_jrpc_append_obj ok k)) (present [(k, v)])" for v k
    using dappends_seen[of "bbdd_jrpc_append_obj ok k" k "\<lambda>x. x" v, OF append_appends(4)] by (simp add: option.map_ident)
  have b: "dappends (if_unset u (bbdd_jrpc_append_bool J ok ''bulk'' True)) (present [(''bulk'', if u then Some (new_boolean J True) else None)])" for u
    using dappends_of_jrpc[OF append_appends(3)] dappends_skip by (cases u) (simp_all add: if_unset_def[abs_def])
  have "dappends (dchain [if_seen x (bbdd_jrpc_append_obj ok ''select''), if_seen y (bbdd_jrpc_append_obj ok ''change''),
      if_unset u (bbdd_jrpc_append_bool J ok ''bulk'' True)])
    (concat [present [(''select'', x)], present [(''change'', y)], present [(''bulk'', if u then Some (new_boolean J True) else None)]])" for x y u
    by (rule dappends_dchain) (simp only: list.rel_inject list.rel_intros s b simp_thms)
  moreover have "concat [present [a], present [b], present [d]] = present [a, b, d]" for a b d :: "string \<times> 'a option"
    using present_concat[of "[[a], [b], [d]]"] by (simp only: list.map concat.simps append.simps)
  ultimately show ?thesis unfolding param_slots_def by simp
qed

lemma params_dissected:
  assumes J: "json_ok J"
  shows "bbdd_jrpc_dissect J (new_object J (present (param_slots J c select change bulk))) (params_policy (allow_query c) (allow_change c))
    = Inr (map snd (param_slots J c select change bulk))"
proof -
  let ?sl = "param_slots J c select change bulk" and ?pols = "params_policy (allow_query c) (allow_change c)"
  have it: "iter J (new_object J (present ?sl)) = present ?sl" "get_type J (new_object J (present ?sl)) = json_type_object"
    using json_simps(7,8)[OF J present_distinct[OF param_slots_distinct]] by simp_all
  have "dissect_ok J (new_object J (present ?sl)) ?pols"
    unfolding dissect_ok_def it using present_distinct[OF param_slots_distinct, of J c select change bulk]
    by (auto simp: param_slots_def params_policy_def policy_accepts_def session_json_object[OF J] json_simps[OF J])
  moreover have "policy_wf ?pols" by (simp add: policy_wf_def params_policy_def)
  ultimately have "bbdd_jrpc_dissect J (new_object J (present ?sl)) ?pols = Inr (map (member_of (present ?sl)) ?pols)"
    using dissect_accepts[of ?pols J "new_object J (present ?sl)"] unfolding it by simp
  then show ?thesis unfolding member_of_def map_of_present[OF param_slots_distinct]
    by (simp add: param_slots_def params_policy_def)
qed

definition method_of :: "bbdd_c_session_command \<Rightarrow> bool option \<Rightarrow> string option" where
  "method_of c dg = (if dg = Some True then rpc_diag c else Some (rpc c))"

lemma session_jrpc_total:
  assumes "csess_ok select" "csess_ok change" and m: "method_of c dg \<noteq> None"
  shows "bbdd_c_session_jrpc J ok c select change bulk dg \<noteq> None"
proof -
  have o: "\<exists>r. obj_if b (bbdd_c_jrpc_session_obj J ok cs) n = Some r" if "csess_ok cs" for b cs n
    using obj_if_built[OF that] by blast
  have p: "\<exists>r. dchain [if_seen x (bbdd_jrpc_append_obj ok ''select''), if_seen y (bbdd_jrpc_append_obj ok ''change''),
      if_unset u (bbdd_jrpc_append_bool J ok ''bulk'' True)] b = Some r" for x y u b
    by (auto simp: if_seen_def if_unset_def of_jrpc_def split: option.split intro!: dbind_total)
  obtain meth where "method_of c dg = Some meth" using m by blast
  then have "\<exists>r. bbdd_c_session_jrpc J ok c select change bulk dg = Some r"
    unfolding bbdd_c_session_jrpc_def method_of_def
    using o[OF assms(1)] o[OF assms(2)] p
    by (auto simp: of_jrpc_def split: prod.split intro!: dbind_total simp del: dchain.simps)
  then show ?thesis by blast
qed

lemma of_jrpc_Inr: "of_jrpc r = Some (Inr a) \<longleftrightarrow> r = Inr a"
  by (cases r) simp_all

lemma session_jrpc_read:
  assumes J: "json_ok J" and c: "csess_ok select" "csess_ok change"
    and s: "bbdd_c_session_jrpc J ok c select change bulk dg = Some (Inr request)"
  obtains meth where "method_of c dg = Some meth"
    "bbdd_jrpc_dissect_request J request
       = Some (Inr (new_int64 J 1, meth, new_object J (present (param_slots J c select change bulk))))"
proof -
  obtain so n1 co n2 meth res n3 b pes n4 b' where
    p: "obj_if (allow_query c) (bbdd_c_jrpc_session_obj J ok select) 0 = Some (Inr (so, n1))"
      "obj_if (allow_change c) (bbdd_c_jrpc_session_obj J ok change) n1 = Some (Inr (co, n2))"
      "method_of c dg = Some meth" "bbdd_jrpc_new_request J ok 1 meth n2 = Inr (res, n3)"
      "bbdd_jrpc_json_new_object ok n3 = Inr b"
      "dchain [if_seen so (bbdd_jrpc_append_obj ok ''select''), if_seen co (bbdd_jrpc_append_obj ok ''change''),
               if_unset (bulk = Some True) (bbdd_jrpc_append_bool J ok ''bulk'' True)] b = Some (Inr (pes, n4))"
      "bbdd_jrpc_append_obj ok ''params'' (new_object J pes) (res, n4) = Inr b'" "request = new_object J (fst b')"
    using s unfolding bbdd_c_session_jrpc_def method_of_def[symmetric] dbind_Inr of_jrpc_Inr
    by (cases "method_of c dg") (auto simp: dbind_Inr of_jrpc_Inr simp del: dchain.simps)
  have o: "so = (if allow_query c then Some (session_json J select) else None)"
    "co = (if allow_change c then Some (session_json J change) else None)"
    using obj_if_built[OF c(1), of "allow_query c" J ok 0] obj_if_built[OF c(2), of "allow_change c" J ok n1] p(1,2) by simp_all
  obtain m where b: "b = ([], m)" using p(5) by (auto simp: bbdd_jrpc_json_new_object_def split: if_splits)
  have "pes = present (param_slots J c select change bulk)"
    using dappendsD[OF dappends_params, of "[]" J c select change bulk ok m] present_distinct[OF param_slots_distinct, of J c select change bulk] p(6)
    unfolding o b by (simp only: append_Nil) auto
  with request_read[OF J p(4), of "new_object J pes" n4 b'] p(3,7,8) that show thesis by simp
qed

text \<open>\<open>bbdd global\<close> sends its request only for \<open>stats\<close> and \<open>diag\<close> in either order.\<close>

lemma global_args_end:
  "global_args st dg args = Global_end True (Some True) \<Longrightarrow>
     (st \<or> ''stats'' \<in> set args) \<and> (dg = Some True \<or> ''diag'' \<in> set args)"
proof (induction st dg args rule: global_args.induct)
  case (2 st dg arg rest)
  show ?case
  proof (cases "arg = ''stats''")
    case False
    obtain b rest' where p: "flag_kw ''diag'' dg (arg # rest) = Parsed b rest'" and h: "arg \<noteq> ''help''"
      using 2(3) False by (auto split: if_splits parsed.splits)
    then have "''diag'' \<in> set (arg # rest)" "set rest' \<subseteq> set (arg # rest)"
      by (auto simp: flag_kw_def bbdd_c_parse_kw_flag_def split: if_splits list.splits)
    then show ?thesis using 2(2)[OF False h p] 2(3) False h p by auto
  qed (use 2 in \<open>auto split: if_splits\<close>)
qed simp

lemma global_sends:
  assumes "bbdd_c_global J ok args = Send request t"
  shows "''stats'' \<in> set args \<and> ''diag'' \<in> set args \<and> t = json_type_object"
proof -
  have "global_args False None args = Global_end True (Some True)" "t = json_type_object"
    using assms by (auto simp: bbdd_c_global_def bbdd_c_global_stats_get_jrpc_def split: global_result.splits if_splits sum.splits)
  then show ?thesis using global_args_end by fastforce
qed

subsection \<open>A concrete command line\<close>

definition sample_cmdline :: cmdline where
  "sample_cmdline = init_cmdline\<lparr>k_select := zero_c_session\<lparr>c_name := \<lparr>s_unset = False, s_val = Some ''a''\<rparr>\<rparr>,
     k_seen_arg := True, k_bulk := Some True, k_command := Some (bbdd_c_session_commands ! 2), k_csess := To_null\<rparr>"

lemma sample_args: "session_args False I init_cmdline [''name'', ''a'', ''bulk'', ''del''] = Next sample_cmdline []"
  by (simp add: session_arg_def bbdd_c_session_commands_def param_arg_def session_params_def on_field_def value_parsers field_parsers
      bbdd_c_parse_kw_def bbdd_c_parse_kw_flag_def first_of_simps init_cmdline_def zero_c_session_def get_csess_def put_csess_def
      bbdd_c_parse_ifname_def IFNAMSIZ_def sample_cmdline_def Let_def)

lemma sample_line_request:
  "bbdd_c_session_main sample_json (\<lambda>_. True) False I [''name'', ''a'', ''bulk'', ''del'']
     = Send (JObj [(''jsonrpc'', JStr ''2.0''), (''id'', JInt 1), (''method'', JStr ''session-del''),
         (''params'', JObj [(''select'', JObj [(''name'', JStr ''a'')]), (''bulk'', JBool True)])]) json_type_null"
  unfolding bbdd_c_session_main_def sample_args
  by (simp add: session_run_def sample_cmdline_def init_cmdline_def bbdd_c_session_commands_def zero_c_session_def zero_c_netif_def zero_c_addr_def
      bbdd_c_session_check_params_def bbdd_c_session_check_params_netif_def bbdd_c_session_jrpc_def obj_if_def bbdd_c_jrpc_session_obj_def
      session_fields_def Let_def bbdd_jrpc_json_new_object_def if_seen_def if_unset_def bbdd_c_jrpc_append_name_def bbdd_c_jrpc_append_addr_def
      bbdd_c_jrpc_append_netif_def append_defs append_new_def object_add_def bbdd_jrpc_new_request_def bbdd_jrpc_new_object_def sample_json_def)

subsection \<open>Properties\<close>

lemma check_params_ok:
  assumes "csess_ok cs"
  shows "bbdd_c_session_check_params cs \<noteq> None"
proof -
  have "netif_ok (c_netif cs)" "netif_ok (v_netif (c_vrf cs))" using assms by (simp_all add: csess_ok_def)
  then have "bbdd_c_session_check_params_netif (c_netif cs) = Some ()" "bbdd_c_session_check_params_netif (v_netif (c_vrf cs)) = Some ()"
    unfolding netif_ok_def bbdd_c_session_check_params_netif_def by argo+
  then show ?thesis by (simp add: bbdd_c_session_check_params_def)
qed

lemma command_methods:
  "c \<in> set bbdd_c_session_commands \<Longrightarrow> dg \<noteq> None \<longrightarrow> allow_diag c \<Longrightarrow> method_of c dg \<noteq> None"
  by (auto simp: bbdd_c_session_commands_def method_of_def)

text \<open>C13. No command line makes \<open>bbdd session\<close> fail an assertion: it is read to its end, the
  unset interfaces have neither name nor index, a method is known for every command, and
  every address has a family with a name, whichever allocations fail.\<close>

theorem client_never_crashes: "bbdd_c_session_main J ok einval I args \<noteq> Crash"
proof (cases "session_args einval I init_cmdline args")
  case (Next k rest)
  then have k: "cmdline_ok k" using session_args_ok[OF init_cmdline_ok, of einval I args] by simp
  show ?thesis
  proof (cases "k_command k")
    case (Some c)
    have c: "c \<in> set bbdd_c_session_commands" "csess_ok (k_select k)" "csess_ok (k_change k)"
      using k Some by (simp_all add: cmdline_ok_def)
    show ?thesis
    proof (cases "k_diag k \<noteq> None \<longrightarrow> allow_diag c")
      case True
      from session_jrpc_total[OF c(2,3) command_methods[OF c(1) True], of J ok "k_bulk k"]
      obtain r where "bbdd_c_session_jrpc J ok c (k_select k) (k_change k) (k_bulk k) (k_diag k) = Some r" by blast
      then show ?thesis using Next Some check_params_ok[OF c(2)] check_params_ok[OF c(3)]
        by (cases r) (auto simp: bbdd_c_session_main_def session_run_def)
    qed (use Next Some in \<open>simp add: bbdd_c_session_main_def session_run_def\<close>)
  qed (simp add: bbdd_c_session_main_def session_run_def Next)
qed (use session_args_ok[OF init_cmdline_ok, of einval I args] in \<open>simp_all add: bbdd_c_session_main_def\<close>)

text \<open>C12. When \<open>bbdd session\<close> sends a request, the daemon reads from it the method of the
  command and, for every session that the command line describes with a discriminator
  and interface indices other than 0 and without unsetting \<open>dst\<close>, exactly that session;
  \<open>bulk\<close> is there when it was given.\<close>

theorem client_request_understood:
  assumes "json_ok J" and "bbdd_c_session_main J ok einval I args = Send request t"
  shows "\<exists>k rest command meth params so co bo.
     session_args einval I init_cmdline args = Next k rest \<and> k_command k = Some command
     \<and> bbdd_jrpc_dissect_request J request = Some (Inr (new_int64 J 1, meth, params))
     \<and> Some meth = (if k_diag k = Some True then rpc_diag command else Some (rpc command))
     \<and> bbdd_jrpc_dissect J params (params_policy (allow_query command) (allow_change command)) = Inr [so, co, bo]
     \<and> (allow_query command \<and> readable (k_select k) \<longrightarrow>
          (\<exists>obj. so = Some obj \<and> bbdd_d_jrpc_dissect_session_one J obj = Some (Inr (k_select k))))
     \<and> (allow_change command \<and> readable (k_change k) \<longrightarrow>
          (\<exists>obj. co = Some obj \<and> bbdd_d_jrpc_dissect_session_one J obj = Some (Inr (k_change k))))
     \<and> map_option (get_boolean J) bo = (if k_bulk k = Some True then Some True else None)"
proof -
  obtain k rest c where k: "session_args einval I init_cmdline args = Next k rest" "k_command k = Some c"
    and s: "bbdd_c_session_jrpc J ok c (k_select k) (k_change k) (k_bulk k) (k_diag k) = Some (Inr request)"
    using assms(2) unfolding bbdd_c_session_main_def session_run_def by (force split: arg_result.splits option.splits if_splits sum.splits)
  have ok: "csess_ok (k_select k)" "csess_ok (k_change k)"
    using session_args_ok[OF init_cmdline_ok, of einval I args] k by (simp_all add: cmdline_ok_def)
  obtain meth where m: "method_of c (k_diag k) = Some meth"
    "bbdd_jrpc_dissect_request J request
       = Some (Inr (new_int64 J 1, meth, new_object J (present (param_slots J c (k_select k) (k_change k) (k_bulk k)))))"
    by (rule session_jrpc_read[OF assms(1) ok s])
  let ?so = "if allow_query c then Some (session_json J (k_select k)) else None"
    and ?co = "if allow_change c then Some (session_json J (k_change k)) else None"
    and ?bo = "if k_bulk k = Some True then Some (new_boolean J True) else None"
  have d: "bbdd_jrpc_dissect J (new_object J (present (param_slots J c (k_select k) (k_change k) (k_bulk k))))
      (params_policy (allow_query c) (allow_change c)) = Inr [?so, ?co, ?bo]"
    unfolding params_dissected[OF assms(1)] by (simp add: param_slots_def)
  show ?thesis
    by (intro exI conjI, rule k(1), rule k(2), rule m(2), rule m(1)[symmetric, unfolded method_of_def], rule d)
      (use session_read[OF assms(1) ok(1)] session_read[OF assms(1) ok(2)] json_simps(3)[OF assms(1)] in auto)
qed

theorem client_request_understood_witness:
  "\<exists>params obj co bo.
     bbdd_jrpc_dissect_request sample_json
       (JObj [(''jsonrpc'', JStr ''2.0''), (''id'', JInt 1), (''method'', JStr ''session-del''),
         (''params'', JObj [(''select'', JObj [(''name'', JStr ''a'')]), (''bulk'', JBool True)])])
       = Some (Inr (JInt 1, ''session-del'', params))
     \<and> bbdd_jrpc_dissect sample_json params (params_policy True False) = Inr [Some obj, co, bo]
     \<and> bbdd_d_jrpc_dissect_session_one sample_json obj = Some (Inr (k_select sample_cmdline))"
proof -
  have r: "readable (k_select sample_cmdline)" "k_diag sample_cmdline = None"
    "k_command sample_cmdline = Some (bbdd_c_session_commands ! 2)"
    by (simp_all add: readable_def sample_cmdline_def init_cmdline_def zero_c_session_def zero_c_netif_def zero_c_addr_def)
  have c: "allow_query (bbdd_c_session_commands ! 2)" "\<not> allow_change (bbdd_c_session_commands ! 2)"
    "rpc (bbdd_c_session_commands ! 2) = ''session-del''" by (simp_all add: bbdd_c_session_commands_def)
  have n: "new_int64 sample_json 1 = JInt 1" by (simp add: sample_json_def)
  from client_request_understood[OF sample_json_ok sample_line_request[of sample_inet], unfolded sample_args n]
  show ?thesis using r c by (elim exE conjE) (simp only: arg_result.inject, force)
qed

end
