(* ===== verification/Monitor.thy ===== *)
theory Monitor
  imports Jrpc
begin

text \<open>
  The monitor (\<open>bbdd-mon.c\<close>): clients subscribe to topics over a connection or with a
  callback, and every message on a topic goes to the clients that asked for it.  The theory
  shows who gets a message, that a client that cannot take it is dropped, and that the
  counters by which the senders decide whether to build a message are exact.  A client is
  known by a number that stands for its address.  An outer \<open>None\<close> is a null pointer that is
  followed.
\<close>

subsection \<open>Topics and clients\<close>

datatype bbdd_mon_topic = T_ringbuf | T_bfddi | T_bfddo | T_jrpc | T_session | T_error | T_debug

definition topic_names :: "(string \<times> bbdd_mon_topic) list" where
  "topic_names = [(''ringbuf'', T_ringbuf), (''bfddi'', T_bfddi), (''bfddo'', T_bfddo), (''jrpc'', T_jrpc),
     (''session'', T_session), (''error'', T_error), (''debug'', T_debug)]"

type_synonym bbdd_mon_topics = "bbdd_mon_topic \<Rightarrow> bool"

text \<open>A socket client has a peer only once its callbacks are registered.\<close>

datatype bbdd_mon_cli_kind = Kind_sock "nat option" | Kind_cb nat

record bbdd_mon_cli =
  cli_id :: nat
  cli_topics :: bbdd_mon_topics
  cli_kind :: bbdd_mon_cli_kind

record bbdd_mon =
  mon_head :: "bbdd_mon_cli list"
  mon_active :: "bbdd_mon_topic \<Rightarrow> u32"
  mon_eager :: bool
  mon_fresh :: nat

definition bbdd_mon_create :: "bool \<Rightarrow> bbdd_mon" where
  "bbdd_mon_create eager = \<lparr>mon_head = [], mon_active = (\<lambda>_. 0), mon_eager = eager, mon_fresh = 0\<rparr>"

definition bbdd_mon_alloc_client :: "bool \<Rightarrow> bbdd_mon \<Rightarrow> bbdd_mon_topics \<Rightarrow> (bbdd_mon \<times> nat) option" where
  "bbdd_mon_alloc_client alloc_ok mon topics =
     (if \<not> alloc_ok then None
      else Some (mon\<lparr>mon_head := mon_head mon @ [\<lparr>cli_id = mon_fresh mon, cli_topics = topics, cli_kind = Kind_sock None\<rparr>],
                     mon_active := (\<lambda>t. if topics t then mon_active mon t + 1 else mon_active mon t),
                     mon_fresh := Suc (mon_fresh mon)\<rparr>, mon_fresh mon))"

definition bbdd_mon_dealloc_client :: "bbdd_mon \<Rightarrow> bbdd_mon_cli \<Rightarrow> bbdd_mon" where
  "bbdd_mon_dealloc_client mon cli =
     mon\<lparr>mon_head := filter (\<lambda>c. cli_id c \<noteq> cli_id cli) (mon_head mon),
         mon_active := (\<lambda>t. if cli_topics cli t then mon_active mon t - 1 else mon_active mon t)\<rparr>"

definition bbdd_mon_unsubscribe_sock :: "bbdd_mon \<Rightarrow> bbdd_mon_cli \<Rightarrow> bbdd_mon option" where
  "bbdd_mon_unsubscribe_sock mon cli =
     (if cli_kind cli = Kind_sock None then None else Some (bbdd_mon_dealloc_client mon cli))"

definition bbdd_mon_unsubscribe_cb :: "bbdd_mon \<Rightarrow> bbdd_mon_cli \<Rightarrow> bbdd_mon" where
  "bbdd_mon_unsubscribe_cb mon cli = bbdd_mon_dealloc_client mon cli"

definition bbdd_mon_unsubscribe :: "bbdd_mon \<Rightarrow> bbdd_mon_cli \<Rightarrow> bbdd_mon option" where
  "bbdd_mon_unsubscribe mon cli =
     (case cli_kind cli of
        Kind_sock _ \<Rightarrow> bbdd_mon_unsubscribe_sock mon cli
      | Kind_cb _ \<Rightarrow> Some (bbdd_mon_unsubscribe_cb mon cli))"

definition set_kind :: "nat \<Rightarrow> bbdd_mon_cli_kind \<Rightarrow> bbdd_mon \<Rightarrow> bbdd_mon" where
  "set_kind i k mon = mon\<lparr>mon_head := map (\<lambda>c. if cli_id c = i then c\<lparr>cli_kind := k\<rparr> else c) (mon_head mon)\<rparr>"

definition find_cli :: "bbdd_mon \<Rightarrow> nat \<Rightarrow> bbdd_mon_cli option" where
  "find_cli mon i = find (\<lambda>c. cli_id c = i) (mon_head mon)"

text \<open>\<open>cbs_ok\<close>: whether the callbacks of the connection could be registered.  The result tells
  whether the subscription succeeded.\<close>

definition bbdd_mon_subscribe_sock :: "bool \<Rightarrow> bool \<Rightarrow> bbdd_mon \<Rightarrow> nat \<Rightarrow> bbdd_mon_topics \<Rightarrow> (bbdd_mon \<times> bool) option" where
  "bbdd_mon_subscribe_sock alloc_ok cbs_ok mon peer topics =
     (case bbdd_mon_alloc_client alloc_ok mon topics of
        None \<Rightarrow> Some (mon, False)
      | Some (mon1, i) \<Rightarrow>
          if cbs_ok then Some (set_kind i (Kind_sock (Some peer)) mon1, True)
          else (case find_cli mon1 i of
                  None \<Rightarrow> None
                | Some cli \<Rightarrow> map_option (\<lambda>m. (m, False)) (bbdd_mon_unsubscribe mon1 cli)))"

definition bbdd_mon_subscribe_cb :: "bool \<Rightarrow> bbdd_mon \<Rightarrow> nat \<Rightarrow> bbdd_mon_topics \<Rightarrow> bbdd_mon \<times> bool" where
  "bbdd_mon_subscribe_cb alloc_ok mon cb topics =
     (case bbdd_mon_alloc_client alloc_ok mon topics of
        None \<Rightarrow> (mon, False)
      | Some (mon1, i) \<Rightarrow> (set_kind i (Kind_cb cb) mon1, True))"

definition bbdd_mon_ssk_cli_done :: "bbdd_mon \<Rightarrow> nat \<Rightarrow> bbdd_mon option" where
  "bbdd_mon_ssk_cli_done mon i = (case find_cli mon i of None \<Rightarrow> None | Some cli \<Rightarrow> bbdd_mon_unsubscribe mon cli)"

definition bbdd_mon_topic_active :: "bbdd_mon \<Rightarrow> bbdd_mon_topic \<Rightarrow> bool" where
  "bbdd_mon_topic_active mon topic \<longleftrightarrow> mon_eager mon \<or> mon_active mon topic > 0"

subsection \<open>Sending\<close>

text \<open>The clients that got the message, in order.  \<open>nq_ok\<close> tells whether the message fits the
  buffer of a connection.\<close>

fun send_loop ::
  "(nat \<Rightarrow> bool) \<Rightarrow> bbdd_mon_topic \<Rightarrow> bbdd_mon_cli list \<Rightarrow> bbdd_mon \<Rightarrow> (bbdd_mon \<times> bbdd_mon_cli list) option"
where
  "send_loop nq_ok t [] mon = Some (mon, [])"
| "send_loop nq_ok t (cli # rest) mon =
     (if \<not> cli_topics cli t then send_loop nq_ok t rest mon
      else case cli_kind cli of
             Kind_sock None \<Rightarrow> None
           | Kind_sock (Some p) \<Rightarrow>
               if nq_ok p then map_option (\<lambda>(m, got). (m, cli # got)) (send_loop nq_ok t rest mon)
               else (case bbdd_mon_unsubscribe mon cli of None \<Rightarrow> None | Some m \<Rightarrow> send_loop nq_ok t rest m)
           | Kind_cb _ \<Rightarrow> map_option (\<lambda>(m, got). (m, cli # got)) (send_loop nq_ok t rest mon))"

text \<open>The notification.  A timestamp that cannot be added is left out; \<open>mk_u64\<close> is
  \<open>json_object_new_uint64\<close>.\<close>

definition append_ts :: "(nat \<Rightarrow> bool) \<Rightarrow> 'j \<Rightarrow> 'j builder \<Rightarrow> 'j builder" where
  "append_ts ok ts b =
     (case b of (es, n) \<Rightarrow>
        if \<not> ok n then (es, Suc n)
        else case object_add ok ''ts'' ts (es, Suc n) of Inl _ \<Rightarrow> (es, Suc (Suc n)) | Inr b' \<Rightarrow> b')"

definition mon_notif :: "'j json_c \<Rightarrow> (nat \<Rightarrow> bool) \<Rightarrow> (u64 \<Rightarrow> 'j) \<Rightarrow> u64 \<Rightarrow> string \<Rightarrow> 'j \<Rightarrow> nat \<Rightarrow> (jrpc_err, 'j) res" where
  "mon_notif J ok mk_u64 ts_ms meth params n =
     (case bbdd_jrpc_json_new_object ok n of
        Inl e \<Rightarrow> Inl e
      | Inr b \<Rightarrow>
          (case bbdd_jrpc_append_obj ok ''params'' params (append_ts ok (mk_u64 ts_ms) b) of
             Inl e \<Rightarrow> Inl e
           | Inr (oes, n) \<Rightarrow>
               (case bbdd_jrpc_new_notif J ok meth n of
                  Inl e \<Rightarrow> Inl e
                | Inr nb \<Rightarrow>
                    (case bbdd_jrpc_append_obj ok ''params'' (new_object J oes) nb of
                       Inl e \<Rightarrow> Inl e
                     | Inr (nes, _) \<Rightarrow> Inr (new_object J nes)))))"

text \<open>\<open>bbdd_mon_send\<close>: the monitor, and the message with the clients that got it.\<close>

definition bbdd_mon_send ::
  "'j json_c \<Rightarrow> (nat \<Rightarrow> bool) \<Rightarrow> (u64 \<Rightarrow> 'j) \<Rightarrow> u64 \<Rightarrow> (nat \<Rightarrow> bool) \<Rightarrow> bbdd_mon \<Rightarrow> string \<Rightarrow> 'j \<Rightarrow> nat \<Rightarrow> bbdd_mon_topic
     \<Rightarrow> (bbdd_mon \<times> (bbdd_mon_cli \<times> 'j) list) option"
where
  "bbdd_mon_send J ok mk_u64 ts_ms nq_ok mon meth params n topic =
     (case mon_notif J ok mk_u64 ts_ms meth params n of
        Inl _ \<Rightarrow> Some (mon, [])
      | Inr notif \<Rightarrow> map_option (\<lambda>(m, got). (m, map (\<lambda>c. (c, notif)) got)) (send_loop nq_ok topic (mon_head mon) mon))"

definition bbdd_mon_send_str ::
  "'j json_c \<Rightarrow> (nat \<Rightarrow> bool) \<Rightarrow> (u64 \<Rightarrow> 'j) \<Rightarrow> u64 \<Rightarrow> (nat \<Rightarrow> bool) \<Rightarrow> bbdd_mon \<Rightarrow> bbdd_mon_topic \<Rightarrow> string \<Rightarrow> string option
     \<Rightarrow> (bbdd_mon \<times> (bbdd_mon_cli \<times> 'j) list) option"
where
  "bbdd_mon_send_str J ok mk_u64 ts_ms nq_ok mon topic meth str =
     (if \<not> bbdd_mon_topic_active mon topic then Some (mon, [])
      else case str of
             None \<Rightarrow> bbdd_mon_send J ok mk_u64 ts_ms nq_ok mon meth (json_null J) 0 topic
           | Some s \<Rightarrow>
               (case bbdd_jrpc_json_new_object ok 0 of
                  Inl _ \<Rightarrow> Some (mon, [])
                | Inr b \<Rightarrow>
                    (case bbdd_jrpc_append_str J ok ''msg'' s b of
                       Inl _ \<Rightarrow> Some (mon, [])
                     | Inr (es, n) \<Rightarrow> bbdd_mon_send J ok mk_u64 ts_ms nq_ok mon meth (new_object J es) n topic)))"

text \<open>Debugging messages and errors; \<open>msg\<close> is the formatted text, if there was memory for it,
  and \<open>wrap_ok\<close> tells whether the error could be added to it.\<close>

definition bbdd_mon_send_debug ::
  "'j json_c \<Rightarrow> (nat \<Rightarrow> bool) \<Rightarrow> (u64 \<Rightarrow> 'j) \<Rightarrow> u64 \<Rightarrow> (nat \<Rightarrow> bool) \<Rightarrow> bbdd_mon \<Rightarrow> string option
     \<Rightarrow> (bbdd_mon \<times> (bbdd_mon_cli \<times> 'j) list) option"
where
  "bbdd_mon_send_debug J ok mk_u64 ts_ms nq_ok mon msg =
     (if \<not> bbdd_mon_topic_active mon T_debug then Some (mon, [])
      else case msg of
             None \<Rightarrow> Some (mon, [])
           | Some s \<Rightarrow> bbdd_mon_send_str J ok mk_u64 ts_ms nq_ok mon T_debug ''debug'' (Some s))"

definition bbdd_mon_senderr ::
  "'j json_c \<Rightarrow> (nat \<Rightarrow> bool) \<Rightarrow> (u64 \<Rightarrow> 'j) \<Rightarrow> u64 \<Rightarrow> (nat \<Rightarrow> bool) \<Rightarrow> bbdd_mon \<Rightarrow> string option \<Rightarrow> string option \<Rightarrow> bool
     \<Rightarrow> (bbdd_mon \<times> (bbdd_mon_cli \<times> 'j) list) option"
where
  "bbdd_mon_senderr J ok mk_u64 ts_ms nq_ok mon error msg wrap_ok =
     bbdd_mon_send_str J ok mk_u64 ts_ms nq_ok mon T_error ''error'' (Some
       (case (msg, error) of
          (None, None) \<Rightarrow> ''(unknown error)''
        | (None, Some e) \<Rightarrow> e
        | (Some m, None) \<Rightarrow> m
        | (Some m, Some e) \<Rightarrow> if wrap_ok then m @ '': '' @ e else m))"

subsection \<open>Subscribing by a request\<close>

datatype subscribe_answer = Sub_inv_params | Sub_interr | Sub_ok

fun match_topics :: "string list \<Rightarrow> bbdd_mon_topics \<Rightarrow> bbdd_mon_topics option" where
  "match_topics [] topics = Some topics"
| "match_topics (name # names) topics =
     (case map_of topic_names name of None \<Rightarrow> None | Some t \<Rightarrow> match_topics names (topics(t := True)))"

definition topics_policy :: "bbdd_jrpc_policy list" where
  "topics_policy = [(policy ''topics'' json_type_array)\<lparr>required := True\<rparr>]"

definition bbdd_d_handle_monitor_subscribe ::
  "'j json_c \<Rightarrow> bool \<Rightarrow> bool \<Rightarrow> bbdd_mon \<Rightarrow> nat \<Rightarrow> 'j \<Rightarrow> (bbdd_mon \<times> subscribe_answer) option"
where
  "bbdd_d_handle_monitor_subscribe J alloc_ok cbs_ok mon peer params =
     (case bbdd_jrpc_dissect J params topics_policy of
        Inl _ \<Rightarrow> Some (mon, Sub_inv_params)
      | Inr vs \<Rightarrow>
          let arr = value_of J vs 0 in
          (case bbdd_jrpc_validate_array J arr json_type_string of
             Inl _ \<Rightarrow> Some (mon, Sub_inv_params)
           | Inr _ \<Rightarrow>
               if array_elems J arr = [] then Some (mon, Sub_inv_params)
               else (case match_topics (map (get_string J) (array_elems J arr)) (\<lambda>_. False) of
                       None \<Rightarrow> Some (mon, Sub_inv_params)
                     | Some topics \<Rightarrow>
                         (case bbdd_mon_subscribe_sock alloc_ok cbs_ok mon peer topics of
                            None \<Rightarrow> None
                          | Some (m, ok) \<Rightarrow> Some (m, if ok then Sub_ok else Sub_interr)))))"

subsection \<open>The counters are exact\<close>

definition subscribed :: "bbdd_mon \<Rightarrow> bbdd_mon_topic \<Rightarrow> bbdd_mon_cli list" where
  "subscribed mon t = filter (\<lambda>c. cli_topics c t) (mon_head mon)"

definition mon_ok :: "bbdd_mon \<Rightarrow> bool" where
  "mon_ok mon \<longleftrightarrow> distinct (map cli_id (mon_head mon))
     \<and> (\<forall>c \<in> set (mon_head mon). cli_id c < mon_fresh mon \<and> cli_kind c \<noteq> Kind_sock None)
     \<and> (\<forall>t. mon_active mon t = of_nat (length (subscribed mon t)))"

lemma create_ok: "mon_ok (bbdd_mon_create eager)"
  by (simp add: mon_ok_def bbdd_mon_create_def subscribed_def)

lemma dealloc_count:
  assumes "distinct (map cli_id cs)" "cli \<in> set cs"
  shows "length (filter (\<lambda>c. cli_topics c t) cs)
    = length (filter (\<lambda>c. cli_topics c t) (filter (\<lambda>c. cli_id c \<noteq> cli_id cli) cs)) + (if cli_topics cli t then 1 else 0)"
  using assms
proof (induction cs)
  case (Cons c cs)
  show ?case
  proof (cases "c = cli")
    case True
    then have "filter (\<lambda>c. cli_id c \<noteq> cli_id cli) cs = cs" using Cons.prems(1) by (auto simp: filter_id_conv image_iff)
    then show ?thesis using True by simp
  next
    case False
    then have "cli \<in> set cs" "cli_id c \<noteq> cli_id cli" using Cons.prems by (auto simp: image_iff)
    then show ?thesis using Cons by simp
  qed
qed simp

lemma dealloc_ok:
  assumes "mon_ok mon" "cli \<in> set (mon_head mon)"
  shows "mon_ok (bbdd_mon_dealloc_client mon cli)"
  using assms dealloc_count[of "mon_head mon" cli]
  by (auto simp: mon_ok_def bbdd_mon_dealloc_client_def subscribed_def distinct_map_filter simp del: filter_filter)

lemma unsubscribe_ok:
  assumes "mon_ok mon" "cli \<in> set (mon_head mon)"
  shows "bbdd_mon_unsubscribe mon cli = Some (bbdd_mon_dealloc_client mon cli)"
  using assms by (auto simp: bbdd_mon_unsubscribe_def bbdd_mon_unsubscribe_sock_def bbdd_mon_unsubscribe_cb_def mon_ok_def
      split: bbdd_mon_cli_kind.split)

lemma alloc_ok:
  assumes "mon_ok mon" "k \<noteq> Kind_sock None" "bbdd_mon_alloc_client alloc mon topics = Some (mon1, i)"
  shows "mon_ok (set_kind i k mon1)"
    "mon_head (set_kind i k mon1) = mon_head mon @ [\<lparr>cli_id = i, cli_topics = topics, cli_kind = k\<rparr>]"
proof -
  have m: "i = mon_fresh mon" "mon1 = mon\<lparr>mon_head := mon_head mon @ [\<lparr>cli_id = mon_fresh mon, cli_topics = topics, cli_kind = Kind_sock None\<rparr>],
      mon_active := (\<lambda>t. if topics t then mon_active mon t + 1 else mon_active mon t), mon_fresh := Suc (mon_fresh mon)\<rparr>"
    using assms(3) by (auto simp: bbdd_mon_alloc_client_def split: if_splits)
  have "map (\<lambda>c. if cli_id c = i then c\<lparr>cli_kind := k\<rparr> else c) (mon_head mon) = mon_head mon"
    using assms(1) by (intro map_idI) (auto simp: mon_ok_def m(1))
  then show h: "mon_head (set_kind i k mon1) = mon_head mon @ [\<lparr>cli_id = i, cli_topics = topics, cli_kind = k\<rparr>]"
    by (simp add: set_kind_def m)
  have "mon_active (set_kind i k mon1) = (\<lambda>t. if topics t then mon_active mon t + 1 else mon_active mon t)"
    "mon_fresh (set_kind i k mon1) = Suc (mon_fresh mon)" by (simp_all add: set_kind_def m)
  then show "mon_ok (set_kind i k mon1)" using assms(1,2) h
    by (auto simp: mon_ok_def subscribed_def m(1) less_Suc_eq)
qed

lemma subscribe_ok:
  assumes "mon_ok mon" "cbs \<or> \<not> alloc"
  shows "\<exists>m r. bbdd_mon_subscribe_sock alloc cbs mon p topics = Some (m, r) \<and> mon_ok m"
    "mon_ok (fst (bbdd_mon_subscribe_cb alloc mon cb topics))"
proof -
  have "bbdd_mon_alloc_client False mon topics = None" by (simp add: bbdd_mon_alloc_client_def)
  then show "\<exists>m r. bbdd_mon_subscribe_sock alloc cbs mon p topics = Some (m, r) \<and> mon_ok m"
    "mon_ok (fst (bbdd_mon_subscribe_cb alloc mon cb topics))"
    using assms alloc_ok(1)[OF assms(1), of "Kind_sock (Some p)" alloc topics] alloc_ok(1)[OF assms(1), of "Kind_cb cb" alloc topics]
    by (cases alloc; auto simp: bbdd_mon_subscribe_sock_def bbdd_mon_subscribe_cb_def split: option.split)+
qed

subsection \<open>Who gets a message\<close>

definition takes :: "(nat \<Rightarrow> bool) \<Rightarrow> bbdd_mon_cli \<Rightarrow> bool" where
  "takes nq_ok c = (case cli_kind c of Kind_sock (Some p) \<Rightarrow> nq_ok p | Kind_sock None \<Rightarrow> False | Kind_cb _ \<Rightarrow> True)"

definition dropped :: "(nat \<Rightarrow> bool) \<Rightarrow> bbdd_mon_topic \<Rightarrow> bbdd_mon_cli \<Rightarrow> bool" where
  "dropped nq_ok t c \<longleftrightarrow> cli_topics c t \<and> \<not> takes nq_ok c"

lemma send_loop_ok:
  assumes "mon_ok mon" "set cs \<subseteq> set (mon_head mon)" "distinct (map cli_id cs)"
  shows "\<exists>m. send_loop nq_ok t cs mon = Some (m, filter (\<lambda>c. cli_topics c t \<and> takes nq_ok c) cs) \<and> mon_ok m
    \<and> mon_head m = filter (\<lambda>c. \<not> (c \<in> set cs \<and> dropped nq_ok t c)) (mon_head mon) \<and> mon_eager m = mon_eager mon"
  using assms
proof (induction cs arbitrary: mon)
  case (Cons c cs)
  have c: "c \<in> set (mon_head mon)" "set cs \<subseteq> set (mon_head mon)" "distinct (map cli_id cs)" "c \<notin> set cs" using Cons.prems by auto
  have k: "cli_kind c \<noteq> Kind_sock None" using Cons.prems(1) c(1) by (simp add: mon_ok_def)
  show ?case
  proof (cases "dropped nq_ok t c")
    case False
    have "send_loop nq_ok t (c # cs) mon
        = map_option (\<lambda>(m, got). (m, if cli_topics c t then c # got else got)) (send_loop nq_ok t cs mon)"
      using False k by (auto simp: dropped_def takes_def map_option_case split: bbdd_mon_cli_kind.splits option.splits prod.splits)
    moreover have "(\<lambda>x. \<not> (x \<in> set (c # cs) \<and> dropped nq_ok t x)) = (\<lambda>x. \<not> (x \<in> set cs \<and> dropped nq_ok t x))" using False by auto
    ultimately show ?thesis using Cons.IH[OF Cons.prems(1) c(2,3)] False by (auto simp: dropped_def)
  next
    case True
    then obtain p where p: "cli_kind c = Kind_sock (Some p)" "\<not> nq_ok p" "cli_topics c t"
      using k by (auto simp: dropped_def takes_def split: bbdd_mon_cli_kind.splits option.splits)
    let ?m = "bbdd_mon_dealloc_client mon c"
    have inj: "cli_id x = cli_id c \<longleftrightarrow> x = c" if "x \<in> set (mon_head mon)" for x
      using Cons.prems(1) c(1) that unfolding mon_ok_def distinct_map inj_on_def by blast
    have h: "mon_head ?m = filter (\<lambda>x. x \<noteq> c) (mon_head mon)" using inj by (auto simp: bbdd_mon_dealloc_client_def intro: filter_cong)
    have "set cs \<subseteq> set (mon_head ?m)" using c(2,4) by (auto simp: h)
    from Cons.IH[OF dealloc_ok[OF Cons.prems(1) c(1)] this c(3), unfolded h filter_filter]
    obtain m where m: "send_loop nq_ok t cs ?m = Some (m, filter (\<lambda>c. cli_topics c t \<and> takes nq_ok c) cs)" "mon_ok m"
      "mon_head m = filter (\<lambda>x. x \<noteq> c \<and> \<not> (x \<in> set cs \<and> dropped nq_ok t x)) (mon_head mon)" "mon_eager m = mon_eager ?m" by auto
    have "send_loop nq_ok t (c # cs) mon = send_loop nq_ok t cs ?m"
      using p unsubscribe_ok[OF Cons.prems(1) c(1)] by simp
    moreover have "(\<lambda>x. x \<noteq> c \<and> \<not> (x \<in> set cs \<and> dropped nq_ok t x)) = (\<lambda>x. \<not> (x \<in> set (c # cs) \<and> dropped nq_ok t x))"
      using True by auto
    ultimately show ?thesis using m True by (auto simp: dropped_def bbdd_mon_dealloc_client_def)
  qed
qed simp

subsection \<open>Every monitor that can come about\<close>

inductive mon_reach :: "bbdd_mon \<Rightarrow> bool" where
  create: "mon_reach (bbdd_mon_create eager)"
| subscribe_sock: "mon_reach mon \<Longrightarrow> bbdd_mon_subscribe_sock alloc_ok True mon p topics = Some (m, r) \<Longrightarrow> mon_reach m"
| subscribe_cb: "mon_reach mon \<Longrightarrow> bbdd_mon_subscribe_cb alloc_ok mon cb topics = (m, r) \<Longrightarrow> mon_reach m"
| cli_done: "mon_reach mon \<Longrightarrow> bbdd_mon_ssk_cli_done mon i = Some m \<Longrightarrow> mon_reach m"
| send: "mon_reach mon \<Longrightarrow> send_loop nq_ok t (mon_head mon) mon = Some (m, got) \<Longrightarrow> mon_reach m"

lemma send_ok:
  assumes "mon_ok mon"
  shows "\<exists>m. send_loop nq_ok t (mon_head mon) mon = Some (m, filter (\<lambda>c. cli_topics c t \<and> takes nq_ok c) (mon_head mon)) \<and> mon_ok m
    \<and> mon_head m = filter (\<lambda>c. \<not> dropped nq_ok t c) (mon_head mon) \<and> mon_eager m = mon_eager mon"
proof -
  have "filter (\<lambda>c. \<not> (c \<in> set (mon_head mon) \<and> dropped nq_ok t c)) (mon_head mon) = filter (\<lambda>c. \<not> dropped nq_ok t c) (mon_head mon)"
    by (rule filter_cong) auto
  then show ?thesis using send_loop_ok[OF assms, of "mon_head mon" nq_ok t] assms by (auto simp: mon_ok_def)
qed

lemma mon_reach_ok: "mon_reach mon \<Longrightarrow> mon_ok mon"
proof (induction rule: mon_reach.induct)
  case (create eager)
  show ?case by (rule create_ok)
next
  case (subscribe_sock mon alloc_ok p topics m r)
  then show ?case using subscribe_ok(1)[of mon True alloc_ok p topics] by auto
next
  case (subscribe_cb mon alloc_ok cb topics m r)
  then show ?case using subscribe_ok(2)[of mon True alloc_ok cb topics] by simp
next
  case (cli_done mon i m)
  then obtain cli where c: "cli \<in> set (mon_head mon)" "bbdd_mon_unsubscribe mon cli = Some m"
    by (auto simp: bbdd_mon_ssk_cli_done_def find_cli_def find_Some_iff split: option.splits) (metis nth_mem)
  then show ?case using unsubscribe_ok[OF cli_done.IH c(1)] dealloc_ok[OF cli_done.IH c(1)] by simp
next
  case (send mon nq_ok t m got)
  then show ?case using send_ok[of mon nq_ok t] by auto
qed

lemma active_exact:
  assumes "mon_ok mon" "length (mon_head mon) < 2 ^ 32"
  shows "bbdd_mon_topic_active mon t \<longleftrightarrow> mon_eager mon \<or> (\<exists>c \<in> set (mon_head mon). cli_topics c t)"
proof -
  have "length (subscribed mon t) < 2 ^ 32" using assms(2) le_less_trans[OF length_filter_le] by (simp add: subscribed_def)
  then have "(of_nat (length (subscribed mon t)) :: u32) > 0 \<longleftrightarrow> subscribed mon t \<noteq> []"
    by (cases "subscribed mon t = []") (auto simp: word_gt_0 of_nat_eq_0_iff word_of_nat_eq_0_iff dest: dvd_imp_le)
  then show ?thesis using assms(1) by (auto simp: bbdd_mon_topic_active_def mon_ok_def subscribed_def filter_empty_conv)
qed

lemma find_append_fresh: "\<forall>x \<in> set xs. \<not> P x \<Longrightarrow> P c \<Longrightarrow> find P (xs @ [c]) = Some c"
  by (induction xs) auto

definition sample_mon :: bbdd_mon where
  "sample_mon = fst (bbdd_mon_subscribe_cb True (bbdd_mon_create False) 3 (\<lambda>t. t = T_error))"

lemma sample_mon_reach: "mon_reach sample_mon"
proof -
  obtain m r where "bbdd_mon_subscribe_cb True (bbdd_mon_create False) 3 (\<lambda>t. t = T_error) = (m, r)" by force
  then show ?thesis unfolding sample_mon_def using mon_reach.subscribe_cb[OF mon_reach.create] by simp
qed

lemma sample_mon_head: "mon_head sample_mon = [\<lparr>cli_id = 0, cli_topics = (\<lambda>t. t = T_error), cli_kind = Kind_cb 3\<rparr>]"
  by (simp add: sample_mon_def bbdd_mon_subscribe_cb_def bbdd_mon_alloc_client_def bbdd_mon_create_def set_kind_def)

subsection \<open>Properties\<close>

text \<open>C21. A message on a topic reaches exactly the clients that subscribed to it, once each and
  in the order of their subscriptions; a connection that cannot take it is dropped and
  nobody else is.  Afterwards the counters still tell whether anybody listens to a topic,
  for any history of subscriptions, messages and closed connections.\<close>

theorem monitor_delivery:
  assumes "mon_reach mon" and "mon_notif J ok mk_u64 ts meth params n = Inr notif" and "length (mon_head mon) < 2 ^ 32"
  shows "\<exists>m. bbdd_mon_send J ok mk_u64 ts nq_ok mon meth params n t
        = Some (m, map (\<lambda>c. (c, notif)) (filter (\<lambda>c. cli_topics c t \<and> takes nq_ok c) (mon_head mon)))
     \<and> mon_head m = filter (\<lambda>c. cli_topics c t \<longrightarrow> takes nq_ok c) (mon_head mon)
     \<and> (\<forall>t'. bbdd_mon_topic_active m t' \<longleftrightarrow> mon_eager mon \<or> (\<exists>c \<in> set (mon_head m). cli_topics c t'))"
proof -
  obtain m where m: "send_loop nq_ok t (mon_head mon) mon = Some (m, filter (\<lambda>c. cli_topics c t \<and> takes nq_ok c) (mon_head mon))"
    "mon_ok m" "mon_head m = filter (\<lambda>c. \<not> dropped nq_ok t c) (mon_head mon)" "mon_eager m = mon_eager mon"
    using send_ok[OF mon_reach_ok[OF assms(1)]] by blast
  have "length (mon_head m) < 2 ^ 32" using assms(3) le_less_trans[OF length_filter_le] by (simp add: m(3))
  from active_exact[OF m(2) this] m assms(2) show ?thesis
    by (auto simp: bbdd_mon_send_def dropped_def intro: filter_cong)
qed

theorem monitor_delivery_witness:
  "\<exists>m c. bbdd_mon_send sample_json (\<lambda>_. True) (\<lambda>u. JInt (uint u)) 5 (\<lambda>_. True) sample_mon ''error'' JNull 0 T_error
     = Some (m, [(c, JObj [(''jsonrpc'', JStr ''2.0''), (''method'', JStr ''error''), (''params'', JObj [(''ts'', JInt 5), (''params'', JNull)])])])
     \<and> bbdd_mon_topic_active m T_error"
proof -
  let ?n = "JObj [(''jsonrpc'', JStr ''2.0''), (''method'', JStr ''error''), (''params'', JObj [(''ts'', JInt 5), (''params'', JNull)])]"
  have n: "mon_notif sample_json (\<lambda>_. True) (\<lambda>u. JInt (uint u)) 5 ''error'' JNull 0 = Inr ?n"
    by (simp add: mon_notif_def bbdd_jrpc_json_new_object_def append_ts_def append_defs append_new_def object_add_def bbdd_jrpc_new_notif_def
        bbdd_jrpc_new_object_def sample_json_def)
  have l: "length (mon_head sample_mon) < 2 ^ 32" by (simp add: sample_mon_head)
  from monitor_delivery[OF sample_mon_reach n l, of "\<lambda>_. True" T_error] show ?thesis by (auto simp: sample_mon_head takes_def)
qed

text \<open>C38. When the callbacks of a connection cannot be registered, the subscription is undone
  through the peer that has not been stored yet: the daemon follows a null pointer.\<close>

theorem subscribe_failure_crashes:
  assumes "mon_reach mon"
  shows "bbdd_mon_subscribe_sock True False mon peer topics = None"
proof -
  have "\<forall>c \<in> set (mon_head mon). cli_id c \<noteq> mon_fresh mon" using mon_reach_ok[OF assms] by (auto simp: mon_ok_def)
  then have "find (\<lambda>c. cli_id c = mon_fresh mon) (mon_head mon @ [c]) = Some c" if "cli_id c = mon_fresh mon" for c
    using that find_append_fresh[of "mon_head mon" "\<lambda>c. cli_id c = mon_fresh mon" c] by simp
  then show ?thesis
    by (simp add: bbdd_mon_subscribe_sock_def bbdd_mon_alloc_client_def find_cli_def bbdd_mon_unsubscribe_def bbdd_mon_unsubscribe_sock_def)
qed

theorem subscribe_failure_crashes_witness: "bbdd_mon_subscribe_sock True False (bbdd_mon_create False) 1 (\<lambda>_. True) = None"
  by (rule subscribe_failure_crashes[OF mon_reach.create])

end
