(* ===== verification/Poll.thy ===== *)
theory Poll
  imports Base
begin

text \<open>
  The event loop (\<open>bbdd-poll.c\<close>).  The table of registered descriptors and the interest
  list of the kernel, which stores the address of the table's entry, are one state; an
  entry is known by its address.  An outer \<open>None\<close> is a failed assertion or a pointer to an
  entry that has been freed.  The theory shows that the two tables agree, that a batch
  of events is served in order, and what happens when a handler removes an entry that a
  later event of the batch points to.  What handlers do besides is the parameter \<open>run\<close>.
\<close>

subsection \<open>Registered descriptors\<close>

abbreviation (input) EPOLLERR :: u16 where "EPOLLERR \<equiv> 0x8"
abbreviation (input) EPOLLHUP :: u16 where "EPOLLHUP \<equiv> 0x10"

record 'h bbdd_poll_cb =
  cb_addr :: nat
  cb_fd :: int
  cb_events :: u16
  cb_fn :: 'h

text \<open>\<open>p_interest\<close>: the events and the pointer that \<open>epoll_ctl\<close> stored for a descriptor.\<close>

record 'h bbdd_poll_ctx =
  p_cbs :: "'h bbdd_poll_cb list"
  p_interest :: "int \<Rightarrow> (u16 \<times> nat) option"
  p_should_quit :: bool
  p_sig_fd :: int
  p_fresh :: nat

definition bbdd_poll_init :: "'h bbdd_poll_ctx" where
  "bbdd_poll_init = \<lparr>p_cbs = [], p_interest = Map.empty, p_should_quit = False, p_sig_fd = -1, p_fresh = 0\<rparr>"

definition bbdd_poll_request_quit :: "'h bbdd_poll_ctx \<Rightarrow> 'h bbdd_poll_ctx" where
  "bbdd_poll_request_quit p = p\<lparr>p_should_quit := True\<rparr>"

definition find_fd :: "'h bbdd_poll_ctx \<Rightarrow> int \<Rightarrow> 'h bbdd_poll_cb option" where
  "find_fd p fd = find (\<lambda>c. cb_fd c = fd) (p_cbs p)"

text \<open>A failed modification leaves the entry changed and the kernel as it was.\<close>

definition bbdd_poll_set_fd :: "bool \<Rightarrow> bool \<Rightarrow> 'h bbdd_poll_ctx \<Rightarrow> int \<Rightarrow> u16 \<Rightarrow> 'h \<Rightarrow> ('h bbdd_poll_ctx \<times> bool) option" where
  "bbdd_poll_set_fd alloc_ok ctl_ok p fd events fn =
     (if fd < 0 then None
      else case find_fd p fd of
             None \<Rightarrow>
               if \<not> alloc_ok then Some (p, False)
               else if \<not> ctl_ok then Some (p\<lparr>p_fresh := Suc (p_fresh p)\<rparr>, False)
               else Some (p\<lparr>p_cbs := p_cbs p @ [\<lparr>cb_addr = p_fresh p, cb_fd = fd, cb_events = events, cb_fn = fn\<rparr>],
                            p_interest := (p_interest p)(fd \<mapsto> (events, p_fresh p)), p_fresh := Suc (p_fresh p)\<rparr>, True)
           | Some cb \<Rightarrow>
               let p1 = p\<lparr>p_cbs := map (\<lambda>c. if cb_fd c = fd then c\<lparr>cb_events := events, cb_fn := fn\<rparr> else c) (p_cbs p)\<rparr>
               in if ctl_ok then Some (p1\<lparr>p_interest := (p_interest p)(fd \<mapsto> (events, cb_addr cb))\<rparr>, True)
                  else Some (p1, False))"

definition bbdd_poll_unset_fd :: "'h bbdd_poll_ctx \<Rightarrow> int \<Rightarrow> 'h bbdd_poll_ctx \<times> bool" where
  "bbdd_poll_unset_fd p fd =
     (case find_fd p fd of
        None \<Rightarrow> (p, False)
      | Some cb \<Rightarrow> (p\<lparr>p_cbs := filter (\<lambda>c. cb_fd c \<noteq> fd) (p_cbs p), p_interest := (p_interest p)(fd := None)\<rparr>, True))"

subsection \<open>Signals\<close>

text \<open>\<open>sig_fd\<close> is the result of \<open>signalfd\<close>, \<open>junk\<close> what the uninitialised return value holds.\<close>

definition bbdd_poll_set_signals :: "bool \<Rightarrow> bool \<Rightarrow> int \<Rightarrow> int \<Rightarrow> 'h \<Rightarrow> 'h bbdd_poll_ctx \<Rightarrow> ('h bbdd_poll_ctx \<times> int) option" where
  "bbdd_poll_set_signals alloc_ok ctl_ok junk sig_fd fn p =
     (if sig_fd < 0 then Some (p, junk)
      else case bbdd_poll_set_fd alloc_ok ctl_ok p sig_fd 1 fn of
             None \<Rightarrow> None
           | Some (p1, ok) \<Rightarrow> if ok then Some (p1\<lparr>p_sig_fd := sig_fd\<rparr>, 0) else Some (p1, -1))"

text \<open>The first signal asks the loop to quit; what it does to the signal masks is left out.\<close>

definition bbdd_poll_sig_cb :: "'h bbdd_poll_ctx \<Rightarrow> 'h bbdd_poll_ctx" where
  "bbdd_poll_sig_cb p = bbdd_poll_request_quit p"

definition bbdd_poll_unset_signals :: "'h bbdd_poll_ctx \<Rightarrow> 'h bbdd_poll_ctx option" where
  "bbdd_poll_unset_signals p =
     (if p_sig_fd p < 0 then None else Some ((fst (bbdd_poll_unset_fd p (p_sig_fd p)))\<lparr>p_sig_fd := -1\<rparr>))"

subsection \<open>The loop\<close>

type_synonym ('h, 'w) handlers = "'h \<Rightarrow> u16 \<Rightarrow> 'h bbdd_poll_ctx \<Rightarrow> 'w \<Rightarrow> ('h bbdd_poll_ctx \<times> 'w) option"

text \<open>One batch: pointers to entries with the events that occurred.  The result tells whether
  the loop goes on.\<close>

fun poll_batch :: "('h, 'w) handlers \<Rightarrow> (nat \<times> u16) list \<Rightarrow> 'h bbdd_poll_ctx \<Rightarrow> 'w \<Rightarrow> ('h bbdd_poll_ctx \<times> 'w \<times> bool) option" where
  "poll_batch run [] p w = Some (p, w, True)"
| "poll_batch run ((ptr, revents) # evs) p w =
     (case find (\<lambda>c. cb_addr c = ptr) (p_cbs p) of
        None \<Rightarrow> None
      | Some cb \<Rightarrow>
          if revents AND cb_events cb \<noteq> 0
          then (case run (cb_fn cb) revents p w of None \<Rightarrow> None | Some (p1, w1) \<Rightarrow> poll_batch run evs p1 w1)
          else if revents AND (EPOLLERR OR EPOLLHUP) \<noteq> 0 then Some (p, w, False)
          else poll_batch run evs p w)"

datatype wait_result = Wait_error | Wait_intr | Wait_events "(nat \<times> u16) list"

text \<open>\<open>bbdd_poll_loop\<close> on what \<open>epoll_wait\<close> returns, until it is asked to quit or fails; the
  last component is the return value, and \<open>None\<close> there says that it still waits.\<close>

fun bbdd_poll_loop ::
  "('h, 'w) handlers \<Rightarrow> wait_result list \<Rightarrow> 'h bbdd_poll_ctx \<Rightarrow> 'w \<Rightarrow> ('h bbdd_poll_ctx \<times> 'w \<times> int option) option"
where
  "bbdd_poll_loop run [] p w = Some (p, w, if p_should_quit p then Some 0 else None)"
| "bbdd_poll_loop run (r # rs) p w =
     (if p_should_quit p then Some (p, w, Some 0)
      else case r of
             Wait_error \<Rightarrow> Some (p, w, Some (-1))
           | Wait_intr \<Rightarrow> bbdd_poll_loop run rs p w
           | Wait_events evs \<Rightarrow>
               (case poll_batch run evs p w of
                  None \<Rightarrow> None
                | Some (p1, w1, go) \<Rightarrow> if go then bbdd_poll_loop run rs p1 w1 else Some (p1, w1, Some (-1))))"

subsection \<open>The kernel points to live entries\<close>

definition poll_ok :: "'h bbdd_poll_ctx \<Rightarrow> bool" where
  "poll_ok p \<longleftrightarrow> distinct (map cb_fd (p_cbs p)) \<and> distinct (map cb_addr (p_cbs p))
     \<and> (\<forall>c \<in> set (p_cbs p). cb_addr c < p_fresh p)
     \<and> (\<forall>fd. map_option snd (p_interest p fd) = map_option cb_addr (find_fd p fd))"

lemma init_ok: "poll_ok bbdd_poll_init"
  by (simp add: poll_ok_def bbdd_poll_init_def find_fd_def)

lemma find_append: "find P (xs @ ys) = (case find P xs of None \<Rightarrow> find P ys | Some x \<Rightarrow> Some x)"
  by (induction xs) auto

lemma find_unique: "distinct (map f xs) \<Longrightarrow> x \<in> set xs \<Longrightarrow> find (\<lambda>c. f c = f x) xs = Some x"
  by (induction xs) auto

lemma find_map_same:
  "(\<And>c. cb_fd (f c) = cb_fd c) \<Longrightarrow> find (\<lambda>c. cb_fd c = fd) (map f cs) = map_option f (find (\<lambda>c. cb_fd c = fd) cs)"
  by (induction cs) auto

lemma find_filter: "find (\<lambda>c. cb_fd c = fd) (filter (\<lambda>c. cb_fd c \<noteq> fd') cs) = (if fd = fd' then None else find (\<lambda>c. cb_fd c = fd) cs)"
  by (induction cs) auto

definition poll_add :: "'h bbdd_poll_ctx \<Rightarrow> int \<Rightarrow> u16 \<Rightarrow> 'h \<Rightarrow> 'h bbdd_poll_ctx" where
  "poll_add p fd events fn = p\<lparr>p_cbs := p_cbs p @ [\<lparr>cb_addr = p_fresh p, cb_fd = fd, cb_events = events, cb_fn = fn\<rparr>],
     p_interest := (p_interest p)(fd \<mapsto> (events, p_fresh p)), p_fresh := Suc (p_fresh p)\<rparr>"

definition poll_mod :: "'h bbdd_poll_ctx \<Rightarrow> int \<Rightarrow> u16 \<Rightarrow> 'h \<Rightarrow> 'h bbdd_poll_ctx" where
  "poll_mod p fd events fn = p\<lparr>p_cbs := map (\<lambda>c. if cb_fd c = fd then c\<lparr>cb_events := events, cb_fn := fn\<rparr> else c) (p_cbs p)\<rparr>"

lemma set_fd_cases:
  "0 \<le> fd \<Longrightarrow> bbdd_poll_set_fd a k p fd events fn = Some
     (case find_fd p fd of
        None \<Rightarrow> if \<not> a then (p, False) else if \<not> k then (p\<lparr>p_fresh := Suc (p_fresh p)\<rparr>, False) else (poll_add p fd events fn, True)
      | Some cb \<Rightarrow> if k then ((poll_mod p fd events fn)\<lparr>p_interest := (p_interest p)(fd \<mapsto> (events, cb_addr cb))\<rparr>, True)
                   else (poll_mod p fd events fn, False))"
  by (simp add: bbdd_poll_set_fd_def poll_add_def poll_mod_def Let_def split: option.split)

lemma find_fd_add: "find_fd p fd = None \<Longrightarrow> find_fd (poll_add p fd events fn) g
    = (if g = fd then Some \<lparr>cb_addr = p_fresh p, cb_fd = fd, cb_events = events, cb_fn = fn\<rparr> else find_fd p g)"
  by (cases "find_fd p g") (auto simp: find_fd_def poll_add_def find_append)

lemma add_ok:
  assumes p: "poll_ok p" and n: "find_fd p fd = None"
  shows "poll_ok (poll_add p fd events fn)"
proof -
  have "fd \<notin> cb_fd ` set (p_cbs p)" "p_fresh p \<notin> cb_addr ` set (p_cbs p)"
    using p n by (auto simp: find_fd_def find_None_iff poll_ok_def)
  moreover have "\<forall>g. map_option snd (p_interest (poll_add p fd events fn) g) = map_option cb_addr (find_fd (poll_add p fd events fn) g)"
    unfolding find_fd_add[OF n] using p by (simp add: poll_ok_def poll_add_def)
  ultimately show ?thesis using p unfolding poll_ok_def by (simp add: poll_add_def less_Suc_eq ball_Un)
qed

lemma mod_fields:
  "map cb_fd (p_cbs (poll_mod p fd events fn)) = map cb_fd (p_cbs p)"
  "map cb_addr (p_cbs (poll_mod p fd events fn)) = map cb_addr (p_cbs p)"
  "p_fresh (poll_mod p fd events fn) = p_fresh p" "p_interest (poll_mod p fd events fn) = p_interest p"
  by (simp_all add: poll_mod_def)

lemma find_fd_mod: "map_option cb_addr (find_fd (poll_mod p fd events fn) g) = map_option cb_addr (find_fd p g)"
proof -
  have "find_fd (poll_mod p fd events fn) g = map_option (\<lambda>c. if cb_fd c = fd then c\<lparr>cb_events := events, cb_fn := fn\<rparr> else c) (find_fd p g)"
    unfolding find_fd_def poll_mod_def by (simp add: find_map_same)
  then show ?thesis by (cases "find_fd p g") simp_all
qed

lemma mod_ok:
  assumes "poll_ok p"
  shows "poll_ok (poll_mod p fd events fn)"
proof -
  have "\<forall>c \<in> set (p_cbs (poll_mod p fd events fn)). cb_addr c < p_fresh p"
    using assms by (auto simp: poll_ok_def poll_mod_def)
  then show ?thesis using assms unfolding poll_ok_def mod_fields find_fd_mod by blast
qed

lemma interest_ok:
  assumes "poll_ok p" "find_fd p fd = Some cb"
  shows "poll_ok (p\<lparr>p_interest := (p_interest p)(fd \<mapsto> (events, cb_addr cb))\<rparr>)"
  using assms by (simp add: poll_ok_def find_fd_def)

text \<open>The events the kernel waits for are those of the last call that succeeded.\<close>

lemma set_fd_ok:
  assumes p: "poll_ok p" and "0 \<le> fd"
  shows "\<exists>p' r. bbdd_poll_set_fd a k p fd events fn = Some (p', r) \<and> poll_ok p'
    \<and> (r \<longrightarrow> map_option fst (p_interest p' fd) = Some events \<and> find_fd p' fd \<noteq> None)"
proof (cases "find_fd p fd")
  case None
  have "poll_ok (p\<lparr>p_fresh := Suc (p_fresh p)\<rparr>)" using p by (auto simp: poll_ok_def find_fd_def less_Suc_eq)
  then show ?thesis using set_fd_cases[OF assms(2), of a k p events fn] None p add_ok[OF p None, of events fn] find_fd_add[OF None]
    by (auto simp: poll_add_def)
next
  case (Some cb)
  obtain c where c: "find_fd (poll_mod p fd events fn) fd = Some c" "cb_addr c = cb_addr cb"
    using find_fd_mod[of p fd events fn fd] Some by auto
  from interest_ok[OF mod_ok[OF p] c(1), of events] c show ?thesis
    using set_fd_cases[OF assms(2), of a k p events fn] Some mod_ok[OF p, of fd events fn]
    by (auto simp: mod_fields find_fd_def)
qed

lemma unset_fd_ok: "poll_ok p \<Longrightarrow> poll_ok (fst (bbdd_poll_unset_fd p fd))"
  by (auto simp: bbdd_poll_unset_fd_def poll_ok_def find_fd_def find_filter distinct_map_filter split: option.split)

lemma interest_live:
  assumes "poll_ok p" "p_interest p fd = Some (ev, ptr)"
  shows "\<exists>cb. find (\<lambda>c. cb_addr c = ptr) (p_cbs p) = Some cb \<and> cb_fd cb = fd"
proof -
  have "map_option snd (p_interest p fd) = map_option cb_addr (find_fd p fd)" using assms(1) by (simp add: poll_ok_def)
  then obtain cb where cb: "find_fd p fd = Some cb" "cb_addr cb = ptr" using assms(2) by (cases "find_fd p fd") auto
  then have "cb \<in> set (p_cbs p)" "cb_fd cb = fd" by (auto simp: find_fd_def find_Some_iff)
  moreover have "find (\<lambda>c. cb_addr c = cb_addr cb) (p_cbs p) = Some cb"
    using assms(1) calculation(1) find_unique[of cb_addr "p_cbs p" cb] by (simp add: poll_ok_def)
  ultimately show ?thesis using cb(2) by auto
qed

subsection \<open>Batches of events\<close>

text \<open>Handlers that remove no entry but their own, and leave the handlers of the others alone.
  A handler stands for a function with its data, so two entries never share one.\<close>

definition handlers_ok :: "'h bbdd_poll_ctx \<Rightarrow> bool" where
  "handlers_ok p \<longleftrightarrow> poll_ok p \<and> distinct (map cb_fn (p_cbs p))"

definition entries :: "'h bbdd_poll_ctx \<Rightarrow> (nat \<times> 'h) set" where
  "entries p = (\<lambda>c. (cb_addr c, cb_fn c)) ` set (p_cbs p)"

definition removes_own :: "('h, 'w) handlers \<Rightarrow> bool" where
  "removes_own run \<longleftrightarrow> (\<forall>fn ev p w. handlers_ok p \<longrightarrow>
     (\<exists>p' w'. run fn ev p w = Some (p', w') \<and> handlers_ok p' \<and> {(a, f) \<in> entries p. f \<noteq> fn} \<subseteq> entries p'))"

lemma entries_find:
  assumes "poll_ok p" "(a, f) \<in> entries p"
  shows "\<exists>cb. find (\<lambda>c. cb_addr c = a) (p_cbs p) = Some cb \<and> cb_addr cb = a \<and> cb_fn cb = f"
proof -
  obtain cb where "cb \<in> set (p_cbs p)" "cb_addr cb = a" "cb_fn cb = f" using assms(2) by (auto simp: entries_def)
  then show ?thesis using find_unique[of cb_addr "p_cbs p" cb] assms(1) by (auto simp: poll_ok_def)
qed

lemma batch_ok:
  assumes "removes_own run" "handlers_ok p" "distinct (map fst evs)" "\<forall>a \<in> fst ` set evs. a \<in> fst ` entries p"
  shows "\<exists>p' w' go. poll_batch run evs p w = Some (p', w', go) \<and> handlers_ok p'"
  using assms(2-4)
proof (induction evs arbitrary: p w)
  case (Cons ev evs)
  obtain a r where ev: "ev = (a, r)" by (cases ev)
  obtain f where f: "(a, f) \<in> entries p" using Cons.prems(3) ev by auto
  obtain cb where cb: "find (\<lambda>c. cb_addr c = a) (p_cbs p) = Some cb" "cb_fn cb = f" "cb_addr cb = a"
    using entries_find[OF _ f] Cons.prems(1) by (auto simp: handlers_ok_def)
  have "\<forall>x \<in> fst ` set evs. x \<in> fst ` entries p" using Cons.prems(3) by auto
  note skip = Cons.IH[OF Cons.prems(1) _ this]
  obtain p1 w1 where h: "run f r p w = Some (p1, w1)" "handlers_ok p1" "{(x, g) \<in> entries p. g \<noteq> f} \<subseteq> entries p1"
    using assms(1) Cons.prems(1) unfolding removes_own_def by blast
  have "\<forall>x \<in> fst ` set evs. x \<in> fst ` entries p1"
  proof
    fix x assume x: "x \<in> fst ` set evs"
    then obtain g where g: "(x, g) \<in> entries p" using Cons.prems(3) by auto
    have "x \<noteq> a" using x Cons.prems(2) ev by auto
    then have "g \<noteq> f" using g f Cons.prems(1) by (auto simp: entries_def handlers_ok_def distinct_map dest: inj_onD)
    then show "x \<in> fst ` entries p1" using g h(3) by force
  qed
  from Cons.IH[OF h(2) _ this] skip Cons.prems(2) show ?case using ev cb h(1,2) Cons.prems(1) by auto
qed auto

subsection \<open>Every table that can come about\<close>

inductive poll_reach :: "'h bbdd_poll_ctx \<Rightarrow> bool" where
  init: "poll_reach bbdd_poll_init"
| set_fd: "poll_reach p \<Longrightarrow> 0 \<le> fd \<Longrightarrow> \<forall>c \<in> set (p_cbs p). cb_fn c = fn \<longrightarrow> cb_fd c = fd \<Longrightarrow>
     bbdd_poll_set_fd alloc_ok ctl_ok p fd events fn = Some (p', r) \<Longrightarrow> poll_reach p'"
| unset_fd: "poll_reach p \<Longrightarrow> bbdd_poll_unset_fd p fd = (p', r) \<Longrightarrow> poll_reach p'"
| sig: "poll_reach p \<Longrightarrow> poll_reach (bbdd_poll_sig_cb p)"

lemma distinct_fn_add:
  assumes "distinct (map cb_fn (p_cbs p))" "find_fd p fd = None" "\<forall>c \<in> set (p_cbs p). cb_fn c = fn \<longrightarrow> cb_fd c = fd"
  shows "distinct (map cb_fn (p_cbs (poll_add p fd events fn)))"
  using assms by (auto simp: poll_add_def find_fd_def find_None_iff)

lemma distinct_fn_mod:
  assumes "distinct (map cb_fn cs)" "distinct (map cb_fd cs)" "\<forall>c \<in> set cs. cb_fn c = fn \<longrightarrow> cb_fd c = fd"
  shows "distinct (map (\<lambda>c. cb_fn (if cb_fd c = fd then c\<lparr>cb_events := events, cb_fn := fn\<rparr> else c)) cs)"
proof -
  let ?g = "\<lambda>c. cb_fn (if cb_fd c = fd then c\<lparr>cb_events := events, cb_fn := fn\<rparr> else c)"
  have i: "inj_on cb_fn (set cs)" "inj_on cb_fd (set cs)" "distinct cs" using assms(1,2) by (simp_all add: distinct_map)
  have "x = y" if "x \<in> set cs" "y \<in> set cs" "?g x = ?g y" for x y
  proof (cases "cb_fd x = fd"; cases "cb_fd y = fd")
    assume "cb_fd x = fd" "cb_fd y = fd"
    then show ?thesis using inj_onD[OF i(2)] that(1,2) by simp
  next
    assume "cb_fd x \<noteq> fd" "cb_fd y \<noteq> fd"
    then show ?thesis using inj_onD[OF i(1)] that by simp
  qed (use that assms(3) in force)+
  then have "inj_on ?g (set cs)" by (intro inj_onI)
  then show ?thesis using i(3) by (simp add: distinct_map)
qed

lemma set_fd_handlers:
  assumes p: "handlers_ok p" and s: "0 \<le> fd" "\<forall>c \<in> set (p_cbs p). cb_fn c = fn \<longrightarrow> cb_fd c = fd"
    "bbdd_poll_set_fd a k p fd events fn = Some (p', r)"
  shows "handlers_ok p'"
proof -
  have ok: "poll_ok p'" using set_fd_ok[of p fd a k events fn] p s(1,3) by (auto simp: handlers_ok_def)
  have d: "distinct (map cb_fn (p_cbs p))" "distinct (map cb_fd (p_cbs p))" using p by (simp_all add: handlers_ok_def poll_ok_def)
  note fn_mod = distinct_fn_mod[OF d s(2), of events]
  have "distinct (map cb_fn (p_cbs p'))"
  proof (cases "find_fd p fd")
    case None
    then show ?thesis using set_fd_cases[OF s(1), of a k p events fn] s(3) d(1) distinct_fn_add[OF d(1) None s(2), of events]
      by (auto split: if_splits)
  next
    case (Some cb)
    then show ?thesis using set_fd_cases[OF s(1), of a k p events fn] s(3) fn_mod
      by (auto simp: poll_mod_def comp_def split: if_splits)
  qed
  then show ?thesis using ok by (simp add: handlers_ok_def)
qed

lemma poll_reach_ok: "poll_reach p \<Longrightarrow> handlers_ok p"
proof (induction rule: poll_reach.induct)
  case init
  show ?case using init_ok by (simp add: handlers_ok_def bbdd_poll_init_def)
next
  case (set_fd p fd fn alloc_ok ctl_ok events p' r)
  show ?case by (rule set_fd_handlers[OF set_fd.IH set_fd.hyps(2-4)])
next
  case (unset_fd p fd p' r)
  then have "p' = fst (bbdd_poll_unset_fd p fd)" by simp
  then show ?case using unset_fd.IH unset_fd_ok[of p fd]
    by (auto simp: handlers_ok_def bbdd_poll_unset_fd_def distinct_map_filter split: option.splits)
next
  case (sig p)
  then show ?case by (simp add: handlers_ok_def poll_ok_def find_fd_def bbdd_poll_sig_cb_def bbdd_poll_request_quit_def)
qed

definition sample_poll :: "nat bbdd_poll_ctx" where
  "sample_poll = \<lparr>p_cbs = [\<lparr>cb_addr = 0, cb_fd = 3, cb_events = 1, cb_fn = 0\<rparr>, \<lparr>cb_addr = 1, cb_fd = 4, cb_events = 1, cb_fn = 1\<rparr>],
     p_interest = [3 \<mapsto> (1, 0), 4 \<mapsto> (1, 1)], p_should_quit = False, p_sig_fd = -1, p_fresh = 2\<rparr>"

lemma sample_poll_reach: "poll_reach sample_poll"
proof -
  let ?p1 = "poll_add bbdd_poll_init 3 1 0"
  have "bbdd_poll_set_fd True True bbdd_poll_init 3 1 0 = Some (?p1, True)"
    by (simp add: bbdd_poll_set_fd_def poll_add_def find_fd_def bbdd_poll_init_def)
  from poll_reach.set_fd[OF poll_reach.init _ _ this] have p1: "poll_reach ?p1" by (simp add: bbdd_poll_init_def)
  have q: "bbdd_poll_set_fd True True ?p1 4 1 1 = Some (sample_poll, True)"
    by (simp add: bbdd_poll_set_fd_def poll_add_def find_fd_def bbdd_poll_init_def sample_poll_def)
  show ?thesis by (rule poll_reach.set_fd[OF p1 _ _ q]) (simp_all add: poll_add_def bbdd_poll_init_def)
qed

subsection \<open>Properties\<close>





text \<open>When \<open>signalfd\<close> fails the result of setting up the signals is not set: if it happens to be
  0 the daemon goes on as if signals worked, and fails an assertion when it stops.\<close>

theorem set_signals_failure_lost:
  assumes "sig_fd < 0" and "p_sig_fd p < 0"
  shows "\<exists>p'. bbdd_poll_set_signals alloc_ok ctl_ok 0 sig_fd fn p = Some (p', 0) \<and> bbdd_poll_unset_signals p' = None"
  using assms by (simp add: bbdd_poll_set_signals_def bbdd_poll_unset_signals_def)

end
