(* ===== verification/Spec2Isabelle.thy ===== *)
theory Spec2Isabelle
  imports Daemon_Run Bpf_Prog Client_Request Monitor Poll
begin

text \<open>
  Verification of \<open>bbdd\<close>, a data plane for BFD (RFC 5880) that sends and checks the
  periodic packets with BPF programs in the kernel.  All sources named below are under
  \<open>src/src/\<close>.

  \<^bold>\<open>The program.\<close>  The daemon keeps a directory of sessions.  Sessions are created, changed
  and deleted by requests of the command-line client over JSON-RPC, or by messages of
  the BFD daemon of FRR over a binary protocol.  For each session the daemon configures
  the kernel: the looper program re-sends a packet in a loop over a veth pair, the receive
  program checks arriving packets against what is expected and re-arms a timer.  What the
  kernel programs cannot decide, an unexpected packet or a timeout, comes back to the daemon
  through a ring buffer and drives the BFD state machine.  An event loop serves all of it,
  and a monitor tells interested clients what happens.

  \<^bold>\<open>Conventions.\<close>  A C structure is a record, an enumeration a datatype, an integer a word of
  its width.  A function that returns an error has a sum as its result, with the error on the
  left.  An outer \<open>option\<close> stands for a failed assertion, an abort or an access that C does
  not define; a theorem that a result is \<open>Some\<close> says that none of them happens.  Results of
  allocations and system calls come from arguments, so that the theorems hold for every
  pattern of failures.  A table of \<open>uthash\<close> is a list of entries with distinct keys.

  \<^bold>\<open>Theories and sources.\<close>
  \<^item> \<open>Base\<close>: prelude with the integer types, results, and facts on lists, tables and words.
  \<^item> \<open>Bfd_Types\<close>, \<open>Bfd_Codec\<close>: packets, sessions, building and parsing packets, checksums
    (\<open>bbdd-prog-pkt.h\<close>, \<open>bbdd-prog.h\<close>, \<open>bbdd-d.h\<close>, \<open>bbdd-bpf.c\<close>).
  \<^item> \<open>Tx_Queue\<close> (\<open>bbdd-tx.c\<close>), \<open>Timers\<close> (\<open>bbdd-timer.c\<close>), \<open>Sess_Dir\<close> (\<open>bbdd-sess.c\<close>), \<open>Sport\<close>
    (the port bitmap of \<open>bbdd-d.c\<close>): the containers, each with a locale for what its clients
    rely on (\<open>deferred_queue\<close>, \<open>inorder_insert\<close>, \<open>timer_client\<close>, \<open>session_table\<close>,
    \<open>port_pool\<close>), interpreted on the model.
  \<^item> \<open>Bpf_State\<close>, \<open>Bpf_Tx\<close>, \<open>Bpf_Session\<close>, \<open>Bpf_Handlers\<close> (\<open>bbdd-bpf.c\<close>): the state of the
    kernel-facing half, sending and configuring, the life of a session, the handlers of
    packets, timeouts, timers and of the drained queue.  \<open>Bpf_Safety\<close>, \<open>Bpf_Lifecycle\<close> and
    \<open>Bpf_Protocol\<close> hold the invariants \<open>sess_ok\<close> and \<open>world_ok\<close>, their preservation by every
    handler and what the handlers do in the terms of RFC 5880; \<open>Bpf_Claims\<close> states the properties.
  \<^item> \<open>Bpf_Prog\<close> (\<open>bbdd-prog.bpf.c\<close>): the kernel programs on packet bytes, with the locale
    \<open>skb_access\<close> for the helpers that read and write packets.
  \<^item> \<open>Stream_Buf\<close> (\<open>bbdd-sb.c\<close>) with the locale \<open>byte_queue\<close>, \<open>Stream_Peer\<close> (\<open>bbdd-ssk.c\<close> and the
    tokenizers of \<open>bbdd-util.c\<close>): buffered streams and how they are cut into messages.
  \<^item> \<open>Sock_Addr\<close> (\<open>bbdd-sock.c\<close>, \<open>bbdd-util.c\<close>): numbers, times and addresses as text.
  \<^item> \<open>Jrpc\<close> (\<open>bbdd-jrpc.c\<close>): taking JSON objects apart by a policy and building requests.
  \<^item> \<open>Csess\<close> (\<open>bbdd-c.h\<close>, \<open>bbdd-d.c\<close>): sessions as requests describe them; reading, validating,
    applying and selecting.
  \<^item> \<open>Daemon\<close> (\<open>bbdd-d.c\<close>): the requests of the control socket and the invariant \<open>dmn_ok\<close>.
  \<^item> \<open>Bfdd\<close> (\<open>bbdd-bfdd.c\<close>, \<open>bfddp_packet.h\<close>), \<open>Bfdd_Daemon\<close> (\<open>bbdd-d.c\<close>): the messages of the
    BFD daemon as bytes, and their handlers.
  \<^item> \<open>Daemon_Run\<close>: the whole daemon as a transition system over requests, messages, kernel
    events, timers and the writable socket.
  \<^item> \<open>Client\<close>, \<open>Client_Request\<close> (\<open>bbdd-c.c\<close>): the command lines of \<open>bbdd session\<close> and
    \<open>bbdd global\<close> and the requests they send.
  \<^item> \<open>Monitor\<close> (\<open>bbdd-mon.c\<close>) and \<open>Poll\<close> (\<open>bbdd-poll.c\<close>): subscriptions, and the event loop.

  \<^bold>\<open>What is shown.\<close>
  \<^item> Safety: in every state the daemon can reach, every event that can occur is served without a
    failed assertion and leads to a consistent state; any bytes from the BFD daemon are safe
    to receive; no command line crashes the client; a batch of events touches no freed entry
    unless a handler removes another's entry.
  \<^item> Protocol: received packets move a session as the state machine of RFC 5880 says, two
    sessions reach Up by the handshake, poll sequences apply new parameters, a
    detection timeout takes the session down, passive sessions are silent.
  \<^item> Round trips: packets, messages of the BFD daemon, requests of the client, and sessions
    that are shown and set again.
  \<^item> Kernel programs: a circulating packet is released exactly once, own frames are recognised.
  \<^item> Containers and streams: queue order, timer order, FIFO buffers, the same messages
    for every chunking of the input, termination of the receive loops.
  \<^item> Errors: an addition that fails leaves nothing behind; and the cases where the
    code does what it does not mean to, each as a theorem on the model.

  \<^bold>\<open>Loops and bounds.\<close>  Loops of the code are structural recursions over the lists they walk,
  or functions with a measure: the arguments left on a command line, the bytes left in
  a stream.  Loops that need not end, such as drawing a random discriminator or re-reading
  after a signal, are partial functions into \<open>option\<close> or recurse over the list of results the
  system gives; that the draw of a discriminator, the draining of the queue and the receive
  loops end is a theorem with its condition.  There is no fuel except the 100 attempts
  that \<open>bbdd_ssk_peer_destroy\<close> itself counts.

  \<^bold>\<open>Parameters.\<close>  Code that is not in the repository enters as an argument: json-c
  (\<open>json_c\<close> with \<open>json_ok\<close>), \<open>inet_pton\<close> and \<open>inet_ntop\<close> (\<open>inet\<close>, \<open>inet_ok\<close>), the interfaces of
  the host and the answers of netlink (\<open>netenv\<close>, \<open>net_ok\<close>), the ordered insertion of utlist,
  the BPF helpers, the random source, allocations and system calls.  Each assumption is the
  documented behaviour, and a concrete instance shows that it can hold.

  \<^bold>\<open>Not modelled.\<close>  \<open>bbdd-nl.c\<close> builds and parses netlink messages through libmnl for the
  kernel; only its answers matter here and they are parameters.  \<open>bbdd-br.c\<close>, a stand-in for the
  BFD daemon for experiments, composes modelled messages and requests.  Of \<open>bbdd-c.c\<close> the
  waiting for answers, the printing and the commands without parameters are input and
  output.  \<open>bbdd.c\<close> reads options with \<open>getopt_long\<close>, \<open>bbdd-err.c\<close> formats texts.  Showing
  sessions and statistics in \<open>bbdd-d.c\<close> only builds answers, and its start-up code calls the
  kernel.  Opening, accepting and connecting sockets is left out, as are reference
  counts of JSON objects.
\<close>

end
